(* ===== verification/Prelude.thy ===== *)
theory Prelude
  imports
    Main
    "HOL-Library.Word"
    "HOL-Library.Char_ord"
    "HOL-Library.List_Lexorder"
begin

text \<open>
  Shared vocabulary of the development: machine integers and their big-endian byte images,
  Rust strings as their UTF-8 bytes with the \<open>str\<close> operations the sources call, byte readers
  and writers with the ways they can fail, a result-and-state monad in which the asynchronous
  functions are written, and two interfaces stated as locales: self-delimiting codecs
  (\<open>wire_codec\<close>) and step systems with an invariant (\<open>step_system\<close>).
\<close>

named_theorems io_simps "evaluation rules of the reader, writer and result monad"
named_theorems str_simps "evaluation rules of the string operations"

type_synonym byte = "8 word"
type_synonym u16 = "16 word"
type_synonym u32 = "32 word"
type_synonym u64 = "64 word"
type_synonym bytes = "byte list"

section \<open>Big-endian bytes\<close>

text \<open>\<open>be_bytes k n\<close> is the \<open>k\<close>-byte big-endian image of \<open>n\<close> (\<open>to_be_bytes\<close>), \<open>be_nat\<close> reads
  such an image back (\<open>from_be_bytes\<close>).\<close>

fun be_bytes :: "nat \<Rightarrow> nat \<Rightarrow> bytes" where
  "be_bytes 0 n = []"
| "be_bytes (Suc k) n = word_of_nat (n div 256 ^ k) # be_bytes k n"

definition be_nat :: "bytes \<Rightarrow> nat" where
  "be_nat bs = foldl (\<lambda>a b. a * 256 + unat b) 0 bs"

lemma length_be_bytes [simp]: "length (be_bytes k n) = k"
  by (induction k) auto

lemma be_nat_foldl: "foldl (\<lambda>a b. a * 256 + unat b) a bs = a * 256 ^ length bs + be_nat bs"
proof (induction bs arbitrary: a)
  case Nil
  then show ?case by (simp add: be_nat_def)
next
  case (Cons b bs)
  have "foldl (\<lambda>a b. a * 256 + unat b) a (b # bs) = (a * 256 + unat b) * 256 ^ length bs + be_nat bs"
    using Cons.IH[of "a * 256 + unat b"] by simp
  also have "\<dots> = a * 256 ^ length (b # bs) + (unat b * 256 ^ length bs + be_nat bs)"
    by (simp add: algebra_simps)
  also have "unat b * 256 ^ length bs + be_nat bs = be_nat (b # bs)"
    using Cons.IH[of "unat b"] by (simp add: be_nat_def)
  finally show ?case .
qed

lemma be_nat_Nil [simp]: "be_nat [] = 0"
  by (simp add: be_nat_def)

lemma be_nat_Cons: "be_nat (b # bs) = unat b * 256 ^ length bs + be_nat bs"
  using be_nat_foldl[of "unat b" bs] by (simp add: be_nat_def)

lemma be_nat_be_bytes: "be_nat (be_bytes k n) = n mod 256 ^ k"
proof (induction k)
  case 0
  then show ?case by simp
next
  case (Suc k)
  have "unat (word_of_nat (n div 256 ^ k) :: byte) = (n div 256 ^ k) mod 256"
    by (simp add: unat_of_nat)
  moreover have "n mod (256 ^ k * 256) = 256 ^ k * (n div 256 ^ k mod 256) + n mod 256 ^ k"
    by (rule mod_mult2_eq)
  ultimately show ?case
    using Suc by (simp add: be_nat_Cons algebra_simps)
qed

lemma be_nat_bound: "be_nat bs < 256 ^ length bs"
proof (induction bs)
  case Nil
  then show ?case by simp
next
  case (Cons b bs)
  have "unat b < 256" using unsigned_less[of b] by simp
  then have "(unat b + 1) * 256 ^ length bs \<le> 256 * 256 ^ length bs"
    by (intro mult_le_mono1) simp
  moreover have "(unat b + 1) * 256 ^ length bs = unat b * 256 ^ length bs + 256 ^ length bs"
    by (simp add: add_mult_distrib)
  ultimately have "unat b * 256 ^ length bs + be_nat bs < 256 * 256 ^ length bs"
    using Cons by linarith
  then show ?case by (simp add: be_nat_Cons)
qed

lemma be_digits_unique:
  fixes a b c d B :: nat
  assumes "a * B + c = b * B + d" and "c < B" and "d < B"
  shows "a = b \<and> c = d"
proof -
  have "(a * B + c) div B = a" "(a * B + c) mod B = c" using assms(2) by simp_all
  moreover have "(b * B + d) div B = b" "(b * B + d) mod B = d" using assms(3) by simp_all
  ultimately show ?thesis using assms(1) by metis
qed

lemma be_nat_inj: "length xs = length ys \<Longrightarrow> be_nat xs = be_nat ys \<Longrightarrow> xs = ys"
proof (induction xs ys rule: list_induct2)
  case Nil
  then show ?case by simp
next
  case (Cons x xs y ys)
  have "unat x * 256 ^ length xs + be_nat xs = unat y * 256 ^ length xs + be_nat ys"
    using Cons by (simp add: be_nat_Cons)
  moreover have "be_nat xs < 256 ^ length xs" by (rule be_nat_bound)
  moreover have "be_nat ys < 256 ^ length xs" using be_nat_bound[of ys] Cons.hyps by simp
  ultimately have "unat x = unat y \<and> be_nat xs = be_nat ys" by (rule be_digits_unique)
  then show ?case using Cons by (simp add: unsigned_word_eqI)
qed

text \<open>The conversions at the widths the sources use.\<close>

definition u16_to_be_bytes :: "u16 \<Rightarrow> bytes" where
  "u16_to_be_bytes w = be_bytes 2 (unat w)"

definition u32_to_be_bytes :: "u32 \<Rightarrow> bytes" where
  "u32_to_be_bytes w = be_bytes 4 (unat w)"

definition u64_to_be_bytes :: "u64 \<Rightarrow> bytes" where
  "u64_to_be_bytes w = be_bytes 8 (unat w)"

definition u16_from_be_bytes :: "bytes \<Rightarrow> u16" where
  "u16_from_be_bytes bs = word_of_nat (be_nat bs)"

definition u32_from_be_bytes :: "bytes \<Rightarrow> u32" where
  "u32_from_be_bytes bs = word_of_nat (be_nat bs)"

definition u64_from_be_bytes :: "bytes \<Rightarrow> u64" where
  "u64_from_be_bytes bs = word_of_nat (be_nat bs)"

lemma length_u16_be [simp]: "length (u16_to_be_bytes x) = 2"
  and length_u32_be [simp]: "length (u32_to_be_bytes y) = 4"
  and length_u64_be [simp]: "length (u64_to_be_bytes z) = 8"
  by (simp_all add: u16_to_be_bytes_def u32_to_be_bytes_def u64_to_be_bytes_def)

lemma u16_from_to_be [simp]: "u16_from_be_bytes (u16_to_be_bytes w) = w"
proof -
  have "unat w < 256 ^ 2" using unsigned_less[of w] by simp
  then show ?thesis
    by (simp add: u16_from_be_bytes_def u16_to_be_bytes_def be_nat_be_bytes)
qed

lemma u32_from_to_be [simp]: "u32_from_be_bytes (u32_to_be_bytes w) = w"
proof -
  have "unat w < 256 ^ 4" using unsigned_less[of w] by simp
  then show ?thesis
    by (simp add: u32_from_be_bytes_def u32_to_be_bytes_def be_nat_be_bytes)
qed

lemma u64_from_to_be [simp]: "u64_from_be_bytes (u64_to_be_bytes w) = w"
proof -
  have "unat w < 256 ^ 8" using unsigned_less[of w] by simp
  then show ?thesis
    by (simp add: u64_from_be_bytes_def u64_to_be_bytes_def be_nat_be_bytes)
qed

lemma unat_u32_of_nat: "n < 2 ^ 32 \<Longrightarrow> unat (word_of_nat n :: u32) = n"
  by (simp add: unat_of_nat)

lemma unat_u16_of_nat: "n < 2 ^ 16 \<Longrightarrow> unat (word_of_nat n :: u16) = n"
  by (simp add: unat_of_nat)

lemma u32_to_from_be: "length bs = 4 \<Longrightarrow> u32_to_be_bytes (u32_from_be_bytes bs) = bs"
proof (rule be_nat_inj)
  assume len: "length bs = 4"
  then show "length (u32_to_be_bytes (u32_from_be_bytes bs)) = length bs" by simp
  have "be_nat bs < 2 ^ 32" using be_nat_bound[of bs] len by simp
  then show "be_nat (u32_to_be_bytes (u32_from_be_bytes bs)) = be_nat bs"
    by (simp add: u32_to_be_bytes_def u32_from_be_bytes_def be_nat_be_bytes unat_u32_of_nat)
qed

section \<open>Results with state\<close>

text \<open>A computation reads and updates a state and ends in an error (\<open>Inl\<close>) or a value (\<open>Inr\<close>);
  \<open>io_bind\<close> is the \<open>?\<close> operator: the first error ends the computation.\<close>

type_synonym ('s, 'e, 'a) io = "'s \<Rightarrow> ('e + 'a) \<times> 's"

definition io_return :: "'a \<Rightarrow> ('s, 'e, 'a) io" where
  "io_return a s = (Inr a, s)"

definition io_fail :: "'e \<Rightarrow> ('s, 'e, 'a) io" where
  "io_fail e s = (Inl e, s)"

definition io_bind :: "('s, 'e, 'a) io \<Rightarrow> ('a \<Rightarrow> ('s, 'e, 'b) io) \<Rightarrow> ('s, 'e, 'b) io" where
  "io_bind m f s = (case m s of (Inl e, s') \<Rightarrow> (Inl e, s') | (Inr a, s') \<Rightarrow> f a s')"

definition io_map_err :: "('e \<Rightarrow> 'f) \<Rightarrow> ('s, 'e, 'a) io \<Rightarrow> ('s, 'f, 'a) io" where
  "io_map_err g m s = (case m s of (Inl e, s') \<Rightarrow> (Inl (g e), s') | (Inr a, s') \<Rightarrow> (Inr a, s'))"

fun io_replicate :: "nat \<Rightarrow> ('s, 'e, 'a) io \<Rightarrow> ('s, 'e, 'a list) io" where
  "io_replicate 0 m = io_return []"
| "io_replicate (Suc n) m = io_bind m (\<lambda>a. io_bind (io_replicate n m) (\<lambda>as. io_return (a # as)))"

fun io_iter :: "('a \<Rightarrow> ('s, 'e, unit) io) \<Rightarrow> 'a list \<Rightarrow> ('s, 'e, unit) io" where
  "io_iter f [] = io_return ()"
| "io_iter f (x # xs) = io_bind (f x) (\<lambda>_. io_iter f xs)"

lemma io_return_apply [io_simps]: "io_return a s = (Inr a, s)"
  by (simp add: io_return_def)

lemma io_fail_apply [io_simps]: "io_fail e s = (Inl e, s)"
  by (simp add: io_fail_def)

lemma io_bind_Inr [io_simps]: "m s = (Inr a, s') \<Longrightarrow> io_bind m f s = f a s'"
  by (simp add: io_bind_def)

lemma io_bind_Inl [io_simps]: "m s = (Inl e, s') \<Longrightarrow> io_bind m f s = (Inl e, s')"
  by (simp add: io_bind_def)

lemma io_map_err_Inr [io_simps]: "m s = (Inr a, s') \<Longrightarrow> io_map_err g m s = (Inr a, s')"
  by (simp add: io_map_err_def)

lemma io_map_err_Inl [io_simps]: "m s = (Inl e, s') \<Longrightarrow> io_map_err g m s = (Inl (g e), s')"
  by (simp add: io_map_err_def)

lemma io_bind_eq_Inr:
  "io_bind m f s = (Inr b, s'') \<longleftrightarrow> (\<exists>a s'. m s = (Inr a, s') \<and> f a s' = (Inr b, s''))"
  by (auto simp: io_bind_def split: prod.splits sum.splits)

lemma io_map_err_eq_Inr: "io_map_err g m s = (Inr b, s') \<longleftrightarrow> m s = (Inr b, s')"
  by (auto simp: io_map_err_def split: prod.splits sum.splits)

section \<open>Lists\<close>

lemma distinct_remdups_adj_sorted:
  fixes xs :: "'a::linorder list"
  shows "sorted xs \<Longrightarrow> distinct (remdups_adj xs)"
  by (induction xs rule: remdups_adj.induct) (auto simp: order_antisym)

section \<open>Readers and writers\<close>

text \<open>The read half of a connection is the bytes the peer will deliver and how the stream ends
  after them: closed, or broken with an error. The write half records the bytes handed to the
  peer, how many more it takes before it breaks (\<open>None\<close>: it never does) and how a flush ends.\<close>

datatype io_error = UnexpectedEof | TimedOut string | IoOther string

datatype rend = REof | RErr string

record reader =
  rbytes :: bytes
  rend :: rend

record writer =
  wbytes :: bytes
  wroom :: "nat option"
  wflush :: "io_error option"

definition rend_error :: "rend \<Rightarrow> io_error" where
  "rend_error e = (case e of REof \<Rightarrow> UnexpectedEof | RErr m \<Rightarrow> IoOther m)"

definition read_exact :: "nat \<Rightarrow> (reader, io_error, bytes) io" where
  "read_exact n r =
     (if n \<le> length (rbytes r) then (Inr (take n (rbytes r)), r\<lparr>rbytes := drop n (rbytes r)\<rparr>)
      else (Inl (rend_error (rend r)), r\<lparr>rbytes := []\<rparr>))"

definition read_u8 :: "(reader, io_error, byte) io" where
  "read_u8 = io_bind (read_exact 1) (\<lambda>bs. io_return (hd bs))"

definition read_u16 :: "(reader, io_error, u16) io" where
  "read_u16 = io_bind (read_exact 2) (\<lambda>bs. io_return (u16_from_be_bytes bs))"

definition read_u32 :: "(reader, io_error, u32) io" where
  "read_u32 = io_bind (read_exact 4) (\<lambda>bs. io_return (u32_from_be_bytes bs))"

definition read_u64 :: "(reader, io_error, u64) io" where
  "read_u64 = io_bind (read_exact 8) (\<lambda>bs. io_return (u64_from_be_bytes bs))"

definition write_all :: "bytes \<Rightarrow> (writer, io_error, unit) io" where
  "write_all bs w =
     (case wroom w of
        None \<Rightarrow> (Inr (), w\<lparr>wbytes := wbytes w @ bs\<rparr>)
      | Some n \<Rightarrow>
          if length bs \<le> n then (Inr (), w\<lparr>wbytes := wbytes w @ bs, wroom := Some (n - length bs)\<rparr>)
          else (Inl (IoOther ''broken pipe''), w\<lparr>wbytes := wbytes w @ take n bs, wroom := Some 0\<rparr>))"

definition write_u8 :: "byte \<Rightarrow> (writer, io_error, unit) io" where
  "write_u8 b = write_all [b]"

definition write_u16 :: "u16 \<Rightarrow> (writer, io_error, unit) io" where
  "write_u16 x = write_all (u16_to_be_bytes x)"

definition write_u32 :: "u32 \<Rightarrow> (writer, io_error, unit) io" where
  "write_u32 x = write_all (u32_to_be_bytes x)"

definition write_u64 :: "u64 \<Rightarrow> (writer, io_error, unit) io" where
  "write_u64 x = write_all (u64_to_be_bytes x)"

definition flush :: "(writer, io_error, unit) io" where
  "flush w = (case wflush w of None \<Rightarrow> (Inr (), w) | Some e \<Rightarrow> (Inl e, w))"

text \<open>A writer that accepts everything, and the reader the peer sees of some bytes.\<close>

definition open_writer :: "writer \<Rightarrow> bool" where
  "open_writer w \<longleftrightarrow> wroom w = None \<and> wflush w = None"

definition fresh_writer :: writer where
  "fresh_writer = \<lparr>wbytes = [], wroom = None, wflush = None\<rparr>"

definition reader_of :: "bytes \<Rightarrow> reader" where
  "reader_of bs = \<lparr>rbytes = bs, rend = REof\<rparr>"

lemma open_fresh_writer [simp]: "open_writer fresh_writer"
  by (simp add: open_writer_def fresh_writer_def)

lemma wbytes_fresh_writer [simp]: "wbytes fresh_writer = []"
  by (simp add: fresh_writer_def)

lemma open_writer_update [simp]: "open_writer (w\<lparr>wbytes := bs\<rparr>) = open_writer w"
  by (simp add: open_writer_def)

lemma rbytes_reader_of [simp]: "rbytes (reader_of bs) = bs"
  and reader_of_update [simp]: "(reader_of bs)\<lparr>rbytes := cs\<rparr> = reader_of cs"
  and rend_reader_of [simp]: "rend (reader_of bs) = REof"
  by (simp_all add: reader_of_def)

lemma read_exact_append [io_simps]:
  "n = length xs \<Longrightarrow> read_exact n (r\<lparr>rbytes := xs @ ys\<rparr>) = (Inr xs, r\<lparr>rbytes := ys\<rparr>)"
  by (simp add: read_exact_def)

lemma read_exact_short [io_simps]:
  "length (rbytes r) < n \<Longrightarrow> read_exact n r = (Inl (rend_error (rend r)), r\<lparr>rbytes := []\<rparr>)"
  by (simp add: read_exact_def)

lemma read_exact_InrD:
  "read_exact n r = (Inr bs, r') \<Longrightarrow>
     length bs = n \<and> rbytes r = bs @ rbytes r' \<and> r' = r\<lparr>rbytes := rbytes r'\<rparr>"
  by (auto simp: read_exact_def split: if_splits)

lemma list_of_length_1: "length bs = Suc 0 \<Longrightarrow> bs = [hd bs]"
  by (cases bs) auto

lemma read_u8_InrD:
  "read_u8 r = (Inr b, r') \<Longrightarrow> rbytes r = b # rbytes r' \<and> r' = r\<lparr>rbytes := rbytes r'\<rparr>"
  by (auto simp: read_u8_def io_bind_eq_Inr io_return_def dest!: read_exact_InrD
      dest: list_of_length_1)

lemma read_u32_InrD:
  "read_u32 r = (Inr x, r') \<Longrightarrow>
     rbytes r = u32_to_be_bytes x @ rbytes r' \<and> r' = r\<lparr>rbytes := rbytes r'\<rparr>"
  by (auto simp: read_u32_def io_bind_eq_Inr io_return_def u32_to_from_be dest!: read_exact_InrD)

lemma reader_eqI: "r' = r\<lparr>rbytes := rbytes r'\<rparr> \<Longrightarrow> rbytes r = bs \<Longrightarrow> r = r'\<lparr>rbytes := bs\<rparr>"
  by (cases r; cases r') simp

lemma read_u8_append [io_simps]:
  "read_u8 (r\<lparr>rbytes := b # ys\<rparr>) = (Inr b, r\<lparr>rbytes := ys\<rparr>)"
  by (simp add: read_u8_def io_bind_def read_exact_def io_return_def)

lemma read_u16_append [io_simps]:
  "read_u16 (r\<lparr>rbytes := u16_to_be_bytes x @ ys\<rparr>) = (Inr x, r\<lparr>rbytes := ys\<rparr>)"
  by (simp add: read_u16_def io_bind_def read_exact_append io_return_def)

lemma read_u32_append [io_simps]:
  "read_u32 (r\<lparr>rbytes := u32_to_be_bytes x @ ys\<rparr>) = (Inr x, r\<lparr>rbytes := ys\<rparr>)"
  by (simp add: read_u32_def io_bind_def read_exact_append io_return_def)

lemma read_u64_append [io_simps]:
  "read_u64 (r\<lparr>rbytes := u64_to_be_bytes x @ ys\<rparr>) = (Inr x, r\<lparr>rbytes := ys\<rparr>)"
  by (simp add: read_u64_def io_bind_def read_exact_append io_return_def)

lemma write_all_open [io_simps]:
  "open_writer w \<Longrightarrow> write_all bs w = (Inr (), w\<lparr>wbytes := wbytes w @ bs\<rparr>)"
  by (simp add: write_all_def open_writer_def)

lemma flush_open [io_simps]: "open_writer w \<Longrightarrow> flush w = (Inr (), w)"
  by (simp add: flush_def open_writer_def)

lemmas write_word_defs = write_u8_def write_u16_def write_u32_def write_u64_def

text \<open>Writing a sequence of messages to an open writer appends their images.\<close>

lemma io_iter_open:
  assumes "\<And>x w. x \<in> set xs \<Longrightarrow> open_writer w \<Longrightarrow> f x w = (Inr (), w\<lparr>wbytes := wbytes w @ enc x\<rparr>)"
  shows "open_writer w \<Longrightarrow>
    io_iter f xs w = (Inr (), w\<lparr>wbytes := wbytes w @ concat (map enc xs)\<rparr>)"
  using assms
proof (induction xs arbitrary: w)
  case Nil
  then show ?case by (simp add: io_return_def)
next
  case (Cons x xs)
  have "open_writer (w\<lparr>wbytes := wbytes w @ enc x\<rparr>)" using Cons.prems by simp
  from Cons.IH[OF this] Cons.prems show ?case
    by (simp add: io_bind_def)
qed

section \<open>Self-delimiting codecs\<close>

text \<open>What a framing promises its users: a message written with \<open>enc\<close> and followed by anything is
  read back by \<open>dec\<close>, which consumes exactly the message. Whole sequences of messages then
  survive the trip, and no two messages share an image.\<close>

locale wire_codec =
  fixes enc :: "'a \<Rightarrow> bytes"
    and dec :: "(reader, 'e, 'a) io"
    and okay :: "'a \<Rightarrow> bool"
  assumes dec_enc: "okay a \<Longrightarrow> dec (r\<lparr>rbytes := enc a @ bs\<rparr>) = (Inr a, r\<lparr>rbytes := bs\<rparr>)"
begin

lemma dec_enc_many:
  "list_all okay xs \<Longrightarrow>
     io_replicate (length xs) dec (r\<lparr>rbytes := concat (map enc xs) @ bs\<rparr>) = (Inr xs, r\<lparr>rbytes := bs\<rparr>)"
proof (induction xs)
  case Nil
  then show ?case by (simp add: io_return_def)
next
  case (Cons x xs)
  then have "dec (r\<lparr>rbytes := enc x @ (concat (map enc xs) @ bs)\<rparr>)
      = (Inr x, r\<lparr>rbytes := concat (map enc xs) @ bs\<rparr>)"
    by (intro dec_enc) simp
  with Cons show ?case by (simp add: io_bind_def io_return_def)
qed

lemma enc_prefix_free:
  assumes "okay a" and "okay b" and "enc a @ xs = enc b @ ys"
  shows "a = b \<and> xs = ys"
proof -
  have "dec ((reader_of [])\<lparr>rbytes := enc a @ xs\<rparr>) = dec ((reader_of [])\<lparr>rbytes := enc b @ ys\<rparr>)"
    by (simp add: assms(3))
  then have "(Inr a :: 'e + 'a, reader_of xs) = (Inr b, reader_of ys)"
    using dec_enc[OF assms(1), where r = "reader_of []" and bs = xs]
      dec_enc[OF assms(2), where r = "reader_of []" and bs = ys] by simp
  then show ?thesis by (simp add: reader_of_def)
qed

end

section \<open>Step systems\<close>

text \<open>A component whose state changes in steps: what holds at the start and survives each step
  holds after every run.\<close>

fun run_steps :: "('s \<Rightarrow> 'e \<Rightarrow> 's) \<Rightarrow> 's \<Rightarrow> 'e list \<Rightarrow> 's" where
  "run_steps step s [] = s"
| "run_steps step s (e # es) = run_steps step (step s e) es"

lemma run_steps_append: "run_steps step s (xs @ ys) = run_steps step (run_steps step s xs) ys"
  by (induction xs arbitrary: s) auto

locale step_system =
  fixes step :: "'s \<Rightarrow> 'e \<Rightarrow> 's"
    and inv :: "'s \<Rightarrow> bool"
  assumes step_inv: "inv s \<Longrightarrow> inv (step s e)"
begin

lemma run_inv: "inv s \<Longrightarrow> inv (run_steps step s es)"
  by (induction es arbitrary: s) (auto intro: step_inv)

end

end
