(* ===== verification/Strings.thy ===== *)
theory Strings
  imports Prelude
begin

text \<open>
  Rust strings. A \<open>String\<close> is the list of its UTF-8 bytes (a HOL \<open>string\<close>, one \<open>char\<close> per byte),
  so \<open>len\<close> is \<open>length\<close>, \<open>as_bytes\<close> is a change of type and \<open>sort\<close> is the byte-wise lexicographic
  order. The operations of \<open>str\<close> the sources call are written out here; the Unicode case table
  behind \<open>to_lowercase\<close> is a parameter (\<open>ulow\<close>) that only strings with a non-ASCII byte consult.
\<close>

section \<open>Bytes and UTF-8\<close>

definition as_bytes :: "string \<Rightarrow> bytes" where
  "as_bytes s = map of_char s"

definition str_of_bytes :: "bytes \<Rightarrow> string" where
  "str_of_bytes bs = map (\<lambda>b. char_of (unat b)) bs"

definition is_cont :: "byte \<Rightarrow> bool" where
  "is_cont b \<longleftrightarrow> 0x80 \<le> b \<and> b \<le> 0xBF"

text \<open>The first chunk of a non-empty byte string: whether it is a well-formed scalar value and
  how many bytes it has. An ill-formed chunk is the longest prefix of a scalar value, at least
  one byte; a byte past the end reads as zero, which continues nothing.\<close>

definition byte_at :: "bytes \<Rightarrow> nat \<Rightarrow> byte" where
  "byte_at bs i = (if i < length bs then bs ! i else 0)"

definition second_ok :: "byte \<Rightarrow> byte \<Rightarrow> bool" where
  "second_ok b c \<longleftrightarrow>
     (b = 0xE0 \<and> 0xA0 \<le> c \<and> c \<le> 0xBF) \<or> (0xE1 \<le> b \<and> b \<le> 0xEC \<and> is_cont c) \<or>
     (b = 0xED \<and> 0x80 \<le> c \<and> c \<le> 0x9F) \<or> (0xEE \<le> b \<and> b \<le> 0xEF \<and> is_cont c) \<or>
     (b = 0xF0 \<and> 0x90 \<le> c \<and> c \<le> 0xBF) \<or> (0xF1 \<le> b \<and> b \<le> 0xF3 \<and> is_cont c) \<or>
     (b = 0xF4 \<and> 0x80 \<le> c \<and> c \<le> 0x8F)"

definition utf8_chunk :: "bytes \<Rightarrow> bool \<times> nat" where
  "utf8_chunk bs =
     (let b = byte_at bs 0; c = byte_at bs 1 in
      if b < 0x80 then (True, 1)
      else if 0xC2 \<le> b \<and> b \<le> 0xDF then (if is_cont c then (True, 2) else (False, 1))
      else if 0xE0 \<le> b \<and> b \<le> 0xEF then
        (if \<not> second_ok b c then (False, 1)
         else if is_cont (byte_at bs 2) then (True, 3) else (False, 2))
      else if 0xF0 \<le> b \<and> b \<le> 0xF4 then
        (if \<not> second_ok b c then (False, 1)
         else if \<not> is_cont (byte_at bs 2) then (False, 2)
         else if is_cont (byte_at bs 3) then (True, 4) else (False, 3))
      else (False, 1))"

lemma utf8_chunk_pos: "0 < snd (utf8_chunk bs)"
  by (simp add: utf8_chunk_def Let_def)

lemma utf8_chunk_advances: "(v, n) = utf8_chunk bs \<Longrightarrow> 0 < n"
  using utf8_chunk_pos[of bs] by (metis snd_conv)

function from_utf8_lossy :: "bytes \<Rightarrow> bytes" where
  "from_utf8_lossy bs =
     (if bs = [] then []
      else (case utf8_chunk bs of (valid, n) \<Rightarrow>
        (if valid then take n bs else [0xEF, 0xBF, 0xBD]) @ from_utf8_lossy (drop n bs)))"
  by pat_completeness auto
termination
  by (relation "measure length") (auto dest: utf8_chunk_advances)

function utf8_valid :: "bytes \<Rightarrow> bool" where
  "utf8_valid bs =
     (if bs = [] then True
      else (case utf8_chunk bs of (valid, n) \<Rightarrow> if valid then utf8_valid (drop n bs) else False))"
  by pat_completeness auto
termination
  by (relation "measure length") (auto dest: utf8_chunk_advances)

declare from_utf8_lossy.simps [simp del] utf8_valid.simps [simp del]

lemma from_utf8_lossy_valid: "utf8_valid bs \<Longrightarrow> from_utf8_lossy bs = bs"
proof (induction bs rule: utf8_valid.induct)
  case (1 bs)
  show ?case
  proof (cases "bs = []")
    case True
    then show ?thesis by (simp add: from_utf8_lossy.simps)
  next
    case False
    obtain v n where vn: "utf8_chunk bs = (v, n)" by (cases "utf8_chunk bs")
    with "1.prems" False have "v" and rest: "utf8_valid (drop n bs)"
      by (auto simp: utf8_valid.simps[of bs] split: if_splits)
    then have "from_utf8_lossy (drop n bs) = drop n bs"
      using "1.IH" False vn by simp
    with vn False \<open>v\<close> show ?thesis by (simp add: from_utf8_lossy.simps[of bs])
  qed
qed

text \<open>ASCII text is valid UTF-8, so it survives the lossy conversion.\<close>

lemma utf8_valid_ascii: "\<forall>b \<in> set bs. b < 0x80 \<Longrightarrow> utf8_valid bs"
proof (induction bs)
  case Nil
  then show ?case by (simp add: utf8_valid.simps)
next
  case (Cons b bs)
  then have "utf8_chunk (b # bs) = (True, 1)"
    by (simp add: utf8_chunk_def byte_at_def Let_def)
  with Cons show ?case by (simp add: utf8_valid.simps[of "b # bs"])
qed

lemma as_bytes_str_of_bytes [simp]: "as_bytes (str_of_bytes bs) = bs"
proof -
  have "of_char (char_of (unat b)) = b" for b :: byte
  proof -
    have "unat b < 256" using unsigned_less[of b, where ?'a = nat] by simp
    then have eq: "of_char (char_of (unat b)) = unat b" by simp
    have "word_of_nat (of_char (char_of (unat b))) = b" by (subst eq) simp
    then show ?thesis by (simp only: of_nat_of_char)
  qed
  then show ?thesis by (simp add: as_bytes_def str_of_bytes_def map_idI)
qed

lemma length_as_bytes [simp]: "length (as_bytes s) = length s"
  by (simp add: as_bytes_def)

section \<open>Operations of \<open>str\<close>\<close>

definition starts_with :: "string \<Rightarrow> string \<Rightarrow> bool" where
  "starts_with s p \<longleftrightarrow> take (length p) s = p"

definition strip_prefix_str :: "string \<Rightarrow> string \<Rightarrow> string option" where
  "strip_prefix_str s p = (if starts_with s p then Some (drop (length p) s) else None)"

fun contains_str :: "string \<Rightarrow> string \<Rightarrow> bool" where
  "contains_str [] p = (p = [])"
| "contains_str (c # s) p = (starts_with (c # s) p \<or> contains_str s p)"

text \<open>The encodings of the characters with the White_Space property, as \<open>trim\<close> removes them.\<close>

definition white_space :: "string list" where
  "white_space =
     [[CHR 0x09], [CHR 0x0A], [CHR 0x0B], [CHR 0x0C], [CHR 0x0D], [CHR 0x20],
      [CHR 0xC2, CHR 0x85], [CHR 0xC2, CHR 0xA0], [CHR 0xE1, CHR 0x9A, CHR 0x80],
      [CHR 0xE2, CHR 0x80, CHR 0x80], [CHR 0xE2, CHR 0x80, CHR 0x81],
      [CHR 0xE2, CHR 0x80, CHR 0x82], [CHR 0xE2, CHR 0x80, CHR 0x83],
      [CHR 0xE2, CHR 0x80, CHR 0x84], [CHR 0xE2, CHR 0x80, CHR 0x85],
      [CHR 0xE2, CHR 0x80, CHR 0x86], [CHR 0xE2, CHR 0x80, CHR 0x87],
      [CHR 0xE2, CHR 0x80, CHR 0x88], [CHR 0xE2, CHR 0x80, CHR 0x89],
      [CHR 0xE2, CHR 0x80, CHR 0x8A], [CHR 0xE2, CHR 0x80, CHR 0xA8],
      [CHR 0xE2, CHR 0x80, CHR 0xA9], [CHR 0xE2, CHR 0x80, CHR 0xAF],
      [CHR 0xE2, CHR 0x81, CHR 0x9F], [CHR 0xE3, CHR 0x80, CHR 0x80]]"

function strip_pats :: "string list \<Rightarrow> string \<Rightarrow> string" where
  "strip_pats ps s =
     (case find (\<lambda>p. p \<noteq> [] \<and> starts_with s p) ps of
        None \<Rightarrow> s
      | Some p \<Rightarrow> strip_pats ps (drop (length p) s))"
  by pat_completeness auto
termination
proof (relation "measure (length \<circ> snd)")
  fix ps s p
  assume "find (\<lambda>p. p \<noteq> [] \<and> starts_with s p) ps = Some p"
  then have p: "p \<noteq> []" "starts_with s p" by (auto simp: find_Some_iff)
  then have "s \<noteq> []" by (auto simp: starts_with_def)
  with p show "((ps, drop (length p) s), (ps, s)) \<in> measure (length \<circ> snd)" by simp
qed simp

declare strip_pats.simps [simp del]

definition trim_start :: "string \<Rightarrow> string" where
  "trim_start s = strip_pats white_space s"

definition trim_end :: "string \<Rightarrow> string" where
  "trim_end s = rev (strip_pats (map rev white_space) (rev s))"

definition trim :: "string \<Rightarrow> string" where
  "trim s = trim_end (trim_start s)"

definition trim_end_matches :: "char \<Rightarrow> string \<Rightarrow> string" where
  "trim_end_matches c s = rev (dropWhile (\<lambda>d. d = c) (rev s))"

definition trim_start_matches :: "string \<Rightarrow> string \<Rightarrow> string" where
  "trim_start_matches p s = strip_pats [p] s"

definition is_ascii :: "char \<Rightarrow> bool" where
  "is_ascii c \<longleftrightarrow> of_char c < (128::nat)"

definition ascii_lower :: "char \<Rightarrow> char" where
  "ascii_lower c =
     (let n = of_char c :: nat in if 65 \<le> n \<and> n \<le> 90 then char_of (n + 32) else c)"

definition to_ascii_lowercase :: "string \<Rightarrow> string" where
  "to_ascii_lowercase s = map ascii_lower s"

definition eq_ignore_ascii_case :: "string \<Rightarrow> string \<Rightarrow> bool" where
  "eq_ignore_ascii_case s t \<longleftrightarrow> to_ascii_lowercase s = to_ascii_lowercase t"

definition to_lowercase :: "(string \<Rightarrow> string) \<Rightarrow> string \<Rightarrow> string" where
  "to_lowercase ulow s = (if list_all is_ascii s then to_ascii_lowercase s else ulow s)"

fun split_on :: "char \<Rightarrow> string \<Rightarrow> string list" where
  "split_on c [] = [[]]"
| "split_on c (d # s) =
     (if d = c then [] # split_on c s
      else (case split_on c s of [] \<Rightarrow> [[d]] | w # ws \<Rightarrow> (d # w) # ws))"

definition split_once :: "char \<Rightarrow> string \<Rightarrow> (string \<times> string) option" where
  "split_once c s =
     (if c \<in> set s then Some (takeWhile (\<lambda>d. d \<noteq> c) s, tl (dropWhile (\<lambda>d. d \<noteq> c) s)) else None)"

definition replace_char :: "char \<Rightarrow> string \<Rightarrow> string \<Rightarrow> string" where
  "replace_char c r s = concat (map (\<lambda>d. if d = c then r else [d]) s)"

fun join :: "string \<Rightarrow> string list \<Rightarrow> string" where
  "join sep [] = []"
| "join sep [s] = s"
| "join sep (s # t # ts) = s @ sep @ join sep (t # ts)"

fun find_map :: "('a \<Rightarrow> 'b option) \<Rightarrow> 'a list \<Rightarrow> 'b option" where
  "find_map f [] = None"
| "find_map f (x # xs) = (case f x of None \<Rightarrow> find_map f xs | Some y \<Rightarrow> Some y)"

section \<open>Numbers in strings\<close>

definition is_digit :: "char \<Rightarrow> bool" where
  "is_digit c \<longleftrightarrow> 48 \<le> (of_char c :: nat) \<and> (of_char c :: nat) \<le> 57"

definition digit_val :: "char \<Rightarrow> nat" where
  "digit_val c = of_char c - 48"

text \<open>\<open>str::parse\<close> at an unsigned type with \<open>bound\<close> values: an optional plus sign, then at least
  one digit and nothing else, and no overflow.\<close>

definition parse_uint :: "nat \<Rightarrow> string \<Rightarrow> nat option" where
  "parse_uint bound s =
     (let ds = (case s of [] \<Rightarrow> [] | c # cs \<Rightarrow> if c = CHR ''+'' then cs else s) in
      if ds = [] \<or> \<not> list_all is_digit ds then None
      else let n = foldl (\<lambda>a c. a * 10 + digit_val c) 0 ds in
           if n < bound then Some n else None)"

fun show_nat :: "nat \<Rightarrow> string" where
  "show_nat n = (if n < 10 then [char_of (48 + n)] else show_nat (n div 10) @ [char_of (48 + n mod 10)])"

declare show_nat.simps [simp del]

definition hex_digit :: "nat \<Rightarrow> char" where
  "hex_digit n = ''0123456789abcdef'' ! (n mod 16)"

text \<open>The format \<open>{:02x}\<close> of a byte.\<close>

definition fmt_02x :: "byte \<Rightarrow> string" where
  "fmt_02x b = [hex_digit (unat b div 16), hex_digit (unat b mod 16)]"

section \<open>Laws of trimming and lower case\<close>

lemma strip_pats_None:
  "find (\<lambda>p. p \<noteq> [] \<and> starts_with s p) ps = None \<Longrightarrow> strip_pats ps s = s"
  by (subst strip_pats.simps) simp

lemma strip_pats_Some:
  "find (\<lambda>p. p \<noteq> [] \<and> starts_with s p) ps = Some q \<Longrightarrow>
     strip_pats ps s = strip_pats ps (drop (length q) s)"
  by (subst strip_pats.simps) simp

lemma strip_pats_none: "\<forall>p \<in> set ps. p = [] \<or> \<not> starts_with s p \<Longrightarrow> strip_pats ps s = s"
  by (subst strip_pats.simps) (auto split: option.splits simp: find_Some_iff)

lemma strip_pats_stripped: "p \<in> set ps \<Longrightarrow> p \<noteq> [] \<Longrightarrow> \<not> starts_with (strip_pats ps s) p"
proof (induction ps s rule: strip_pats.induct)
  case (1 ps s)
  show ?case
  proof (cases "find (\<lambda>p. p \<noteq> [] \<and> starts_with s p) ps")
    case None
    then have "\<not> (\<exists>x. x \<in> set ps \<and> x \<noteq> [] \<and> starts_with s x)" by (simp only: find_None_iff not_False_eq_True)
    with "1.prems" strip_pats_None[OF None] show ?thesis by auto
  next
    case (Some q)
    from "1.IH"[OF Some "1.prems"] strip_pats_Some[OF Some] show ?thesis by simp
  qed
qed

lemma strip_pats_suffix: "\<exists>pre. s = pre @ strip_pats ps s"
proof (induction ps s rule: strip_pats.induct)
  case (1 ps s)
  show ?case
  proof (cases "find (\<lambda>p. p \<noteq> [] \<and> starts_with s p) ps")
    case None
    from strip_pats_None[OF this] show ?thesis by auto
  next
    case (Some q)
    with 1 obtain pre where "drop (length q) s = pre @ strip_pats ps (drop (length q) s)" by auto
    then have "s = (take (length q) s @ pre) @ strip_pats ps (drop (length q) s)"
      by (metis append.assoc append_take_drop_id)
    then show ?thesis unfolding strip_pats_Some[OF Some] by (rule exI)
  qed
qed

lemma strip_pats_map:
  assumes "\<And>p t. p \<in> set ps \<Longrightarrow> starts_with (map f t) p = starts_with t p"
  shows "strip_pats ps (map f s) = map f (strip_pats ps s)"
  using assms
proof (induction ps s rule: strip_pats.induct)
  case (1 ps s)
  have find: "find (\<lambda>p. p \<noteq> [] \<and> starts_with (map f s) p) ps = find (\<lambda>p. p \<noteq> [] \<and> starts_with s p) ps"
    using "1.prems" by (intro find_cong) auto
  show ?case
  proof (cases "find (\<lambda>p. p \<noteq> [] \<and> starts_with s p) ps")
    case None
    from strip_pats_None[OF this] strip_pats_None[OF find[unfolded None]] show ?thesis by simp
  next
    case (Some q)
    from strip_pats_Some[OF this] strip_pats_Some[OF find[unfolded Some]] "1.IH"[OF Some "1.prems"]
    show ?thesis by (simp add: drop_map)
  qed
qed

definition is_letter :: "char \<Rightarrow> bool" where
  "is_letter c \<longleftrightarrow> (let n = of_char c :: nat in (65 \<le> n \<and> n \<le> 90) \<or> (97 \<le> n \<and> n \<le> 122))"

lemma ascii_lower_eq_non_letter: "\<not> is_letter c \<Longrightarrow> ascii_lower d = c \<longleftrightarrow> d = c"
  by (auto simp: ascii_lower_def is_letter_def Let_def)

lemma map_ascii_lower_eq: "list_all (\<lambda>c. \<not> is_letter c) p \<Longrightarrow> map ascii_lower t = p \<longleftrightarrow> t = p"
  by (induction p arbitrary: t) (auto simp: ascii_lower_eq_non_letter map_eq_Cons_conv)

lemma starts_with_ascii_lower:
  "list_all (\<lambda>c. \<not> is_letter c) p \<Longrightarrow> starts_with (map ascii_lower t) p = starts_with t p"
  unfolding starts_with_def take_map by (rule map_ascii_lower_eq)

lemma white_space_no_letter: "list_all (list_all (\<lambda>c. \<not> is_letter c)) white_space"
  by code_simp

lemma trim_start_lower: "trim_start (to_ascii_lowercase s) = to_ascii_lowercase (trim_start s)"
  unfolding trim_start_def to_ascii_lowercase_def
  using white_space_no_letter by (intro strip_pats_map starts_with_ascii_lower) (auto simp: list_all_iff)

lemma trim_end_lower: "trim_end (to_ascii_lowercase s) = to_ascii_lowercase (trim_end s)"
proof -
  have "strip_pats (map rev white_space) (map ascii_lower (rev s)) =
      map ascii_lower (strip_pats (map rev white_space) (rev s))"
    using white_space_no_letter by (intro strip_pats_map starts_with_ascii_lower) (auto simp: list_all_iff)
  then show ?thesis by (simp add: trim_end_def to_ascii_lowercase_def rev_map)
qed

lemma trim_lower: "trim (to_ascii_lowercase s) = to_ascii_lowercase (trim s)"
  by (simp add: trim_def trim_start_lower trim_end_lower)

lemma trim_end_idem: "trim_end (trim_end s) = trim_end s"
  unfolding trim_end_def
  by (simp, rule strip_pats_none)
    (use strip_pats_stripped[of _ "map rev white_space" "rev s"] in blast)

lemma trim_end_prefix: "\<exists>post. s = trim_end s @ post"
proof -
  obtain pre where "rev s = pre @ strip_pats (map rev white_space) (rev s)"
    using strip_pats_suffix by blast
  then have "s = rev (strip_pats (map rev white_space) (rev s)) @ rev pre"
    by (metis rev_append rev_rev_ident)
  then show ?thesis by (auto simp: trim_end_def)
qed

lemma trim_idem: "trim (trim s) = trim s"
proof -
  obtain post where post: "trim_start s = trim s @ post"
    using trim_end_prefix[of "trim_start s"] by (auto simp: trim_def)
  have "\<not> starts_with (trim s) p" if "p \<in> set white_space" "p \<noteq> []" for p
  proof
    assume "starts_with (trim s) p"
    then have "starts_with (trim s @ post) p"
      by (metis append_take_drop_id append.assoc append_eq_conv_conj starts_with_def)
    with that strip_pats_stripped[of p white_space s] post show False by (simp add: trim_start_def)
  qed
  then have "trim_start (trim s) = trim s" unfolding trim_start_def by (intro strip_pats_none) auto
  then show ?thesis by (simp add: trim_def trim_end_idem)
qed

lemma ascii_lower_idem [simp]: "ascii_lower (ascii_lower c) = ascii_lower c"
  by (auto simp: ascii_lower_def Let_def)

lemma to_ascii_lowercase_idem [simp]: "to_ascii_lowercase (to_ascii_lowercase s) = to_ascii_lowercase s"
  by (simp add: to_ascii_lowercase_def)

lemma is_ascii_ascii_lower [simp]: "is_ascii (ascii_lower c) = is_ascii c"
  by (auto simp: is_ascii_def ascii_lower_def Let_def)

lemma list_all_ascii_lower [simp]: "list_all is_ascii (to_ascii_lowercase s) = list_all is_ascii s"
  by (simp add: to_ascii_lowercase_def list_all_iff)

lemma set_trim: "set (trim s) \<subseteq> set s"
proof -
  obtain pre where "s = pre @ trim_start s" using strip_pats_suffix by (auto simp: trim_start_def)
  then have "set (trim_start s) \<subseteq> set s" by (metis Un_iff set_append subsetI)
  moreover obtain post where "trim_start s = trim s @ post"
    using trim_end_prefix[of "trim_start s"] by (auto simp: trim_def)
  then have "set (trim s) \<subseteq> set (trim_start s)" by simp
  ultimately show ?thesis by blast
qed

lemma list_all_ascii_trim: "list_all is_ascii s \<Longrightarrow> list_all is_ascii (trim s)"
  using set_trim[of s] by (auto simp: list_all_iff)

text \<open>Trimming and lower-casing an ASCII key a second time changes nothing.\<close>

lemma to_lowercase_ascii: "list_all is_ascii s \<Longrightarrow> to_lowercase ulow s = to_ascii_lowercase s"
  by (simp add: to_lowercase_def)

lemma lower_trim_idem:
  "list_all is_ascii k \<Longrightarrow>
     to_lowercase ulow (trim (to_lowercase ulow (trim k))) = to_lowercase ulow (trim k)"
  by (simp add: to_lowercase_ascii list_all_ascii_trim trim_lower trim_idem)

text \<open>Text that begins and ends with a visible ASCII character is not changed by trimming.\<close>

definition visible :: "char \<Rightarrow> bool" where
  "visible c \<longleftrightarrow> 33 \<le> (of_char c :: nat) \<and> (of_char c :: nat) \<le> 126"

lemma starts_with_hd: "starts_with s p \<Longrightarrow> p \<noteq> [] \<Longrightarrow> s \<noteq> [] \<and> hd s = hd p"
  by (cases p; cases s) (auto simp: starts_with_def)

lemma white_space_ends: "list_all (\<lambda>p. p \<noteq> [] \<and> \<not> visible (hd p) \<and> \<not> visible (last p)) white_space"
  by code_simp

lemma trim_start_visible: "visible (hd s) \<Longrightarrow> trim_start s = s"
  unfolding trim_start_def
  using white_space_ends by (intro strip_pats_none) (auto simp: list_all_iff dest: starts_with_hd)

lemma trim_end_visible: "visible (last s) \<Longrightarrow> trim_end s = s"
proof -
  assume v: "visible (last s)"
  have "strip_pats (map rev white_space) (rev s) = rev s"
    using white_space_ends v
    by (intro strip_pats_none) (auto simp: list_all_iff hd_rev dest: starts_with_hd)
  then show ?thesis by (simp add: trim_end_def)
qed

lemma trim_visible: "visible (hd s) \<Longrightarrow> visible (last s) \<Longrightarrow> trim s = s"
  by (simp add: trim_def trim_start_visible trim_end_visible)

lemma trim_Nil [simp]: "trim [] = []"
  by code_simp

end
