(* ===== verification/Protocol.thy ===== *)
theory Protocol
  imports Strings
begin

text \<open>
  The wire protocol of \<open>rust/crates/roboat-core/src/protocol.rs\<close>: the error type, the legacy
  topic packet with its writer and reader, the frame types with their bytes, and the frame
  writer and reader. The reader's length limits and every error branch are kept; the length
  fields wrap at their width as the \<open>as u16\<close> and \<open>as u32\<close> casts do.
\<close>

section \<open>Errors\<close>

datatype protocol_error = ProtoIo string | InvalidPacket string | ConnectionClosed

definition io_error_text :: "io_error \<Rightarrow> string" where
  "io_error_text e =
     (case e of UnexpectedEof \<Rightarrow> ''unexpected end of file'' | TimedOut m \<Rightarrow> m | IoOther m \<Rightarrow> m)"

definition protocol_error_from :: "io_error \<Rightarrow> protocol_error" where
  "protocol_error_from e =
     (if e = UnexpectedEof then ConnectionClosed else ProtoIo (io_error_text e))"

text \<open>The conversion that \<open>?\<close> applies to an I/O result.\<close>

abbreviation proto_io :: "('s, io_error, 'a) io \<Rightarrow> ('s, protocol_error, 'a) io" where
  "proto_io m \<equiv> io_map_err protocol_error_from m"

section \<open>Topic packets\<close>

record tunnel_packet =
  topic :: string
  msg_type :: string
  timestamp_ns :: u64
  payload :: bytes

definition tunnel_packet_write_to :: "tunnel_packet \<Rightarrow> (writer, protocol_error, unit) io" where
  "tunnel_packet_write_to p =
     (let topic_bytes = as_bytes (topic p); type_bytes = as_bytes (msg_type p) in
      io_bind (proto_io (write_u16 (word_of_nat (length topic_bytes)))) (\<lambda>_.
      io_bind (proto_io (write_all topic_bytes)) (\<lambda>_.
      io_bind (proto_io (write_u16 (word_of_nat (length type_bytes)))) (\<lambda>_.
      io_bind (proto_io (write_all type_bytes)) (\<lambda>_.
      io_bind (proto_io (write_u64 (timestamp_ns p))) (\<lambda>_.
      io_bind (proto_io (write_u32 (word_of_nat (length (payload p))))) (\<lambda>_.
      io_bind (proto_io (write_all (payload p))) (\<lambda>_.
      io_bind (proto_io flush) (\<lambda>_. io_return ())))))))))"

definition tunnel_packet_read_from :: "(reader, protocol_error, tunnel_packet) io" where
  "tunnel_packet_read_from =
     io_bind (proto_io read_u16) (\<lambda>topic_len.
     if 4096 < unat topic_len then io_fail (InvalidPacket ''topic too long'') else
     io_bind (proto_io (read_exact (unat topic_len))) (\<lambda>topic_buf.
     io_bind (proto_io read_u16) (\<lambda>type_len.
     if 4096 < unat type_len then io_fail (InvalidPacket ''type too long'') else
     io_bind (proto_io (read_exact (unat type_len))) (\<lambda>type_buf.
     io_bind (proto_io read_u64) (\<lambda>ts.
     io_bind (proto_io read_u32) (\<lambda>payload_len.
     if 64 * 1024 * 1024 < unat payload_len then io_fail (InvalidPacket ''payload too large'') else
     io_bind (proto_io (read_exact (unat payload_len))) (\<lambda>pl.
     io_return \<lparr>topic = str_of_bytes (from_utf8_lossy topic_buf),
                msg_type = str_of_bytes (from_utf8_lossy type_buf),
                timestamp_ns = ts, payload = pl\<rparr>)))))))"

section \<open>JSON messages\<close>

text \<open>The structs that travel as JSON. Their encodings are derived by serde, which is not part of
  the repository, so the type of a JSON value stays a parameter and the functions that encode
  or decode take the codec as an argument.\<close>

datatype command_status = StatusOk | StatusError | StatusTimeout

record 'j command_request =
  req_id :: string
  req_skill :: string
  req_action :: string
  req_params :: 'j

record 'j command_response =
  resp_id :: string
  resp_status :: command_status
  resp_data :: "'j option"
  resp_error :: "string option"

record web_rtc_bootstrap_payload =
  wb_bootstrap_id :: string
  wb_cli_public_ip :: "string option"
  wb_cli_lan_cidr :: "string option"
  wb_route_type :: "string option"

record web_rtc_teardown_payload =
  wt_bootstrap_id :: "string option"

section \<open>Frames\<close>

datatype frame_type =
    FtTunnelPacket | FtCommandRequest | FtCommandResponse | FtPing | FtPong
  | FtWebRtcBootstrap | FtWebRtcTeardown
  | FtRelayOpen | FtRelayOpenAck | FtRelayData | FtRelayClose
  | FtStreamOpen | FtStreamData | FtStreamClose | FtFlowControl

fun frame_type_byte :: "frame_type \<Rightarrow> byte" where
  "frame_type_byte FtTunnelPacket = 0x01"
| "frame_type_byte FtCommandRequest = 0x02"
| "frame_type_byte FtCommandResponse = 0x03"
| "frame_type_byte FtPing = 0x10"
| "frame_type_byte FtPong = 0x11"
| "frame_type_byte FtWebRtcBootstrap = 0x20"
| "frame_type_byte FtWebRtcTeardown = 0x21"
| "frame_type_byte FtRelayOpen = 0x30"
| "frame_type_byte FtRelayOpenAck = 0x31"
| "frame_type_byte FtRelayData = 0x32"
| "frame_type_byte FtRelayClose = 0x33"
| "frame_type_byte FtStreamOpen = 0x40"
| "frame_type_byte FtStreamData = 0x41"
| "frame_type_byte FtStreamClose = 0x42"
| "frame_type_byte FtFlowControl = 0x43"

definition frame_type_try_from :: "byte \<Rightarrow> protocol_error + frame_type" where
  "frame_type_try_from v =
     (if v = 0x01 then Inr FtTunnelPacket
      else if v = 0x02 then Inr FtCommandRequest
      else if v = 0x03 then Inr FtCommandResponse
      else if v = 0x10 then Inr FtPing
      else if v = 0x11 then Inr FtPong
      else if v = 0x20 then Inr FtWebRtcBootstrap
      else if v = 0x21 then Inr FtWebRtcTeardown
      else if v = 0x30 then Inr FtRelayOpen
      else if v = 0x31 then Inr FtRelayOpenAck
      else if v = 0x32 then Inr FtRelayData
      else if v = 0x33 then Inr FtRelayClose
      else if v = 0x40 then Inr FtStreamOpen
      else if v = 0x41 then Inr FtStreamData
      else if v = 0x42 then Inr FtStreamClose
      else if v = 0x43 then Inr FtFlowControl
      else Inl (InvalidPacket (''unknown frame type: 0x'' @ fmt_02x v)))"

type_synonym frame = "frame_type \<times> bytes"

definition write_frame :: "frame_type \<Rightarrow> bytes \<Rightarrow> (writer, protocol_error, unit) io" where
  "write_frame ft data =
     io_bind (proto_io (write_u8 (frame_type_byte ft))) (\<lambda>_.
     io_bind (proto_io (write_u32 (word_of_nat (length data)))) (\<lambda>_.
     io_bind (proto_io (write_all data)) (\<lambda>_.
     io_bind (proto_io flush) (\<lambda>_. io_return ()))))"

definition read_frame :: "(reader, protocol_error, frame) io" where
  "read_frame =
     io_bind (proto_io read_u8) (\<lambda>type_byte.
     case frame_type_try_from type_byte of
       Inl e \<Rightarrow> io_fail e
     | Inr ft \<Rightarrow>
         io_bind (proto_io read_u32) (\<lambda>len.
         if 64 * 1024 * 1024 < unat len then io_fail (InvalidPacket ''frame too large'') else
         io_bind (proto_io (read_exact (unat len))) (\<lambda>data. io_return (ft, data))))"

section \<open>Images of frames and packets\<close>

definition max_frame :: nat where
  "max_frame = 64 * 1024 * 1024"

definition frame_bytes :: "frame \<Rightarrow> bytes" where
  "frame_bytes f =
     frame_type_byte (fst f) # u32_to_be_bytes (word_of_nat (length (snd f))) @ snd f"

definition frame_okay :: "frame \<Rightarrow> bool" where
  "frame_okay f \<longleftrightarrow> length (snd f) \<le> max_frame"

lemma try_from_byte [simp]: "frame_type_try_from (frame_type_byte ft) = Inr ft"
  by (cases ft) (simp_all add: frame_type_try_from_def)

lemma try_from_InrD: "frame_type_try_from v = Inr ft \<Longrightarrow> v = frame_type_byte ft"
  by (auto simp: frame_type_try_from_def split: if_splits)

lemma frame_type_byte_inj: "frame_type_byte a = frame_type_byte b \<Longrightarrow> a = b"
  by (metis Inr_inject try_from_byte)

lemma write_frame_open:
  "open_writer w \<Longrightarrow>
     write_frame ft data w = (Inr (), w\<lparr>wbytes := wbytes w @ frame_bytes (ft, data)\<rparr>)"
  by (simp add: write_frame_def io_bind_def io_map_err_def io_return_def write_word_defs
      write_all_open flush_open frame_bytes_def)

lemma read_frame_frame_bytes:
  assumes "frame_okay f"
  shows "read_frame (r\<lparr>rbytes := frame_bytes f @ bs\<rparr>) = (Inr f, r\<lparr>rbytes := bs\<rparr>)"
proof -
  have len: "unat (word_of_nat (length (snd f)) :: u32) = length (snd f)"
    using assms by (intro unat_u32_of_nat) (simp add: frame_okay_def max_frame_def)
  show ?thesis
    using assms
    by (simp add: read_frame_def frame_bytes_def io_bind_def io_map_err_def io_return_def
        read_u8_append read_u32_append read_exact_append len frame_okay_def max_frame_def)
qed

interpretation fr: wire_codec frame_bytes read_frame frame_okay
  by unfold_locales (rule read_frame_frame_bytes)

lemma read_frame_eof: "read_frame (reader_of []) = (Inl ConnectionClosed, reader_of [])"
  by (simp add: read_frame_def read_u8_def io_bind_def io_map_err_def read_exact_def rend_error_def
      protocol_error_from_def)

lemma read_frame_InrD:
  assumes "read_frame r = (Inr f, r')"
  shows "frame_okay f \<and> rbytes r = frame_bytes f @ rbytes r' \<and> r' = r\<lparr>rbytes := rbytes r'\<rparr>"
proof -
  obtain b r1 where b: "read_u8 r = (Inr b, r1)" and
    1: "(case frame_type_try_from b of
           Inl e \<Rightarrow> io_fail e
         | Inr ft \<Rightarrow>
             io_bind (proto_io read_u32) (\<lambda>len.
             if 64 * 1024 * 1024 < unat len then io_fail (InvalidPacket ''frame too large'') else
             io_bind (proto_io (read_exact (unat len))) (\<lambda>data. io_return (ft, data)))) r1 = (Inr f, r')"
    using assms unfolding read_frame_def io_bind_eq_Inr io_map_err_eq_Inr by blast
  obtain ft where ft: "frame_type_try_from b = Inr ft"
    using 1 by (auto simp: io_fail_def split: sum.splits)
  obtain len r2 where l: "read_u32 r1 = (Inr len, r2)" and small: "\<not> 64 * 1024 * 1024 < unat len"
    and d: "read_exact (unat len) r2 = (Inr (snd f), r')" and "ft = fst f"
    using 1 by (auto simp: ft io_bind_eq_Inr io_map_err_eq_Inr io_return_def io_fail_def split: if_splits)
  note parts = read_u8_InrD[OF b] read_u32_InrD[OF l] read_exact_InrD[OF d]
  have "rbytes r = frame_bytes f @ rbytes r'"
    using parts try_from_InrD[OF ft] \<open>ft = fst f\<close> by (auto simp: frame_bytes_def)
  moreover have "r' = r\<lparr>rbytes := rbytes r'\<rparr>" using parts by (cases r; cases r1; cases r2; cases r') auto
  moreover have "frame_okay f" using parts small by (auto simp: frame_okay_def max_frame_def)
  ultimately show ?thesis by simp
qed

text \<open>C9: Reading a frame succeeds exactly when the input starts with the image of a frame of at
  most 64 MiB; it returns that frame and leaves exactly the bytes after it. Everything else (an
  unknown type byte, an oversized length, a truncated frame) is an error.\<close>

theorem read_frame_iff:
  "read_frame r = (Inr f, r') \<longleftrightarrow>
     frame_okay f \<and> rbytes r = frame_bytes f @ rbytes r' \<and> r' = r\<lparr>rbytes := rbytes r'\<rparr>"
proof
  assume "read_frame r = (Inr f, r')"
  then show "frame_okay f \<and> rbytes r = frame_bytes f @ rbytes r' \<and> r' = r\<lparr>rbytes := rbytes r'\<rparr>"
    by (rule read_frame_InrD)
next
  assume a: "frame_okay f \<and> rbytes r = frame_bytes f @ rbytes r' \<and> r' = r\<lparr>rbytes := rbytes r'\<rparr>"
  then have "r = r\<lparr>rbytes := frame_bytes f @ rbytes r'\<rparr>" by (cases r; cases r') auto
  with a read_frame_frame_bytes[where f = f and r = r and bs = "rbytes r'"] show "read_frame r = (Inr f, r')" by simp
qed

text \<open>C8: A sequence of frames written to a connection is read back frame by frame, in order, and
  what follows it on the wire is untouched.\<close>

theorem frame_stream_roundtrip:
  assumes "list_all frame_okay fs"
    and "io_iter (\<lambda>f. write_frame (fst f) (snd f)) fs fresh_writer = (res, w)"
  shows "res = Inr () \<and>
    io_replicate (length fs) read_frame (reader_of (wbytes w @ rest)) = (Inr fs, reader_of rest)"
proof -
  have "io_iter (\<lambda>f. write_frame (fst f) (snd f)) fs fresh_writer
      = (Inr (), fresh_writer\<lparr>wbytes := wbytes fresh_writer @ concat (map frame_bytes fs)\<rparr>)"
    by (rule io_iter_open) (simp_all add: write_frame_open)
  with assms(2) have "res = Inr ()" and "wbytes w = concat (map frame_bytes fs)" by auto
  with fr.dec_enc_many[OF assms(1), where r = "reader_of []" and bs = rest] show ?thesis by simp
qed

theorem frame_stream_roundtrip_witness:
  "io_replicate 2 read_frame
     (reader_of (wbytes (snd (io_iter (\<lambda>f. write_frame (fst f) (snd f))
        [(FtPing, []), (FtRelayData, [1, 2, 3])] fresh_writer)) @ [9])) =
   (Inr [(FtPing, []), (FtRelayData, [1, 2, 3])], reader_of [9])"
proof -
  have "list_all frame_okay [(FtPing, []), (FtRelayData, [1, 2, 3])]"
    by (simp add: frame_okay_def max_frame_def)
  from frame_stream_roundtrip[OF this surjective_pairing, of "[9]"] show ?thesis
    by (simp add: numeral_2_eq_2)
qed

text \<open>The frame writer has no size check of its own: a payload over the limit is written in full
  and refused by the reader as too large.\<close>

lemma oversized_frame_refused:
  assumes "max_frame < length data" and "length data < 2 ^ 32"
    and "write_frame ft data fresh_writer = (res, w)"
  shows "res = Inr () \<and>
    fst (read_frame (reader_of (wbytes w))) = Inl (InvalidPacket ''frame too large'')"
proof -
  have w: "res = Inr ()" "wbytes w = frame_bytes (ft, data)"
    using assms(3) write_frame_open[OF open_fresh_writer, of ft data] by auto
  have len: "unat (word_of_nat (length data) :: u32) = length data"
    using assms(2) by (rule unat_u32_of_nat)
  have "read_frame ((reader_of [])\<lparr>rbytes := frame_bytes (ft, data) @ []\<rparr>)
      = (Inl (InvalidPacket ''frame too large''), (reader_of [])\<lparr>rbytes := data\<rparr>)"
    using assms(1) len
    by (simp add: read_frame_def frame_bytes_def io_bind_def io_map_err_def io_fail_def
        read_u8_append read_u32_append max_frame_def del: reader_of_update)
  with w show ?thesis by simp
qed

lemma oversized_frame_refused_example:
  "fst (read_frame (reader_of (wbytes (snd (write_frame FtRelayData
     (replicate (Suc max_frame) 0) fresh_writer))))) = Inl (InvalidPacket ''frame too large'')"
proof -
  have "max_frame < length (replicate (Suc max_frame) (0 :: byte))"
    and "length (replicate (Suc max_frame) (0 :: byte)) < 2 ^ 32"
    by (simp_all only: length_replicate) (simp_all add: max_frame_def)
  from oversized_frame_refused[OF this surjective_pairing] show ?thesis by blast
qed

section \<open>Topic packets survive the trip\<close>

definition packet_bytes :: "tunnel_packet \<Rightarrow> bytes" where
  "packet_bytes p =
     u16_to_be_bytes (word_of_nat (length (topic p))) @ as_bytes (topic p) @
     u16_to_be_bytes (word_of_nat (length (msg_type p))) @ as_bytes (msg_type p) @
     u64_to_be_bytes (timestamp_ns p) @ u32_to_be_bytes (word_of_nat (length (payload p))) @ payload p"

definition packet_okay :: "tunnel_packet \<Rightarrow> bool" where
  "packet_okay p \<longleftrightarrow>
     length (topic p) \<le> 4096 \<and> length (msg_type p) \<le> 4096 \<and> length (payload p) \<le> 64 * 1024 * 1024 \<and>
     utf8_valid (as_bytes (topic p)) \<and> utf8_valid (as_bytes (msg_type p))"

lemma write_packet_open:
  "open_writer w \<Longrightarrow>
     tunnel_packet_write_to p w = (Inr (), w\<lparr>wbytes := wbytes w @ packet_bytes p\<rparr>)"
  by (simp add: tunnel_packet_write_to_def io_bind_def io_map_err_def io_return_def write_word_defs
      write_all_open flush_open packet_bytes_def Let_def)

lemma str_of_bytes_as_bytes [simp]: "str_of_bytes (as_bytes s) = s"
proof -
  have "char_of (unat (of_char c :: byte)) = c" for c
  proof -
    have "(of_char c :: byte) = word_of_nat (of_char c)" by (simp only: of_nat_of_char)
    then have "unat (of_char c :: byte) = of_char c mod 256"
      by (simp only: unat_of_nat) simp
    then show ?thesis by simp
  qed
  then show ?thesis by (simp add: str_of_bytes_def as_bytes_def map_idI)
qed

lemma read_packet_bytes:
  assumes "packet_okay p"
  shows "tunnel_packet_read_from (r\<lparr>rbytes := packet_bytes p @ bs\<rparr>) = (Inr p, r\<lparr>rbytes := bs\<rparr>)"
proof -
  have lens: "unat (word_of_nat (length (topic p)) :: u16) = length (topic p)"
    "unat (word_of_nat (length (msg_type p)) :: u16) = length (msg_type p)"
    "unat (word_of_nat (length (payload p)) :: u32) = length (payload p)"
    using assms by (simp_all add: packet_okay_def unat_u16_of_nat unat_u32_of_nat)
  show ?thesis
    using assms
    by (simp add: tunnel_packet_read_from_def packet_bytes_def io_bind_def io_map_err_def io_return_def
        read_u16_append read_u32_append read_u64_append read_exact_append lens packet_okay_def
        from_utf8_lossy_valid)
qed

interpretation pk: wire_codec packet_bytes tunnel_packet_read_from packet_okay
  by unfold_locales (rule read_packet_bytes)

text \<open>Topic packets with topic and type of at most 4096 bytes and a payload of at most 64 MiB
  written one after another are read back unchanged and in order.\<close>

lemma tunnel_packet_roundtrip:
  assumes "list_all packet_okay ps"
    and "io_iter tunnel_packet_write_to ps fresh_writer = (res, w)"
  shows "res = Inr () \<and>
    io_replicate (length ps) tunnel_packet_read_from (reader_of (wbytes w @ rest)) = (Inr ps, reader_of rest)"
proof -
  have "io_iter tunnel_packet_write_to ps fresh_writer
      = (Inr (), fresh_writer\<lparr>wbytes := wbytes fresh_writer @ concat (map packet_bytes ps)\<rparr>)"
    by (rule io_iter_open) (simp_all add: write_packet_open)
  with assms(2) have "res = Inr ()" and "wbytes w = concat (map packet_bytes ps)" by auto
  with pk.dec_enc_many[OF assms(1), where r = "reader_of []" and bs = rest] show ?thesis by simp
qed

definition lidar_packet :: tunnel_packet where
  "lidar_packet = \<lparr>topic = ''/lidar'', msg_type = ''Cloud'', timestamp_ns = 1234567890, payload = [1, 2, 3]\<rparr>"

lemma lidar_packet_okay: "packet_okay lidar_packet"
  by (auto simp: packet_okay_def lidar_packet_def as_bytes_def intro!: utf8_valid_ascii)

lemma tunnel_packet_roundtrip_example:
  "io_replicate 1 tunnel_packet_read_from
     (reader_of (wbytes (snd (io_iter tunnel_packet_write_to [lidar_packet] fresh_writer)) @ [7])) =
   (Inr [lidar_packet], reader_of [7])"
proof -
  have "list_all packet_okay [lidar_packet]" by (simp add: lidar_packet_okay)
  from tunnel_packet_roundtrip[OF this surjective_pairing, of "[7]"] show ?thesis by simp
qed

end
