(* ===== verification/Auth.thy ===== *)
theory Auth
  imports Protocol
begin

unbundle bit_operations_syntax

text \<open>
  The Ed25519 nonce challenge of \<open>rust/crates/roboat-core/src/auth.rs\<close>, both sides, and the key
  list it consults. The signature scheme (\<open>ed25519_dalek\<close>) is a parameter, the random nonce an
  argument; \<open>elapsed\<close> says which of the timed operations runs into its timeout.
\<close>

section \<open>The signature scheme and the connection\<close>

record ed25519 =
  key_ok :: "bytes \<Rightarrow> bool"
  verify_ok :: "bytes \<Rightarrow> bytes \<Rightarrow> bytes \<Rightarrow> bool"
  pub_of :: "bytes \<Rightarrow> bytes"
  sign_of :: "bytes \<Rightarrow> bytes \<Rightarrow> bytes"

record duplex =
  rd :: reader
  wr :: writer

definition on_rd :: "(reader, 'e, 'a) io \<Rightarrow> (duplex, 'e, 'a) io" where
  "on_rd m d = (case m (rd d) of (x, r) \<Rightarrow> (x, d\<lparr>rd := r\<rparr>))"

definition on_wr :: "(writer, 'e, 'a) io \<Rightarrow> (duplex, 'e, 'a) io" where
  "on_wr m d = (case m (wr d) of (x, w) \<Rightarrow> (x, d\<lparr>wr := w\<rparr>))"

section \<open>Constants, errors, timeouts\<close>

definition nonce_len :: nat where "nonce_len = 32"
definition public_key_len :: nat where "public_key_len = 32"
definition signature_len :: nat where "signature_len = 64"

datatype auth_error = AuthIo io_error | InvalidSignature | InvalidPublicKey | Unauthorized

definition auth_error_text :: "auth_error \<Rightarrow> string" where
  "auth_error_text e =
     (case e of
        AuthIo ie \<Rightarrow> ''IO error: '' @ io_error_text ie
      | InvalidSignature \<Rightarrow> ''Invalid signature''
      | InvalidPublicKey \<Rightarrow> ''Invalid public key''
      | Unauthorized \<Rightarrow> ''Key not authorized'')"

definition with_io_timeout ::
  "(string \<Rightarrow> bool) \<Rightarrow> (duplex, io_error, 'a) io \<Rightarrow> string \<Rightarrow> (duplex, auth_error, 'a) io" where
  "with_io_timeout elapsed fut opn d =
     (if elapsed opn then (Inl (AuthIo (TimedOut (''auth '' @ opn @ '' timeout''))), d)
      else io_map_err AuthIo fut d)"

section \<open>Hexadecimal\<close>

definition hex_encode_byte :: "byte \<Rightarrow> char \<times> char" where
  "hex_encode_byte b =
     (''0123456789abcdef'' ! unat (drop_bit 4 b), ''0123456789abcdef'' ! unat (b AND 0x0f))"

definition hex_encode :: "bytes \<Rightarrow> string" where
  "hex_encode bs = concat (map (\<lambda>b. let h = hex_encode_byte b in [fst h, snd h]) bs)"

section \<open>The key list\<close>

definition normalize_authorized_keys :: "(string \<Rightarrow> string) \<Rightarrow> string list \<Rightarrow> string list" where
  "normalize_authorized_keys ulow keys =
     remdups_adj (sort (filter (\<lambda>k. k \<noteq> []) (map (\<lambda>k. to_lowercase ulow (trim k)) keys)))"

text \<open>The list behind its lock; a poisoned lock ignores updates and reads as the empty list.\<close>

record server_authenticator =
  authorized_keys :: "string list"
  lock_poisoned :: bool

definition server_auth_new :: "(string \<Rightarrow> string) \<Rightarrow> string list \<Rightarrow> server_authenticator" where
  "server_auth_new ulow keys =
     \<lparr>authorized_keys = normalize_authorized_keys ulow keys, lock_poisoned = False\<rparr>"

definition server_auth_replace ::
  "(string \<Rightarrow> string) \<Rightarrow> string list \<Rightarrow> server_authenticator \<Rightarrow> server_authenticator" where
  "server_auth_replace ulow keys a =
     (if lock_poisoned a then a else a\<lparr>authorized_keys := normalize_authorized_keys ulow keys\<rparr>)"

definition server_auth_keys :: "server_authenticator \<Rightarrow> string list" where
  "server_auth_keys a = (if lock_poisoned a then [] else authorized_keys a)"

section \<open>The two sides\<close>

definition server_authenticate ::
  "ed25519 \<Rightarrow> (string \<Rightarrow> bool) \<Rightarrow> bytes \<Rightarrow> server_authenticator \<Rightarrow> (duplex, auth_error, string) io" where
  "server_authenticate ed elapsed nonce a =
     io_bind (with_io_timeout elapsed (on_wr (write_all nonce)) ''write nonce'') (\<lambda>_.
     io_bind (with_io_timeout elapsed (on_wr flush) ''flush nonce'') (\<lambda>_.
     io_bind (with_io_timeout elapsed (on_rd (read_exact public_key_len)) ''read public key'') (\<lambda>pub_key_bytes.
     io_bind (with_io_timeout elapsed (on_rd (read_exact signature_len)) ''read signature'') (\<lambda>sig_bytes.
     if \<not> key_ok ed pub_key_bytes then io_fail InvalidPublicKey
     else if \<not> verify_ok ed pub_key_bytes nonce sig_bytes then io_fail InvalidSignature
     else
       let pub_key_hex = hex_encode pub_key_bytes; keys = server_auth_keys a in
       if keys \<noteq> [] \<and> pub_key_hex \<notin> set keys then
         io_bind (with_io_timeout elapsed (on_wr (write_u8 0x00)) ''write auth reject'') (\<lambda>_.
         io_fail Unauthorized)
       else
         io_bind (with_io_timeout elapsed (on_wr (write_u8 0x01)) ''write auth accept'') (\<lambda>_.
         io_bind (with_io_timeout elapsed (on_wr flush) ''flush auth accept'') (\<lambda>_.
         io_return pub_key_hex))))))"

definition client_authenticate ::
  "ed25519 \<Rightarrow> (string \<Rightarrow> bool) \<Rightarrow> bytes \<Rightarrow> (duplex, auth_error, unit) io" where
  "client_authenticate ed elapsed seed =
     io_bind (with_io_timeout elapsed (on_rd (read_exact nonce_len)) ''read nonce'') (\<lambda>nonce.
     let sig = sign_of ed seed nonce; pub_key_bytes = pub_of ed seed in
     io_bind (with_io_timeout elapsed (on_wr (write_all pub_key_bytes)) ''write public key'') (\<lambda>_.
     io_bind (with_io_timeout elapsed (on_wr (write_all sig)) ''write signature'') (\<lambda>_.
     io_bind (with_io_timeout elapsed (on_wr flush) ''flush auth payload'') (\<lambda>_.
     io_bind (with_io_timeout elapsed (on_rd read_u8) ''read auth result'') (\<lambda>result.
     if result \<noteq> 0x01 then io_fail Unauthorized else io_return ())))))"

definition client_public_key_hex :: "ed25519 \<Rightarrow> bytes \<Rightarrow> string" where
  "client_public_key_hex ed seed = hex_encode (pub_of ed seed)"

section \<open>Facts about the key list and hexadecimal\<close>

text \<open>Normalising a key list gives the trimmed, lower-cased, non-empty keys, in strictly
  ascending byte order and so without duplicates.\<close>

lemma normalize_authorized_keys_spec:
  "set (normalize_authorized_keys ulow keys) = (\<lambda>k. to_lowercase ulow (trim k)) ` set keys - {[]} \<and>
   sorted (normalize_authorized_keys ulow keys) \<and> distinct (normalize_authorized_keys ulow keys)"
  by (auto simp: normalize_authorized_keys_def distinct_remdups_adj_sorted)

lemma normalize_authorized_keys_Nil: "normalize_authorized_keys ulow [] = []"
  by (simp add: normalize_authorized_keys_def)

lemma nibble_cases: "n < (16 :: nat) \<Longrightarrow> m < 16 \<Longrightarrow>
    ''0123456789abcdef'' ! n = ''0123456789abcdef'' ! m \<Longrightarrow> n = m"
  by (rule nth_eq_iff_index_eq[THEN iffD1, of "''0123456789abcdef''"]) simp_all

lemma high_nibble: "unat (drop_bit 4 (b :: byte)) = unat b div 16"
  by (simp add: drop_bit_eq_div unat_div_distrib)

lemma low_nibble: "unat ((b :: byte) AND 0x0f) = unat b mod 16"
proof -
  have "b AND 0x0f = take_bit 4 b" by (simp add: take_bit_eq_mask mask_eq_exp_minus_1)
  then show ?thesis by (simp add: take_bit_eq_mod unat_mod_distrib)
qed

lemma hex_encode_byte_inj: "hex_encode_byte a = hex_encode_byte b \<Longrightarrow> a = b"
proof -
  assume eq: "hex_encode_byte a = hex_encode_byte b"
  have "unat a < 256" "unat b < 256" using unsigned_less[of a] unsigned_less[of b] by simp_all
  then have "unat a div 16 < 16" "unat b div 16 < 16" by simp_all
  with eq have "unat a div 16 = unat b div 16" "unat a mod 16 = unat b mod 16"
    by (auto simp: hex_encode_byte_def high_nibble low_nibble intro: nibble_cases)
  then have "unat a = unat b" by (metis div_mult_mod_eq)
  then show "a = b" by (simp add: unsigned_word_eqI)
qed

lemma length_hex_encode [simp]: "length (hex_encode bs) = 2 * length bs"
  by (induction bs) (auto simp: hex_encode_def Let_def)

lemma hex_encode_Cons:
  "hex_encode (b # bs) = fst (hex_encode_byte b) # snd (hex_encode_byte b) # hex_encode bs"
  by (simp add: hex_encode_def Let_def)

lemma hex_encode_inj: "hex_encode xs = hex_encode ys \<Longrightarrow> xs = ys"
proof (induction xs arbitrary: ys)
  case Nil
  then show ?case by (cases ys) (simp_all add: hex_encode_def Let_def)
next
  case (Cons x xs)
  from Cons.prems obtain y ys' where "ys = y # ys'" by (cases ys) (simp_all add: hex_encode_def Let_def)
  with Cons show ?case
    by (auto simp: hex_encode_Cons intro: hex_encode_byte_inj prod_eqI)
qed

section \<open>Running the handshake\<close>

lemma on_rd_read_exact [io_simps]:
  "on_rd (read_exact n) d =
     (if n \<le> length (rbytes (rd d))
      then (Inr (take n (rbytes (rd d))), d\<lparr>rd := (rd d)\<lparr>rbytes := drop n (rbytes (rd d))\<rparr>\<rparr>)
      else (Inl (rend_error (rend (rd d))), d\<lparr>rd := (rd d)\<lparr>rbytes := []\<rparr>\<rparr>))"
  by (simp add: on_rd_def read_exact_def)

lemma with_io_timeout_eq_Inr:
  "with_io_timeout elapsed m opn d = (Inr x, d') \<longleftrightarrow> \<not> elapsed opn \<and> m d = (Inr x, d')"
  by (auto simp: with_io_timeout_def io_map_err_eq_Inr)

lemma on_wr_eq_InrD: "on_wr m d = (Inr x, d') \<Longrightarrow> rd d' = rd d"
  by (auto simp: on_wr_def split: prod.splits)

lemma on_rd_read_exact_InrD:
  "on_rd (read_exact n) d = (Inr bs, d') \<Longrightarrow> length bs = n \<and> rbytes (rd d) = bs @ rbytes (rd d')"
  by (auto simp: on_rd_read_exact split: if_splits)

lemma server_authenticate_InrD:
  assumes "server_authenticate ed elapsed nonce a d = (Inr k, d')"
  shows "\<exists>pk sig rest. rbytes (rd d) = pk @ sig @ rest \<and> length pk = 32 \<and> length sig = 64 \<and>
    key_ok ed pk \<and> verify_ok ed pk nonce sig \<and> k = hex_encode pk \<and>
    (server_auth_keys a = [] \<or> k \<in> set (server_auth_keys a))"
proof -
  obtain d1 d2 pk d3 sig d4 where
    w: "on_wr (write_all nonce) d = (Inr (), d1)" "on_wr flush d1 = (Inr (), d2)"
    and r: "on_rd (read_exact public_key_len) d2 = (Inr pk, d3)"
           "on_rd (read_exact signature_len) d3 = (Inr sig, d4)"
    and rest: "(if \<not> key_ok ed pk then io_fail InvalidPublicKey
        else if \<not> verify_ok ed pk nonce sig then io_fail InvalidSignature
        else let pub_key_hex = hex_encode pk; keys = server_auth_keys a in
          if keys \<noteq> [] \<and> pub_key_hex \<notin> set keys then
            io_bind (with_io_timeout elapsed (on_wr (write_u8 0x00)) ''write auth reject'') (\<lambda>_.
            io_fail Unauthorized)
          else
            io_bind (with_io_timeout elapsed (on_wr (write_u8 0x01)) ''write auth accept'') (\<lambda>_.
            io_bind (with_io_timeout elapsed (on_wr flush) ''flush auth accept'') (\<lambda>_.
            io_return pub_key_hex))) d4 = (Inr k, d')"
    using assms unfolding server_authenticate_def io_bind_eq_Inr[of "with_io_timeout _ _ _"]
      with_io_timeout_eq_Inr by auto
  have ok: "key_ok ed pk" "verify_ok ed pk nonce sig" "k = hex_encode pk"
    "server_auth_keys a = [] \<or> k \<in> set (server_auth_keys a)"
    using rest
    by (auto simp: Let_def io_fail_def io_return_def io_bind_eq_Inr split: if_splits)
  have "rd d2 = rd d" using w by (auto dest!: on_wr_eq_InrD)
  with r[THEN on_rd_read_exact_InrD] have "rbytes (rd d) = pk @ sig @ rbytes (rd d4)"
    and "length pk = 32" and "length sig = 64"
    by (simp_all add: public_key_len_def signature_len_def)
  with ok show ?thesis by blast
qed

text \<open>C2: Whatever happens on the connection, the server admits a client only after reading a valid
  public key and a signature of its own nonce that verifies under that key, and only if the
  hex form of the key is on the list or the list is empty; it returns that hex form.\<close>

theorem server_authenticate_sound:
  assumes "server_authenticate ed elapsed nonce a d = (Inr k, d')"
  shows "\<exists>pk sig rest. rbytes (rd d) = pk @ sig @ rest \<and> length pk = 32 \<and> length sig = 64 \<and>
    key_ok ed pk \<and> verify_ok ed pk nonce sig \<and> k = hex_encode pk \<and>
    (server_auth_keys a = [] \<or> k \<in> set (server_auth_keys a))"
  using assms by (rule server_authenticate_InrD)

definition endpoint :: "bytes \<Rightarrow> duplex" where
  "endpoint bs = \<lparr>rd = reader_of bs, wr = fresh_writer\<rparr>"

definition admitted :: "server_authenticator \<Rightarrow> string \<Rightarrow> bool" where
  "admitted a k \<longleftrightarrow> server_auth_keys a = [] \<or> k \<in> set (server_auth_keys a)"

lemma on_wr_open [io_simps]:
  "open_writer (wr d) \<Longrightarrow>
     on_wr (write_all bs) d = (Inr (), d\<lparr>wr := (wr d)\<lparr>wbytes := wbytes (wr d) @ bs\<rparr>\<rparr>)"
  "open_writer (wr d) \<Longrightarrow> on_wr flush d = (Inr (), d)"
  "open_writer (wr d) \<Longrightarrow>
     on_wr (write_u8 b) d = (Inr (), d\<lparr>wr := (wr d)\<lparr>wbytes := wbytes (wr d) @ [b]\<rparr>\<rparr>)"
  by (simp_all add: on_wr_def write_all_open flush_open write_u8_def)

lemma on_rd_read_u8 [io_simps]:
  "rbytes (rd d) = b # bs \<Longrightarrow> on_rd read_u8 d = (Inr b, d\<lparr>rd := (rd d)\<lparr>rbytes := bs\<rparr>\<rparr>)"
  "rbytes (rd d) = [] \<Longrightarrow> on_rd read_u8 d = (Inl (rend_error (rend (rd d))), d\<lparr>rd := (rd d)\<lparr>rbytes := []\<rparr>\<rparr>)"
  by (simp_all add: on_rd_def read_u8_def io_bind_def read_exact_def io_return_def)

lemmas handshake_simps = io_simps io_bind_def io_map_err_def with_io_timeout_def endpoint_def Let_def
  nonce_len_def public_key_len_def signature_len_def

text \<open>The server on a complete answer: the four outcomes and the byte it sends with each.\<close>

lemma server_on_answer:
  assumes "length pk = 32" and "length sig = 64"
  shows "server_authenticate ed (\<lambda>_. False) nonce a (endpoint (pk @ sig @ rest)) =
    (if \<not> key_ok ed pk then
       (Inl InvalidPublicKey, (endpoint rest)\<lparr>wr := fresh_writer\<lparr>wbytes := nonce\<rparr>\<rparr>)
     else if \<not> verify_ok ed pk nonce sig then
       (Inl InvalidSignature, (endpoint rest)\<lparr>wr := fresh_writer\<lparr>wbytes := nonce\<rparr>\<rparr>)
     else if admitted a (hex_encode pk) then
       (Inr (hex_encode pk), (endpoint rest)\<lparr>wr := fresh_writer\<lparr>wbytes := nonce @ [1]\<rparr>\<rparr>)
     else (Inl Unauthorized, (endpoint rest)\<lparr>wr := fresh_writer\<lparr>wbytes := nonce @ [0]\<rparr>\<rparr>))"
  using assms by (auto simp: server_authenticate_def handshake_simps admitted_def)

lemma client_on_nonce:
  assumes "length nonce = 32"
  shows "client_authenticate ed (\<lambda>_. False) seed (endpoint (nonce @ ack)) =
    ((case ack of [] \<Rightarrow> Inl (AuthIo UnexpectedEof) | b # _ \<Rightarrow> if b = 1 then Inr () else Inl Unauthorized),
     \<lparr>rd = reader_of (tl ack), wr = fresh_writer\<lparr>wbytes := pub_of ed seed @ sign_of ed seed nonce\<rparr>\<rparr>)"
  using assms
  by (cases ack) (auto simp: client_authenticate_def handshake_simps rend_error_def)

text \<open>C10: When an honest client meets a server, with the answer bytes of each side fed to the other,
  the two agree: both succeed, the server with the client's key, when that key is admitted, and
  both report \<open>Unauthorized\<close> otherwise. The hypotheses are the sizes of keys and signatures and
  that a signature verifies under its own key.\<close>

theorem handshake_agrees:
  assumes "length nonce = 32" and "length (pub_of ed seed) = 32"
    and "length (sign_of ed seed nonce) = 64"
    and "key_ok ed (pub_of ed seed)" and "verify_ok ed (pub_of ed seed) nonce (sign_of ed seed nonce)"
    and "client_authenticate ed (\<lambda>_. False) seed (endpoint nonce) = (c0res, c0)"
    and "server_authenticate ed (\<lambda>_. False) nonce a (endpoint (wbytes (wr c0))) = (sres, s)"
    and "client_authenticate ed (\<lambda>_. False) seed (endpoint (wbytes (wr s))) = (cres, c)"
  shows "wbytes (wr c) = wbytes (wr c0) \<and>
    (if admitted a (client_public_key_hex ed seed)
     then sres = Inr (client_public_key_hex ed seed) \<and> cres = Inr ()
     else sres = Inl Unauthorized \<and> cres = Inl Unauthorized)"
proof -
  have c0: "wbytes (wr c0) = pub_of ed seed @ sign_of ed seed nonce"
    using client_on_nonce[OF assms(1), of ed seed "[]"] assms(6) by auto
  show ?thesis
  proof (cases "admitted a (client_public_key_hex ed seed)")
    case True
    with server_on_answer[OF assms(2,3), of ed nonce a "[]"] assms(4,5,7)
    have "sres = Inr (client_public_key_hex ed seed)" and "wbytes (wr s) = nonce @ [1]"
      by (auto simp: c0 client_public_key_hex_def)
    with True client_on_nonce[OF assms(1), of ed seed "[1]"] assms(8) c0 show ?thesis by auto
  next
    case False
    with server_on_answer[OF assms(2,3), of ed nonce a "[]"] assms(4,5,7)
    have "sres = Inl Unauthorized" and "wbytes (wr s) = nonce @ [0]"
      by (auto simp: c0 client_public_key_hex_def)
    with False client_on_nonce[OF assms(1), of ed seed "[0]"] assms(8) c0 show ?thesis by auto
  qed
qed

text \<open>A scheme for the witnesses: the seed is the key, a signature repeats the message.\<close>

definition echo_scheme :: ed25519 where
  "echo_scheme = \<lparr>key_ok = (\<lambda>_. True), verify_ok = (\<lambda>_ m s. s = m @ m), pub_of = (\<lambda>s. s),
     sign_of = (\<lambda>_ m. m @ m)\<rparr>"

theorem handshake_agrees_witness:
  "fst (server_authenticate echo_scheme (\<lambda>_. False) (replicate 32 7) (server_auth_new id [])
     (endpoint (wbytes (wr (snd (client_authenticate echo_scheme (\<lambda>_. False) (replicate 32 42)
        (endpoint (replicate 32 7)))))))) =
   Inr (client_public_key_hex echo_scheme (replicate 32 42))"
proof -
  let ?n = "replicate 32 7 :: bytes" and ?seed = "replicate 32 42 :: bytes"
  have h: "length ?n = 32" "length (pub_of echo_scheme ?seed) = 32"
    "length (sign_of echo_scheme ?seed ?n) = 64" "key_ok echo_scheme (pub_of echo_scheme ?seed)"
    "verify_ok echo_scheme (pub_of echo_scheme ?seed) ?n (sign_of echo_scheme ?seed ?n)"
    by (simp_all add: echo_scheme_def)
  have "admitted (server_auth_new id []) (client_public_key_hex echo_scheme ?seed)"
    by (simp add: admitted_def server_auth_keys_def server_auth_new_def normalize_authorized_keys_Nil)
  with handshake_agrees[OF h surjective_pairing surjective_pairing surjective_pairing,
      of "server_auth_new id []"]
  show ?thesis by simp
qed

theorem server_authenticate_sound_witness:
  "\<exists>pk sig rest. replicate 32 42 @ replicate 64 7 = pk @ sig @ rest \<and> length pk = 32 \<and>
     length sig = 64 \<and> key_ok echo_scheme pk \<and> verify_ok echo_scheme pk (replicate 32 7) sig"
proof -
  have "server_authenticate echo_scheme (\<lambda>_. False) (replicate 32 7) (server_auth_new id [])
      (endpoint (replicate 32 42 @ replicate 64 7 @ [])) =
    (Inr (hex_encode (replicate 32 42)), (endpoint [])\<lparr>wr := fresh_writer\<lparr>wbytes := replicate 32 7 @ [1]\<rparr>\<rparr>)"
    by (subst server_on_answer)
      (simp_all add: echo_scheme_def admitted_def server_auth_keys_def server_auth_new_def
        normalize_authorized_keys_Nil replicate_add[symmetric])
  from server_authenticate_sound[OF this] show ?thesis by (simp add: endpoint_def) blast
qed

end
