(* ===== verification/Channels.thy ===== *)
theory Channels
  imports Prelude
begin

text \<open>
  Bounded message queues between tasks, as \<open>tokio::sync::mpsc\<close> documents them: first in first out,
  at most \<open>cap\<close> waiting messages, a send fails once the receiver is gone, and a receive on an empty
  queue ends once every sender is gone.
\<close>

record 'a mpsc =
  items :: "'a list"
  cap :: nat
  tx_open :: bool
  rx_open :: bool

datatype 'a sent = Sent 'a | WaitsForRoom | NoReceiver

datatype ('a, 'q) received = Received 'a 'q | WaitsForItem | NoSender

definition mpsc_new :: "nat \<Rightarrow> 'a mpsc" where
  "mpsc_new n = \<lparr>items = [], cap = n, tx_open = True, rx_open = True\<rparr>"

text \<open>\<open>send(x).await\<close>: it waits while the queue is full.\<close>

definition mpsc_send :: "'a \<Rightarrow> 'a mpsc \<Rightarrow> 'a mpsc sent" where
  "mpsc_send x q =
     (if \<not> rx_open q then NoReceiver
      else if length (items q) < cap q then Sent (q\<lparr>items := items q @ [x]\<rparr>)
      else WaitsForRoom)"

text \<open>\<open>try_send(x)\<close> with its result ignored: a full or abandoned queue drops the message.\<close>

definition mpsc_try_send :: "'a \<Rightarrow> 'a mpsc \<Rightarrow> 'a mpsc" where
  "mpsc_try_send x q =
     (if rx_open q \<and> length (items q) < cap q then q\<lparr>items := items q @ [x]\<rparr> else q)"

definition mpsc_recv :: "'a mpsc \<Rightarrow> ('a, 'a mpsc) received" where
  "mpsc_recv q =
     (case items q of
        x # xs \<Rightarrow> Received x (q\<lparr>items := xs\<rparr>)
      | [] \<Rightarrow> if tx_open q then WaitsForItem else NoSender)"

definition mpsc_bounded :: "'a mpsc \<Rightarrow> bool" where
  "mpsc_bounded q \<longleftrightarrow> length (items q) \<le> cap q"

lemma mpsc_bounded_new [simp]: "mpsc_bounded (mpsc_new n)"
  by (simp add: mpsc_bounded_def mpsc_new_def)

lemma mpsc_bounded_send: "mpsc_bounded q \<Longrightarrow> mpsc_send x q = Sent q' \<Longrightarrow> mpsc_bounded q'"
  by (auto simp: mpsc_bounded_def mpsc_send_def split: if_splits)

lemma mpsc_bounded_try_send: "mpsc_bounded q \<Longrightarrow> mpsc_bounded (mpsc_try_send x q)"
  by (auto simp: mpsc_bounded_def mpsc_try_send_def)

lemma mpsc_bounded_recv: "mpsc_bounded q \<Longrightarrow> mpsc_recv q = Received x q' \<Longrightarrow> mpsc_bounded q'"
  by (auto simp: mpsc_bounded_def mpsc_recv_def split: list.splits if_splits)

lemma mpsc_send_items: "mpsc_send x q = Sent q' \<Longrightarrow> items q' = items q @ [x]"
  by (auto simp: mpsc_send_def split: if_splits)

lemma mpsc_recv_items: "mpsc_recv q = Received x q' \<Longrightarrow> items q = x # items q'"
  by (auto simp: mpsc_recv_def split: list.splits if_splits)

end
