(* ===== verification/Tunnel.thy ===== *)
theory Tunnel
  imports Auth Channels
begin

text \<open>
  The tunnel server of \<open>rust/crates/roboat-core/src/tunnel.rs\<close>: the server record, the handler of
  one client connection (authentication, then the frame loop), the task that forwards broadcast
  data, and the accept loop with its client counter. The application behind the command channel,
  the JSON codec and the broadcast channel are parameters.
\<close>

section \<open>The server\<close>

record tunnel_server =
  ts_listen_port :: u16
  ts_authenticator :: server_authenticator
  ts_client_count :: u64
  ts_webrtc_trigger :: "web_rtc_bootstrap_payload mpsc option"
  ts_webrtc_teardown :: "web_rtc_teardown_payload mpsc option"

definition tunnel_server_new :: "(string \<Rightarrow> string) \<Rightarrow> u16 \<Rightarrow> string list \<Rightarrow> tunnel_server" where
  "tunnel_server_new ulow port keys =
     \<lparr>ts_listen_port = port, ts_authenticator = server_auth_new ulow keys, ts_client_count = 0,
      ts_webrtc_trigger = None, ts_webrtc_teardown = None\<rparr>"

definition set_webrtc_trigger :: "web_rtc_bootstrap_payload mpsc \<Rightarrow> tunnel_server \<Rightarrow> tunnel_server" where
  "set_webrtc_trigger tx s = s\<lparr>ts_webrtc_trigger := Some tx\<rparr>"

definition set_webrtc_teardown :: "web_rtc_teardown_payload mpsc \<Rightarrow> tunnel_server \<Rightarrow> tunnel_server" where
  "set_webrtc_teardown tx s = s\<lparr>ts_webrtc_teardown := Some tx\<rparr>"

definition connected_clients :: "tunnel_server \<Rightarrow> u64" where
  "connected_clients s = ts_client_count s"

definition tunnel_replace_authorized_keys ::
  "(string \<Rightarrow> string) \<Rightarrow> string list \<Rightarrow> tunnel_server \<Rightarrow> tunnel_server" where
  "tunnel_replace_authorized_keys ulow keys s =
     s\<lparr>ts_authenticator := server_auth_replace ulow keys (ts_authenticator s)\<rparr>"

definition tunnel_authorized_keys :: "tunnel_server \<Rightarrow> string list" where
  "tunnel_authorized_keys s = server_auth_keys (ts_authenticator s)"

section \<open>One client\<close>

text \<open>What the application does with a command: its queue may be closed, it may drop the reply
  channel without answering, or it answers. Its choice may depend on the commands before.\<close>

datatype 'r cmd_outcome = CommandChannelClosed | NoReply | Reply 'r

record 'j tunnel_env =
  te_dispatch :: "'j command_request list \<Rightarrow> 'j command_request \<Rightarrow> 'j command_response cmd_outcome"
  te_request :: "bytes \<Rightarrow> 'j command_request option"
  te_response :: "'j command_response \<Rightarrow> bytes option"
  te_bootstrap :: "bytes \<Rightarrow> web_rtc_bootstrap_payload option"
  te_teardown :: "bytes \<Rightarrow> web_rtc_teardown_payload option"

record 'j tunnel_client =
  tc_rd :: reader
  tc_wr :: writer
  tc_commands :: "'j command_request list"
  tc_trigger :: "web_rtc_bootstrap_payload mpsc option"
  tc_teardown :: "web_rtc_teardown_payload mpsc option"

datatype flow = Continue | Break | Fail protocol_error

definition tunnel_write :: "frame_type \<Rightarrow> bytes \<Rightarrow> 'j tunnel_client \<Rightarrow> flow \<times> 'j tunnel_client" where
  "tunnel_write ft data c =
     (case write_frame ft data (tc_wr c) of
        (Inl e, w) \<Rightarrow> (Fail e, c\<lparr>tc_wr := w\<rparr>)
      | (Inr _, w) \<Rightarrow> (Continue, c\<lparr>tc_wr := w\<rparr>))"

definition tunnel_handle_frame ::
  "'j tunnel_env \<Rightarrow> frame_type \<Rightarrow> bytes \<Rightarrow> 'j tunnel_client \<Rightarrow> flow \<times> 'j tunnel_client" where
  "tunnel_handle_frame env ft data c =
     (case ft of
        FtCommandRequest \<Rightarrow>
          (case te_request env data of
             None \<Rightarrow> (Continue, c)
           | Some request \<Rightarrow>
               (case te_dispatch env (tc_commands c) request of
                  CommandChannelClosed \<Rightarrow> (Break, c)
                | NoReply \<Rightarrow> (Continue, c\<lparr>tc_commands := tc_commands c @ [request]\<rparr>)
                | Reply response \<Rightarrow>
                    tunnel_write FtCommandResponse
                      (case te_response env response of None \<Rightarrow> [] | Some b \<Rightarrow> b)
                      (c\<lparr>tc_commands := tc_commands c @ [request]\<rparr>)))
      | FtPing \<Rightarrow> tunnel_write FtPong [] c
      | FtWebRtcBootstrap \<Rightarrow>
          (case tc_trigger c of
             None \<Rightarrow> (Continue, c)
           | Some tx \<Rightarrow>
               (case te_bootstrap env data of
                  Some p \<Rightarrow> (Continue, c\<lparr>tc_trigger := Some (mpsc_try_send p tx)\<rparr>)
                | None \<Rightarrow> (Continue, c)))
      | FtWebRtcTeardown \<Rightarrow>
          (case tc_teardown c of
             None \<Rightarrow> (Continue, c)
           | Some tx \<Rightarrow>
               let p = (if data = [] then \<lparr>wt_bootstrap_id = None\<rparr>
                        else case te_teardown env data of
                               Some p \<Rightarrow> p | None \<Rightarrow> \<lparr>wt_bootstrap_id = None\<rparr>)
               in (Continue, c\<lparr>tc_teardown := Some (mpsc_try_send p tx)\<rparr>))
      | _ \<Rightarrow> (Continue, c))"

lemma tunnel_write_rd [simp]: "tc_rd (snd (tunnel_write ft data c)) = tc_rd c"
  by (auto simp: tunnel_write_def split: prod.splits sum.splits)

lemma tunnel_handle_frame_rd [simp]: "tc_rd (snd (tunnel_handle_frame env ft data c)) = tc_rd c"
  by (auto simp: tunnel_handle_frame_def Let_def split: frame_type.splits option.splits cmd_outcome.splits)

lemma read_frame_consumes:
  "read_frame r = (Inr f, r') \<Longrightarrow> length (rbytes r') < length (rbytes r)"
  using read_frame_InrD[of r f r'] by (auto simp: frame_bytes_def)

lemma tunnel_loop_progress:
  assumes "(Inr (ft, data), r) = read_frame (tc_rd c)"
    and "(fl, c') = tunnel_handle_frame env ft data (c\<lparr>tc_rd := r\<rparr>)"
  shows "length (rbytes (tc_rd c')) < length (rbytes (tc_rd c))"
proof -
  have "tc_rd c' = r"
    using tunnel_handle_frame_rd[of env ft data "c\<lparr>tc_rd := r\<rparr>"] assms(2)[symmetric] by simp
  with read_frame_consumes[OF assms(1)[symmetric]] show ?thesis by simp
qed

text \<open>The frame loop. \<open>shut\<close> is the number of frames handled before the shutdown notice arrives
  (\<open>None\<close>: never); otherwise the loop runs until the connection ends.\<close>

function tunnel_client_loop ::
  "'j tunnel_env \<Rightarrow> nat option \<Rightarrow> 'j tunnel_client \<Rightarrow> (protocol_error + unit) \<times> 'j tunnel_client" where
  "tunnel_client_loop env shut c =
     (if shut = Some 0 then (Inr (), c)
      else
        (case read_frame (tc_rd c) of
           (Inl e, r) \<Rightarrow> (Inr (), c\<lparr>tc_rd := r\<rparr>)
         | (Inr (ft, data), r) \<Rightarrow>
             (case tunnel_handle_frame env ft data (c\<lparr>tc_rd := r\<rparr>) of
                (Continue, c') \<Rightarrow> tunnel_client_loop env (map_option (\<lambda>n. n - 1) shut) c'
              | (Break, c') \<Rightarrow> (Inr (), c')
              | (Fail e, c') \<Rightarrow> (Inl e, c'))))"
  by pat_completeness auto
termination
  by (relation "measure (\<lambda>(env, shut, c). length (rbytes (tc_rd c)))")
    (auto dest: tunnel_loop_progress)

declare tunnel_client_loop.simps [simp del]

text \<open>The whole handler: authenticate, then serve frames. The key list is the server's at the time
  of the connection.\<close>

definition tunnel_handle_client ::
  "ed25519 \<Rightarrow> (string \<Rightarrow> bool) \<Rightarrow> bytes \<Rightarrow> 'j tunnel_env \<Rightarrow> nat option \<Rightarrow> server_authenticator \<Rightarrow>
   'j tunnel_client \<Rightarrow> (protocol_error + unit) \<times> 'j tunnel_client" where
  "tunnel_handle_client ed elapsed nonce env shut a c =
     (case server_authenticate ed elapsed nonce a \<lparr>rd = tc_rd c, wr = tc_wr c\<rparr> of
        (Inl e, d) \<Rightarrow> (Inl (ProtoIo (auth_error_text e)), c\<lparr>tc_rd := rd d, tc_wr := wr d\<rparr>)
      | (Inr pub_key, d) \<Rightarrow> tunnel_client_loop env shut (c\<lparr>tc_rd := rd d, tc_wr := wr d\<rparr>))"

text \<open>The writer task: broadcast data goes out as topic packets until a write fails or the
  broadcast channel closes; a lagging receiver only skips.\<close>

datatype broadcast_recv = BcOk bytes | BcLagged nat | BcClosed

fun tunnel_broadcast_task :: "broadcast_recv list \<Rightarrow> writer \<Rightarrow> writer" where
  "tunnel_broadcast_task [] w = w"
| "tunnel_broadcast_task (BcOk data # es) w =
     (case write_frame FtTunnelPacket data w of
        (Inl e, w') \<Rightarrow> w'
      | (Inr _, w') \<Rightarrow> tunnel_broadcast_task es w')"
| "tunnel_broadcast_task (BcLagged n # es) w = tunnel_broadcast_task es w"
| "tunnel_broadcast_task (BcClosed # es) w = w"

section \<open>The accept loop\<close>

text \<open>Accepting a connection spawns a task; the task counts itself in before it serves the client
  and out when the client is done. \<open>al_waiting\<close> are spawned tasks that have not started,
  \<open>al_active\<close> tasks between the two counter updates.\<close>

record accept_loop =
  al_server :: tunnel_server
  al_running :: bool
  al_waiting :: nat
  al_active :: nat

datatype accept_event = Accepted | AcceptFailed | TaskStarts | TaskEnds | ShutdownNotified

definition accept_step :: "accept_loop \<Rightarrow> accept_event \<Rightarrow> accept_loop" where
  "accept_step s e =
     (case e of
        Accepted \<Rightarrow> if al_running s then s\<lparr>al_waiting := al_waiting s + 1\<rparr> else s
      | AcceptFailed \<Rightarrow> s
      | TaskStarts \<Rightarrow>
          if al_waiting s = 0 then s
          else s\<lparr>al_waiting := al_waiting s - 1, al_active := al_active s + 1,
                 al_server := (al_server s)\<lparr>ts_client_count := ts_client_count (al_server s) + 1\<rparr>\<rparr>
      | TaskEnds \<Rightarrow>
          if al_active s = 0 then s
          else s\<lparr>al_active := al_active s - 1,
                 al_server := (al_server s)\<lparr>ts_client_count := ts_client_count (al_server s) - 1\<rparr>\<rparr>
      | ShutdownNotified \<Rightarrow> s\<lparr>al_running := False\<rparr>)"

definition count_inv :: "accept_loop \<Rightarrow> bool" where
  "count_inv s \<longleftrightarrow> connected_clients (al_server s) = word_of_nat (al_active s)"

interpretation al: step_system accept_step count_inv
proof
  fix s e
  assume "count_inv s"
  then show "count_inv (accept_step s e)"
    by (cases e) (auto simp: count_inv_def accept_step_def connected_clients_def)
qed

text \<open>After any sequence of accepts, failures, task starts and ends, the reported number of
  connected clients is the number of handlers between their two counter updates (as long as
  that number fits the counter).\<close>

lemma connected_clients_counts_handlers:
  assumes "al_active (run_steps accept_step s0 es) < 2 ^ 64"
    and "connected_clients (al_server s0) = 0" and "al_active s0 = 0"
  shows "unat (connected_clients (al_server (run_steps accept_step s0 es)))
       = al_active (run_steps accept_step s0 es)"
proof -
  have "count_inv s0" using assms(2,3) by (simp add: count_inv_def)
  then have "count_inv (run_steps accept_step s0 es)" by (rule al.run_inv)
  with assms(1) show ?thesis by (simp add: count_inv_def unat_of_nat)
qed

lemma connected_clients_counts_handlers_example:
  "unat (connected_clients (al_server (run_steps accept_step
     \<lparr>al_server = tunnel_server_new id 11411 [], al_running = True, al_waiting = 0, al_active = 0\<rparr>
     [Accepted, Accepted, TaskStarts, TaskStarts, TaskEnds]))) = 1"
proof -
  let ?s = "\<lparr>al_server = tunnel_server_new id 11411 [], al_running = True, al_waiting = 0, al_active = 0\<rparr>"
    and ?es = "[Accepted, Accepted, TaskStarts, TaskStarts, TaskEnds]"
  have a: "al_active (run_steps accept_step ?s ?es) = 1" by (simp add: accept_step_def)
  have "connected_clients (al_server ?s) = 0" "al_active ?s = 0"
    by (simp_all add: connected_clients_def tunnel_server_new_def)
  from connected_clients_counts_handlers[OF _ this, of ?es] a show ?thesis by simp
qed

section \<open>Serving frames\<close>

text \<open>What a connection should do, over frames instead of bytes: handle them in order until one
  ends the connection.\<close>

fun tunnel_serve ::
  "'j tunnel_env \<Rightarrow> frame list \<Rightarrow> 'j tunnel_client \<Rightarrow> (protocol_error + unit) \<times> 'j tunnel_client" where
  "tunnel_serve env [] c = (Inr (), c)"
| "tunnel_serve env (f # fs) c =
     (case tunnel_handle_frame env (fst f) (snd f) c of
        (Continue, c') \<Rightarrow> tunnel_serve env fs c'
      | (Break, c') \<Rightarrow> (Inr (), c')
      | (Fail e, c') \<Rightarrow> (Inl e, c'))"

lemma tunnel_write_frame_rd:
  "tunnel_write ft data (c\<lparr>tc_rd := r\<rparr>) =
     (fst (tunnel_write ft data c), (snd (tunnel_write ft data c))\<lparr>tc_rd := r\<rparr>)"
  by (auto simp: tunnel_write_def split: prod.splits sum.splits)

lemma tunnel_write_commands_rd:
  "tunnel_write ft data (c\<lparr>tc_rd := r, tc_commands := xs\<rparr>) =
     (fst (tunnel_write ft data (c\<lparr>tc_commands := xs\<rparr>)),
      (snd (tunnel_write ft data (c\<lparr>tc_commands := xs\<rparr>)))\<lparr>tc_rd := r\<rparr>)"
  by (auto simp: tunnel_write_def split: prod.splits sum.splits)

lemma tunnel_handle_frame_frame_rd:
  "tunnel_handle_frame env ft data (c\<lparr>tc_rd := r\<rparr>) =
     (fst (tunnel_handle_frame env ft data c), (snd (tunnel_handle_frame env ft data c))\<lparr>tc_rd := r\<rparr>)"
  by (cases ft)
    (auto simp: tunnel_handle_frame_def Let_def tunnel_write_frame_rd tunnel_write_commands_rd
      split: option.splits cmd_outcome.splits)

lemma tunnel_loop_refines:
  assumes "list_all frame_okay fs" and "read_frame (reader_of rest) = (Inl e, r0)"
  shows "\<exists>r. tunnel_client_loop env None (c\<lparr>tc_rd := reader_of (concat (map frame_bytes fs) @ rest)\<rparr>) =
    (fst (tunnel_serve env fs c), (snd (tunnel_serve env fs c))\<lparr>tc_rd := r\<rparr>)"
  using assms(1)
proof (induction fs arbitrary: c)
  case Nil
  show ?case using assms(2) by (auto simp: tunnel_client_loop.simps[of env None])
next
  case (Cons f fs)
  let ?tail = "concat (map frame_bytes fs) @ rest"
  have rd: "read_frame (reader_of (frame_bytes f @ ?tail)) = (Inr f, reader_of ?tail)"
    using read_frame_frame_bytes[where f = f and r = "reader_of []" and bs = ?tail] Cons.prems by simp
  obtain fl c' where h: "tunnel_handle_frame env (fst f) (snd f) c = (fl, c')"
    by (cases "tunnel_handle_frame env (fst f) (snd f) c")
  then have h': "tunnel_handle_frame env (fst f) (snd f) (c\<lparr>tc_rd := reader_of ?tail\<rparr>) =
      (fl, c'\<lparr>tc_rd := reader_of ?tail\<rparr>)"
    by (simp add: tunnel_handle_frame_frame_rd)
  have loop: "tunnel_client_loop env None (c\<lparr>tc_rd := reader_of (frame_bytes f @ ?tail)\<rparr>) =
      (case fl of
         Continue \<Rightarrow> tunnel_client_loop env None (c'\<lparr>tc_rd := reader_of ?tail\<rparr>)
       | Break \<Rightarrow> (Inr (), c'\<lparr>tc_rd := reader_of ?tail\<rparr>)
       | Fail e \<Rightarrow> (Inl e, c'\<lparr>tc_rd := reader_of ?tail\<rparr>))"
    using rd h'
    by (subst tunnel_client_loop.simps) (auto simp: split: flow.splits prod.splits)
  have "list_all frame_okay fs" using Cons.prems by simp
  from Cons.IH[OF this, of c'] loop h show ?case
    by (cases fl) (auto)
qed

lemma tunnel_serve_commands:
  assumes "\<And>hist r. te_dispatch env hist r = Reply (answer r)"
    and "\<And>r. te_response env r = Some (encode r)"
  shows "map (te_request env) ds = map Some reqs \<Longrightarrow> open_writer (tc_wr c) \<Longrightarrow>
    fst (tunnel_serve env (map (Pair FtCommandRequest) ds) c) = Inr () \<and>
    tc_commands (snd (tunnel_serve env (map (Pair FtCommandRequest) ds) c)) = tc_commands c @ reqs \<and>
    wbytes (tc_wr (snd (tunnel_serve env (map (Pair FtCommandRequest) ds) c))) = wbytes (tc_wr c) @
      concat (map (\<lambda>r. frame_bytes (FtCommandResponse, encode (answer r))) reqs)"
proof (induction ds arbitrary: c reqs)
  case Nil
  then show ?case by simp
next
  case (Cons d ds)
  then obtain q qs where q: "reqs = q # qs" "te_request env d = Some q"
    "map (te_request env) ds = map Some qs" by (cases reqs) auto
  with Cons.prems Cons.IH[of qs "c\<lparr>tc_commands := tc_commands c @ [q],
      tc_wr := (tc_wr c)\<lparr>wbytes := wbytes (tc_wr c) @ frame_bytes (FtCommandResponse, encode (answer q))\<rparr>\<rparr>"]
  show ?case
    by (simp add: tunnel_handle_frame_def assms tunnel_write_def write_frame_open)
qed

text \<open>C39: A client that sends command requests gets every one of them to the application and one
  response frame back for each, in the order of the requests, and nothing else.\<close>

theorem tunnel_answers_commands_in_order:
  assumes "list_all frame_okay (map (Pair FtCommandRequest) ds)"
    and "map (te_request env) ds = map Some reqs"
    and "\<And>hist r. te_dispatch env hist r = Reply (answer r)"
    and "\<And>r. te_response env r = Some (encode r)"
    and "tc_rd c = reader_of (concat (map frame_bytes (map (Pair FtCommandRequest) ds)))"
    and "open_writer (tc_wr c)"
    and "tunnel_client_loop env None c = (res, c')"
  shows "res = Inr () \<and> tc_commands c' = tc_commands c @ reqs \<and>
    wbytes (tc_wr c') = wbytes (tc_wr c) @
      concat (map (\<lambda>r. frame_bytes (FtCommandResponse, encode (answer r))) reqs)"
proof -
  have c: "c\<lparr>tc_rd := reader_of (concat (map frame_bytes (map (Pair FtCommandRequest) ds)) @ [])\<rparr> = c"
    using assms(5) by (cases c) simp
  note serve = tunnel_serve_commands[OF assms(3,4,2,6)]
  from tunnel_loop_refines[OF assms(1) read_frame_eof, of env c] obtain r where
    "tunnel_client_loop env None c =
      (fst (tunnel_serve env (map (Pair FtCommandRequest) ds) c),
       (snd (tunnel_serve env (map (Pair FtCommandRequest) ds) c))\<lparr>tc_rd := r\<rparr>)"
    unfolding c by blast
  with assms(7) serve show ?thesis by auto
qed

text \<open>A codec and an application for the witness: requests are their first byte, the answer is the
  request's identifier.\<close>

definition echo_env :: "nat tunnel_env" where
  "echo_env =
     \<lparr>te_dispatch = (\<lambda>_ q. Reply \<lparr>resp_id = req_id q, resp_status = StatusOk, resp_data = None, resp_error = None\<rparr>),
      te_request = (\<lambda>b. Some \<lparr>req_id = str_of_bytes b, req_skill = [], req_action = [], req_params = length b\<rparr>),
      te_response = (\<lambda>r. Some (as_bytes (resp_id r))),
      te_bootstrap = (\<lambda>_. None), te_teardown = (\<lambda>_. None)\<rparr>"

theorem tunnel_answers_commands_in_order_witness:
  "wbytes (tc_wr (snd (tunnel_client_loop echo_env None
     \<lparr>tc_rd = reader_of (concat (map frame_bytes (map (Pair FtCommandRequest) [[65], [66]]))),
      tc_wr = fresh_writer, tc_commands = [], tc_trigger = None, tc_teardown = None\<rparr>))) =
   frame_bytes (FtCommandResponse, [65]) @ frame_bytes (FtCommandResponse, [66])"
proof -
  let ?c = "\<lparr>tc_rd = reader_of (concat (map frame_bytes (map (Pair FtCommandRequest) [[65], [66]]))),
      tc_wr = fresh_writer, tc_commands = ([] :: nat command_request list), tc_trigger = None, tc_teardown = None\<rparr>"
  let ?req = "\<lambda>b. \<lparr>req_id = str_of_bytes b, req_skill = [], req_action = [], req_params = length b\<rparr> :: nat command_request"
  let ?ans = "\<lambda>q :: nat command_request. \<lparr>resp_id = req_id q, resp_status = StatusOk, resp_data = None, resp_error = None\<rparr> :: nat command_response"
  have "list_all frame_okay (map (Pair FtCommandRequest) [[65], [66]])"
    by (simp add: frame_okay_def max_frame_def)
  moreover have "map (te_request echo_env) [[65], [66]] = map Some (map ?req [[65], [66]])"
    by (simp add: echo_env_def)
  moreover have "te_dispatch echo_env hist q = Reply (?ans q)" for hist q
    by (simp add: echo_env_def)
  moreover have "te_response echo_env a = Some (as_bytes (resp_id a))" for a
    by (simp add: echo_env_def)
  moreover have "open_writer (tc_wr ?c)" by simp
  ultimately have "wbytes (tc_wr (snd (tunnel_client_loop echo_env None ?c))) = wbytes (tc_wr ?c) @
      concat (map (\<lambda>q. frame_bytes (FtCommandResponse, as_bytes (resp_id (?ans q)))) (map ?req [[65], [66]]))"
    using tunnel_answers_commands_in_order[of "[[65], [66]]" echo_env "map ?req [[65], [66]]" ?ans
        "\<lambda>a. as_bytes (resp_id a)" ?c, OF _ _ _ _ _ _ surjective_pairing] by simp
  then show ?thesis by simp
qed

end
