(* ===== verification/Http.thy ===== *)
theory Http
  imports Strings
begin

text \<open>
  What the sources use of an HTTP client (\<open>reqwest\<close>): a request may fail to be sent, a response
  has a status and a body, \<open>is_success\<close> are the statuses 200 to 299, and \<open>error_for_status\<close>
  turns 400 to 599 into an error. The server at the other end is a parameter of the functions
  that call it.
\<close>

record http_response =
  status :: nat
  body :: bytes

datatype reqwest_error = RqSend string | RqStatus nat | RqDecode

type_synonym header = "string \<times> string"

definition is_success :: "nat \<Rightarrow> bool" where
  "is_success st \<longleftrightarrow> 200 \<le> st \<and> st \<le> 299"

definition error_for_status :: "http_response \<Rightarrow> reqwest_error + http_response" where
  "error_for_status r = (if 400 \<le> status r \<and> status r \<le> 599 then Inl (RqStatus (status r)) else Inr r)"

definition json_body :: "(bytes \<Rightarrow> 'a option) \<Rightarrow> http_response \<Rightarrow> reqwest_error + 'a" where
  "json_body decode r = (case decode (body r) of None \<Rightarrow> Inl RqDecode | Some a \<Rightarrow> Inr a)"

end
