(* ===== verification/Authorized_Keys.thy ===== *)
theory Authorized_Keys
  imports Tunnel Http
begin

text \<open>
  The key list synchronisation of \<open>rust/crates/roboat-core/src/authorized_keys.rs\<close>: fetching the
  robot's bootstrap document, merging its keys with the configured ones and replacing the
  tunnel server's list when it changed.
\<close>

section \<open>Service and documents\<close>

record agent_bootstrap =
  ab_robot_id :: "string option"
  ab_authorized_keys :: "string list"

record authorized_keys_response =
  akr_robot_id :: "string option"
  akr_authorized_keys :: "string list"

record sync_service =
  ss_api_url :: string
  ss_api_key :: string
  ss_interval :: u64
  ss_static_keys :: "string list"

definition normalize_keys :: "(string \<Rightarrow> string) \<Rightarrow> string list \<Rightarrow> string list" where
  "normalize_keys ulow keys =
     remdups_adj (sort (filter (\<lambda>k. k \<noteq> []) (map (\<lambda>k. to_lowercase ulow (trim k)) keys)))"

definition sync_service_new ::
  "(string \<Rightarrow> string) \<Rightarrow> string \<Rightarrow> string \<Rightarrow> u64 \<Rightarrow> string list \<Rightarrow> sync_service" where
  "sync_service_new ulow url key secs static =
     \<lparr>ss_api_url = url, ss_api_key = key, ss_interval = max secs 5,
      ss_static_keys = normalize_keys ulow static\<rparr>"

section \<open>Fetching\<close>

definition fetch_agent_bootstrap_with_client ::
  "(string \<Rightarrow> header list \<Rightarrow> reqwest_error + http_response) \<Rightarrow>
   (bytes \<Rightarrow> authorized_keys_response option) \<Rightarrow> string \<Rightarrow> string \<Rightarrow> reqwest_error + agent_bootstrap" where
  "fetch_agent_bootstrap_with_client http_get decode api_url api_key =
     (let url = trim_end_matches CHR ''/'' api_url @ ''/api/agent/authorized-keys'' in
      case http_get url [(''X-Robot-API-Key'', api_key)] of
        Inl e \<Rightarrow> Inl e
      | Inr resp \<Rightarrow>
          (case error_for_status resp of
             Inl e \<Rightarrow> Inl e
           | Inr resp \<Rightarrow>
               (case json_body decode resp of
                  Inl e \<Rightarrow> Inl e
                | Inr p \<Rightarrow>
                    Inr \<lparr>ab_robot_id =
                           Option.bind (map_option trim (akr_robot_id p))
                             (\<lambda>v. if v \<noteq> [] then Some v else None),
                         ab_authorized_keys = akr_authorized_keys p\<rparr>)))"

section \<open>Synchronising\<close>

definition sync_once ::
  "(string \<Rightarrow> string) \<Rightarrow> sync_service \<Rightarrow> reqwest_error + agent_bootstrap \<Rightarrow> tunnel_server \<Rightarrow> tunnel_server" where
  "sync_once ulow svc fetched ts =
     (case fetched of
        Inr p \<Rightarrow>
          (let merged_keys = normalize_keys ulow (ss_static_keys svc @ ab_authorized_keys p);
               current = tunnel_authorized_keys ts
           in if current \<noteq> merged_keys then tunnel_replace_authorized_keys ulow merged_keys ts else ts)
      | Inl e \<Rightarrow> ts)"

text \<open>The service loop: one synchronisation up front, then one per tick until a shutdown notice
  finds the flag set. A tick carries what its fetch returned.\<close>

datatype sync_event = SyncTick "reqwest_error + agent_bootstrap" | ShutdownChanged bool

fun sync_loop :: "(string \<Rightarrow> string) \<Rightarrow> sync_service \<Rightarrow> sync_event list \<Rightarrow> tunnel_server \<Rightarrow> tunnel_server" where
  "sync_loop ulow svc [] ts = ts"
| "sync_loop ulow svc (SyncTick fetched # es) ts = sync_loop ulow svc es (sync_once ulow svc fetched ts)"
| "sync_loop ulow svc (ShutdownChanged flag # es) ts = (if flag then ts else sync_loop ulow svc es ts)"

definition sync_run ::
  "(string \<Rightarrow> string) \<Rightarrow> sync_service \<Rightarrow> reqwest_error + agent_bootstrap \<Rightarrow> sync_event list \<Rightarrow>
   tunnel_server \<Rightarrow> tunnel_server" where
  "sync_run ulow svc fetched es ts = sync_loop ulow svc es (sync_once ulow svc fetched ts)"

section \<open>The list stays closed\<close>

lemma normalize_keys_eq: "normalize_keys = normalize_authorized_keys"
  by (simp add: fun_eq_iff normalize_keys_def normalize_authorized_keys_def)

lemma set_normalize_keys:
  "set (normalize_keys ulow keys) = (\<lambda>k. to_lowercase ulow (trim k)) ` set keys - {[]}"
  by (auto simp: normalize_keys_def)

definition keys_ascii :: "string list \<Rightarrow> bool" where
  "keys_ascii keys \<longleftrightarrow> list_all (list_all is_ascii) keys"

lemma normalize_keys_idem:
  assumes "keys_ascii keys"
  shows "normalize_keys ulow (normalize_keys ulow keys) = normalize_keys ulow keys"
proof -
  let ?n = "normalize_keys ulow keys"
  have fixed: "map (\<lambda>k. to_lowercase ulow (trim k)) ?n = ?n"
  proof (rule map_idI)
    fix k
    assume "k \<in> set ?n"
    then obtain k0 where "k = to_lowercase ulow (trim k0)" "list_all is_ascii k0"
      using assms by (auto simp: set_normalize_keys keys_ascii_def list_all_iff)
    then show "to_lowercase ulow (trim k) = k" using lower_trim_idem by simp
  qed
  have "filter (\<lambda>k. k \<noteq> []) ?n = ?n" by (auto simp: filter_id_conv set_normalize_keys)
  moreover have "sorted ?n" "distinct ?n"
    by (simp_all add: normalize_keys_def distinct_remdups_adj_sorted)
  ultimately show ?thesis
    by (subst normalize_keys_def) (simp add: fixed sorted_sort_id remdups_adj_distinct)
qed

text \<open>After a successful synchronisation the server's list is exactly the merge of the
  configured and the fetched keys, trimmed, lower-cased, sorted and without duplicates, whether
  or not it had to be replaced.\<close>

lemma sync_once_installs_merge:
  assumes "keys_ascii (ss_static_keys svc @ ab_authorized_keys p)"
    and "\<not> lock_poisoned (ts_authenticator ts)"
  shows "tunnel_authorized_keys (sync_once ulow svc (Inr p) ts)
       = normalize_keys ulow (ss_static_keys svc @ ab_authorized_keys p)"
  using assms normalize_keys_idem[OF assms(1), of ulow]
  by (simp add: sync_once_def Let_def tunnel_replace_authorized_keys_def tunnel_authorized_keys_def
      server_auth_keys_def server_auth_replace_def normalize_keys_eq)

lemma sync_once_installs_merge_example:
  "tunnel_authorized_keys (sync_once id \<lparr>ss_api_url = [], ss_api_key = [], ss_interval = 5, ss_static_keys = [''cd'']\<rparr>
     (Inr \<lparr>ab_robot_id = None, ab_authorized_keys = ['' AB ''] \<rparr>) (tunnel_server_new id 11411 [''ef''])) =
   normalize_keys id [''cd'', '' AB '']"
proof -
  let ?svc = "\<lparr>ss_api_url = [], ss_api_key = [], ss_interval = 5, ss_static_keys = [''cd'']\<rparr>"
  let ?p = "\<lparr>ab_robot_id = None, ab_authorized_keys = ['' AB ''] \<rparr>"
  have "keys_ascii (ss_static_keys ?svc @ ab_authorized_keys ?p)"
    by (simp add: keys_ascii_def is_ascii_def)
  moreover have "\<not> lock_poisoned (ts_authenticator (tunnel_server_new id 11411 [''ef'']))"
    by (simp add: tunnel_server_new_def server_auth_new_def)
  ultimately show ?thesis using sync_once_installs_merge[of ?svc ?p _ id] by simp
qed

text \<open>The configured keys, when there are any, keep the list from running empty.\<close>

definition static_closed :: "(string \<Rightarrow> string) \<Rightarrow> sync_service \<Rightarrow> bool" where
  "static_closed ulow svc \<longleftrightarrow>
     keys_ascii (ss_static_keys svc) \<and> normalize_keys ulow (ss_static_keys svc) \<noteq> []"

definition closed_inv :: "(string \<Rightarrow> string) \<Rightarrow> sync_service \<Rightarrow> tunnel_server \<Rightarrow> bool" where
  "closed_inv ulow svc ts \<longleftrightarrow> (static_closed ulow svc \<longrightarrow> tunnel_authorized_keys ts \<noteq> [])"

lemma merged_twice_nonempty:
  assumes "static_closed ulow svc"
  shows "normalize_keys ulow (normalize_keys ulow (ss_static_keys svc @ ks)) \<noteq> []"
proof -
  from assms obtain k where k: "k \<in> set (ss_static_keys svc)" "to_lowercase ulow (trim k) \<noteq> []"
    and a: "list_all is_ascii k"
    by (auto simp: static_closed_def keys_ascii_def list_all_iff set_normalize_keys
        simp flip: set_empty)
  then have "to_lowercase ulow (trim k) \<in> set (normalize_keys ulow (ss_static_keys svc @ ks))"
    by (auto simp: set_normalize_keys)
  then have "to_lowercase ulow (trim k) \<in> set (normalize_keys ulow (normalize_keys ulow (ss_static_keys svc @ ks)))"
    using k(2) lower_trim_idem[OF a, of ulow]
    by (subst set_normalize_keys) (metis (no_types, lifting) DiffI image_eqI singletonD)
  then show ?thesis by auto
qed

interpretation sk: step_system "\<lambda>ts fetched. sync_once ulow svc fetched ts" "closed_inv ulow svc"
  for ulow svc
proof
  fix ts fetched
  assume inv: "closed_inv ulow svc ts"
  show "closed_inv ulow svc (sync_once ulow svc fetched ts)"
  proof (cases fetched)
    case (Inl e)
    with inv show ?thesis by (simp add: sync_once_def)
  next
    case (Inr p)
    with inv merged_twice_nonempty[of ulow svc "ab_authorized_keys p"] show ?thesis
      by (auto simp: closed_inv_def sync_once_def Let_def tunnel_replace_authorized_keys_def
          tunnel_authorized_keys_def server_auth_keys_def server_auth_replace_def
          normalize_keys_eq[symmetric] split: if_splits)
  qed
qed

fun ticks :: "sync_event list \<Rightarrow> (reqwest_error + agent_bootstrap) list" where
  "ticks [] = []"
| "ticks (SyncTick f # es) = f # ticks es"
| "ticks (ShutdownChanged flag # es) = (if flag then [] else ticks es)"

lemma sync_loop_run_steps:
  "sync_loop ulow svc es ts = run_steps (\<lambda>ts fetched. sync_once ulow svc fetched ts) ts (ticks es)"
  by (induction ulow svc es ts rule: sync_loop.induct) auto

lemma sync_run_closed: "closed_inv ulow svc ts \<Longrightarrow> closed_inv ulow svc (sync_run ulow svc fetched es ts)"
  unfolding sync_run_def sync_loop_run_steps by (intro sk.run_inv sk.step_inv)

text \<open>C11: With at least one configured key, no sequence of fetches, failed or not and whatever they
  return, ever empties the list, so the server never falls back to admitting every key: whoever
  is admitted is on the list.\<close>

theorem sync_never_opens_the_server:
  assumes "static_closed ulow svc" and "tunnel_authorized_keys ts \<noteq> []"
    and "admitted (ts_authenticator (sync_run ulow svc fetched es ts)) k"
  shows "k \<in> set (tunnel_authorized_keys (sync_run ulow svc fetched es ts))"
proof -
  have "closed_inv ulow svc ts" using assms(2) by (simp add: closed_inv_def)
  then have "closed_inv ulow svc (sync_run ulow svc fetched es ts)" by (rule sync_run_closed)
  with assms(1,3) show ?thesis
    by (auto simp: closed_inv_def admitted_def tunnel_authorized_keys_def)
qed

theorem sync_never_opens_the_server_witness:
  "''cd'' \<in> set (tunnel_authorized_keys (sync_run id
     \<lparr>ss_api_url = [], ss_api_key = [], ss_interval = 5, ss_static_keys = [''cd'']\<rparr>
     (Inr \<lparr>ab_robot_id = None, ab_authorized_keys = []\<rparr>) [SyncTick (Inl RqDecode)]
     (tunnel_server_new id 11411 [''cd''])))"
proof -
  let ?svc = "\<lparr>ss_api_url = [], ss_api_key = [], ss_interval = 5, ss_static_keys = [''cd'']\<rparr>"
  have n: "normalize_keys id [''cd''] = [''cd'']" by code_simp
  have k: "tunnel_authorized_keys (tunnel_server_new id 11411 [''cd'']) = [''cd'']"
    using n by (simp add: tunnel_authorized_keys_def tunnel_server_new_def server_auth_new_def
        server_auth_keys_def normalize_keys_eq)
  have "static_closed id ?svc"
    using n by (simp add: static_closed_def keys_ascii_def is_ascii_def)
  moreover have "admitted (ts_authenticator (sync_run id ?svc
      (Inr \<lparr>ab_robot_id = None, ab_authorized_keys = []\<rparr>) [SyncTick (Inl RqDecode)]
      (tunnel_server_new id 11411 [''cd'']))) ''cd''"
    using n k by (simp add: sync_run_def sync_once_def admitted_def tunnel_authorized_keys_def)
  ultimately show ?thesis using k by (intro sync_never_opens_the_server) simp_all
qed

text \<open>Without configured keys the same synchronisation does open the server: a fetched list that is
  empty replaces the list by the empty one, which admits every key.\<close>

lemma sync_can_open_without_static_keys:
  "admitted (ts_authenticator (sync_once ulow \<lparr>ss_api_url = u, ss_api_key = a, ss_interval = i, ss_static_keys = []\<rparr>
     (Inr \<lparr>ab_robot_id = None, ab_authorized_keys = []\<rparr>) ts)) k"
  by (auto simp: sync_once_def Let_def normalize_keys_eq normalize_authorized_keys_Nil admitted_def
      tunnel_replace_authorized_keys_def tunnel_authorized_keys_def server_auth_keys_def server_auth_replace_def)

end
