(* ===== verification/Config.thy ===== *)
theory Config
  imports Strings
begin

text \<open>
  Configuration of the agent, \<open>rust/crates/roboat-core/src/config.rs\<close>: the configuration records
  with their defaults, loading a file, the environment overrides and the security validation.
  The file system, the TOML parser (which fills in the defaults of missing fields) and the
  process environment are parameters.
\<close>

section \<open>Records and defaults\<close>

datatype config_error = ConfigIo string | ConfigParse string | ConfigInvalid string

record server_config =
  listen_port :: u16
  sc_authorized_keys :: "string list"
  insecure_allow_any_client :: bool

record platform_config =
  api_url :: string
  api_key :: "string option"

record webrtc_settings =
  webrtc_enabled :: bool
  robot_id :: "string option"
  stun_timeout_secs :: u64

record heartbeat_config =
  interval_secs :: u64

record logging_config =
  log_level :: string

record agent_config =
  server :: server_config
  platform :: platform_config
  webrtc :: webrtc_settings
  heartbeat :: heartbeat_config
  logging :: logging_config

definition default_listen_port :: u16 where "default_listen_port = 11411"
definition default_api_url :: string where "default_api_url = ''https://api.robotunnel.io''"
definition default_heartbeat_interval :: u64 where "default_heartbeat_interval = 30"
definition default_webrtc_enabled :: bool where "default_webrtc_enabled = True"
definition default_stun_timeout_secs :: u64 where "default_stun_timeout_secs = 8"
definition default_log_level :: string where "default_log_level = ''info''"

definition server_config_default :: server_config where
  "server_config_default =
     \<lparr>listen_port = default_listen_port, sc_authorized_keys = [], insecure_allow_any_client = False\<rparr>"

definition platform_config_default :: platform_config where
  "platform_config_default = \<lparr>api_url = default_api_url, api_key = None\<rparr>"

definition heartbeat_config_default :: heartbeat_config where
  "heartbeat_config_default = \<lparr>interval_secs = default_heartbeat_interval\<rparr>"

definition webrtc_config_default :: webrtc_settings where
  "webrtc_config_default =
     \<lparr>webrtc_enabled = default_webrtc_enabled, robot_id = None, stun_timeout_secs = default_stun_timeout_secs\<rparr>"

definition logging_config_default :: logging_config where
  "logging_config_default = \<lparr>log_level = default_log_level\<rparr>"

definition agent_config_default :: agent_config where
  "agent_config_default =
     \<lparr>server = server_config_default, platform = platform_config_default, webrtc = webrtc_config_default,
      heartbeat = heartbeat_config_default, logging = logging_config_default\<rparr>"

section \<open>Parsing flags and keys\<close>

definition parse_bool :: "(string \<Rightarrow> string) \<Rightarrow> string \<Rightarrow> bool" where
  "parse_bool ulow v \<longleftrightarrow> to_lowercase ulow v \<in> {''1'', ''true'', ''yes'', ''on''}"

definition is_ascii_hexdigit :: "char \<Rightarrow> bool" where
  "is_ascii_hexdigit c \<longleftrightarrow>
     (let n = of_char c :: nat in
      (48 \<le> n \<and> n \<le> 57) \<or> (65 \<le> n \<and> n \<le> 70) \<or> (97 \<le> n \<and> n \<le> 102))"

definition is_valid_ed25519_public_key_hex :: "string \<Rightarrow> bool" where
  "is_valid_ed25519_public_key_hex value \<longleftrightarrow> length value = 64 \<and> list_all is_ascii_hexdigit value"

section \<open>Loading\<close>

definition config_load ::
  "(string \<Rightarrow> string + string) \<Rightarrow> (string \<Rightarrow> string + agent_config) \<Rightarrow> string \<Rightarrow> config_error + agent_config" where
  "config_load read_file toml path =
     (case read_file path of
        Inl e \<Rightarrow> Inl (ConfigIo e)
      | Inr content \<Rightarrow> (case toml content of Inl e \<Rightarrow> Inl (ConfigParse e) | Inr c \<Rightarrow> Inr c))"

definition override_string :: "string option \<Rightarrow> (string \<Rightarrow> agent_config \<Rightarrow> agent_config) \<Rightarrow> agent_config \<Rightarrow> agent_config" where
  "override_string v f c = (case v of None \<Rightarrow> c | Some x \<Rightarrow> f x c)"

definition env_authorized_keys :: "string \<Rightarrow> string list" where
  "env_authorized_keys keys = filter (\<lambda>v. v \<noteq> []) (map trim (split_on CHR '','' keys))"

definition apply_env_overrides ::
  "(string \<Rightarrow> string) \<Rightarrow> (string \<Rightarrow> string option) \<Rightarrow> agent_config \<Rightarrow> agent_config" where
  "apply_env_overrides ulow env c0 =
     (let c1 = override_string (env ''ROBOAT_API_KEY'')
                 (\<lambda>key c. c\<lparr>platform := (platform c)\<lparr>api_key := Some key\<rparr>\<rparr>) c0;
          c2 = override_string (env ''ROBOAT_API_URL'')
                 (\<lambda>url c. c\<lparr>platform := (platform c)\<lparr>api_url := url\<rparr>\<rparr>) c1;
          c3 = override_string (env ''ROBOAT_LISTEN_PORT'')
                 (\<lambda>port c. case parse_uint (2 ^ 16) port of
                    None \<Rightarrow> c
                  | Some p \<Rightarrow> c\<lparr>server := (server c)\<lparr>listen_port := word_of_nat p\<rparr>\<rparr>) c2;
          c4 = override_string (env ''ROBOAT_AUTHORIZED_KEYS'')
                 (\<lambda>keys c. c\<lparr>server := (server c)\<lparr>sc_authorized_keys := env_authorized_keys keys\<rparr>\<rparr>) c3;
          c5 = override_string (env ''ROBOAT_INSECURE_ALLOW_ANY_CLIENT'')
                 (\<lambda>v c. c\<lparr>server := (server c)\<lparr>insecure_allow_any_client := parse_bool ulow v\<rparr>\<rparr>) c4;
          c6 = override_string (env ''ROBOAT_LOG_LEVEL'')
                 (\<lambda>level c. c\<lparr>logging := (logging c)\<lparr>log_level := level\<rparr>\<rparr>) c5;
          c7 = override_string (env ''ROBOAT_WEBRTC_ENABLED'')
                 (\<lambda>v c. c\<lparr>webrtc := (webrtc c)\<lparr>webrtc_enabled :=
                    to_lowercase ulow v \<in> {''1'', ''true'', ''yes'', ''on''}\<rparr>\<rparr>) c6;
          c8 = override_string (env ''ROBOAT_ROBOT_ID'')
                 (\<lambda>rid c. if trim rid \<noteq> [] then c\<lparr>webrtc := (webrtc c)\<lparr>robot_id := Some rid\<rparr>\<rparr> else c) c7
      in override_string (env ''ROBOAT_WEBRTC_STUN_TIMEOUT_SECS'')
           (\<lambda>t c. case parse_uint (2 ^ 64) t of
              None \<Rightarrow> c
            | Some v \<Rightarrow> c\<lparr>webrtc := (webrtc c)\<lparr>stun_timeout_secs := word_of_nat v\<rparr>\<rparr>) c8)"

text \<open>The validation rewrites the key list before it checks it, so the rewritten configuration is
  returned in every case.\<close>

definition validate_security ::
  "(string \<Rightarrow> string) \<Rightarrow> agent_config \<Rightarrow> (config_error + unit) \<times> agent_config" where
  "validate_security ulow c =
     (let keys = filter (\<lambda>k. k \<noteq> []) (map (\<lambda>k. to_lowercase ulow (trim k)) (sc_authorized_keys (server c)));
          c' = c\<lparr>server := (server c)\<lparr>sc_authorized_keys := keys\<rparr>\<rparr>
      in (case find (\<lambda>k. \<not> is_valid_ed25519_public_key_hex k) keys of
            Some key \<Rightarrow>
              (Inl (ConfigInvalid (''server.authorized_keys contains invalid Ed25519 public key: '' @ key)), c')
          | None \<Rightarrow>
              if keys = [] \<and> \<not> insecure_allow_any_client (server c) then
                (Inl (ConfigInvalid (''server.authorized_keys is empty. Configure an allowlist or set '' @
                   ''server.insecure_allow_any_client=true only for local development.'')), c')
              else (Inr (), c')))"

definition load_with_env ::
  "(string \<Rightarrow> string) \<Rightarrow> (string \<Rightarrow> string + string) \<Rightarrow> (string \<Rightarrow> string + agent_config) \<Rightarrow>
   (string \<Rightarrow> string option) \<Rightarrow> string \<Rightarrow> config_error + agent_config" where
  "load_with_env ulow read_file toml env path =
     (case config_load read_file toml path of
        Inl e \<Rightarrow> Inl e
      | Inr c \<Rightarrow>
          (case validate_security ulow (apply_env_overrides ulow env c) of
             (Inl e, c') \<Rightarrow> Inl e
           | (Inr _, c') \<Rightarrow> Inr c'))"

section \<open>What a loaded configuration guarantees\<close>

lemma validate_security_InrD:
  assumes "validate_security ulow c = (Inr u, c')"
  shows "list_all is_valid_ed25519_public_key_hex (sc_authorized_keys (server c')) \<and>
    (sc_authorized_keys (server c') \<noteq> [] \<or> insecure_allow_any_client (server c'))"
  using assms
  by (auto simp: validate_security_def Let_def find_None_iff list_all_iff split: option.splits if_splits)

lemma load_with_env_InrD:
  assumes "load_with_env ulow read_file toml env path = Inr c"
  shows "list_all is_valid_ed25519_public_key_hex (sc_authorized_keys (server c)) \<and>
    (sc_authorized_keys (server c) \<noteq> [] \<or> insecure_allow_any_client (server c))"
proof -
  from assms obtain c0 u where "validate_security ulow (apply_env_overrides ulow env c0) = (Inr u, c)"
    by (auto simp: load_with_env_def split: sum.splits prod.splits)
  then show ?thesis by (rule validate_security_InrD)
qed

text \<open>C12: A configuration that loads has only well-formed keys (64 hexadecimal digits), and at least
  one of them unless the insecure mode is set.\<close>

theorem loaded_config_is_secure:
  assumes "load_with_env ulow read_file toml env path = Inr c"
  shows "list_all is_valid_ed25519_public_key_hex (sc_authorized_keys (server c)) \<and>
    (sc_authorized_keys (server c) \<noteq> [] \<or> insecure_allow_any_client (server c))"
  using assms by (rule load_with_env_InrD)

definition sample_key :: string where
  "sample_key = replicate 64 CHR ''A''"

definition sample_config :: agent_config where
  "sample_config = agent_config_default\<lparr>server := server_config_default\<lparr>sc_authorized_keys := [sample_key]\<rparr>\<rparr>"

lemma sample_key_normal: "to_lowercase id (trim sample_key) = replicate 64 CHR ''a''"
  by code_simp

lemma sample_config_valid:
  "validate_security id sample_config =
     (Inr (), sample_config\<lparr>server := (server sample_config)\<lparr>sc_authorized_keys := [replicate 64 CHR ''a'']\<rparr>\<rparr>)"
  by (simp add: validate_security_def sample_config_def Let_def sample_key_normal
      is_valid_ed25519_public_key_hex_def list_all_iff is_ascii_hexdigit_def
      agent_config_default_def server_config_default_def)

theorem loaded_config_is_secure_witness:
  "list_all is_valid_ed25519_public_key_hex (sc_authorized_keys (server (projr
     (load_with_env id (\<lambda>_. Inr []) (\<lambda>_. Inr sample_config) (\<lambda>_. None) ''agent.toml''))))"
proof -
  have "load_with_env id (\<lambda>_. Inr []) (\<lambda>_. Inr sample_config) (\<lambda>_. None) ''agent.toml'' =
      Inr (sample_config\<lparr>server := (server sample_config)\<lparr>sc_authorized_keys := [replicate 64 CHR ''a'']\<rparr>\<rparr>)"
    by (simp add: load_with_env_def config_load_def apply_env_overrides_def override_string_def
        Let_def sample_config_valid)
  with loaded_config_is_secure[OF this] show ?thesis by simp
qed

end
