(* ===== verification/Ros.thy ===== *)
theory Ros
  imports Strings
begin

text \<open>
  Building ROS 2 shell commands, \<open>rust/crates/roboat-core/src/ros.rs\<close>: where the setup script is
  looked for, how arguments are quoted and how a command is wrapped. The environment and the
  file system (\<open>is_file\<close>) are parameters.
\<close>

definition known_ros_distros :: "string list" where
  "known_ros_distros = [''jazzy'', ''humble'', ''iron'', ''rolling'', ''galactic'', ''foxy'']"

definition ament_candidate :: "string \<Rightarrow> string option" where
  "ament_candidate value =
     map_option (\<lambda>prefix. trim_end_matches CHR ''/'' prefix @ ''/setup.bash'')
       (find (\<lambda>part. trim part \<noteq> []) (split_on CHR '':'' value))"

definition distro_candidate :: "string \<Rightarrow> string" where
  "distro_candidate distro = ''/opt/ros/'' @ distro @ ''/setup.bash''"

definition somes :: "'a option list \<Rightarrow> 'a list" where
  "somes xs = map the (filter (\<lambda>x. x \<noteq> None) xs)"

definition ros_setup_script_path :: "(string \<Rightarrow> string option) \<Rightarrow> (string \<Rightarrow> bool) \<Rightarrow> string option" where
  "ros_setup_script_path env is_file =
     (let configured = map trim (somes [env ''ROBOAT_ROS_SETUP'', env ''ROS_SETUP'',
                         Option.bind (env ''AMENT_PREFIX_PATH'') ament_candidate])
      in case find is_file configured of
           Some c \<Rightarrow> Some c
         | None \<Rightarrow>
             (case Option.bind (env ''ROS_DISTRO'')
                     (\<lambda>d. let c = distro_candidate (trim d) in if is_file c then Some c else None) of
                Some c \<Rightarrow> Some c
              | None \<Rightarrow> find is_file (map distro_candidate known_ros_distros)))"

definition shell_quote :: "string \<Rightarrow> string" where
  "shell_quote value =
     [CHR 0x27] @ replace_char CHR 0x27 [CHR 0x27, CHR 0x22, CHR 0x27, CHR 0x22, CHR 0x27] value @ [CHR 0x27]"

definition wrap_ros_shell :: "(string \<Rightarrow> string option) \<Rightarrow> (string \<Rightarrow> bool) \<Rightarrow> string \<Rightarrow> string" where
  "wrap_ros_shell env is_file command0 =
     (let command = trim command0 in
      if command = [] then []
      else case ros_setup_script_path env is_file of
             Some setup \<Rightarrow> ''. '' @ shell_quote setup @ '' >/dev/null 2>&1 && '' @ command
           | None \<Rightarrow> command)"

definition ros2_command :: "string list \<Rightarrow> string" where
  "ros2_command args = foldl (\<lambda>command arg. command @ '' '' @ shell_quote arg) ''exec ros2'' args"

definition ros2_shell_command ::
  "(string \<Rightarrow> string option) \<Rightarrow> (string \<Rightarrow> bool) \<Rightarrow> string list \<Rightarrow> string" where
  "ros2_shell_command env is_file args = wrap_ros_shell env is_file (ros2_command args)"

section \<open>How a POSIX shell reads the command\<close>

text \<open>The part of the shell's word splitting that matters here: blanks separate words, single and
  double quotes group, and any other character with a meaning to the shell makes the text more
  than a list of literal words (\<open>None\<close>).\<close>

datatype sh_mode = ShBlank | ShWord | ShSingle | ShDouble

definition sh_special :: "char \<Rightarrow> bool" where
  "sh_special c \<longleftrightarrow> c \<in> set ''$;&|<>()*?[]{}#~=%!^'' \<or> c \<in> {CHR 0x5C, CHR 0x60, CHR 0x0A, CHR 0x0D, CHR 0x09}"

fun sh_words :: "sh_mode \<Rightarrow> string \<Rightarrow> string \<Rightarrow> string list option" where
  "sh_words ShBlank acc [] = Some []"
| "sh_words ShWord acc [] = Some [acc]"
| "sh_words ShSingle acc [] = None"
| "sh_words ShDouble acc [] = None"
| "sh_words ShBlank acc (c # s) =
     (if c = CHR 0x20 then sh_words ShBlank [] s
      else if c = CHR 0x27 then sh_words ShSingle [] s
      else if c = CHR 0x22 then sh_words ShDouble [] s
      else if sh_special c then None else sh_words ShWord [c] s)"
| "sh_words ShWord acc (c # s) =
     (if c = CHR 0x20 then map_option (\<lambda>ws. acc # ws) (sh_words ShBlank [] s)
      else if c = CHR 0x27 then sh_words ShSingle acc s
      else if c = CHR 0x22 then sh_words ShDouble acc s
      else if sh_special c then None else sh_words ShWord (acc @ [c]) s)"
| "sh_words ShSingle acc (c # s) =
     (if c = CHR 0x27 then sh_words ShWord acc s else sh_words ShSingle (acc @ [c]) s)"
| "sh_words ShDouble acc (c # s) =
     (if c = CHR 0x22 then sh_words ShWord acc s
      else if c \<in> {CHR ''$'', CHR 0x60, CHR 0x5C} then None else sh_words ShDouble (acc @ [c]) s)"

lemma sh_single_quoted:
  "sh_words ShSingle acc
     (replace_char CHR 0x27 [CHR 0x27, CHR 0x22, CHR 0x27, CHR 0x22, CHR 0x27] v @ CHR 0x27 # rest) =
   sh_words ShWord (acc @ v) rest"
  by (induction v arbitrary: acc) (simp_all add: replace_char_def)

lemma sh_quoted: "sh_words ShBlank acc (shell_quote v @ rest) = sh_words ShWord v rest"
  using sh_single_quoted[of "[]" v rest] by (simp add: shell_quote_def)

lemma sh_quoted_args:
  "sh_words ShWord w (concat (map (\<lambda>a. CHR 0x20 # shell_quote a) args)) = Some (w # args)"
proof (induction args arbitrary: w)
  case Nil
  then show ?case by simp
next
  case (Cons a args)
  have "sh_words ShBlank [] (shell_quote a @ concat (map (\<lambda>a. CHR 0x20 # shell_quote a) args)) =
      Some (a # args)"
    using Cons.IH[of a] by (simp only: sh_quoted)
  then show ?case by simp
qed

lemma ros2_command_concat: "ros2_command args = ''exec ros2'' @ concat (map (\<lambda>a. CHR 0x20 # shell_quote a) args)"
proof -
  have "foldl (\<lambda>command arg. command @ '' '' @ shell_quote arg) pre args =
      pre @ concat (map (\<lambda>a. CHR 0x20 # shell_quote a) args)" for pre
    by (induction args arbitrary: pre) simp_all
  then show ?thesis by (simp add: ros2_command_def)
qed

lemma sh_ros2_command: "sh_words ShBlank [] (ros2_command args) = Some (''exec'' # ''ros2'' # args)"
proof -
  have "sh_words ShBlank [] (''exec ros2'' @ rest) = map_option (\<lambda>ws. ''exec'' # ws) (sh_words ShWord ''ros2'' rest)" for rest
    by (simp add: sh_special_def)
  then show ?thesis by (simp only: ros2_command_concat sh_quoted_args) simp
qed

lemma last_shell_quote: "last (shell_quote v) = CHR 0x27"
  by (simp add: shell_quote_def)

lemma trim_ros2_command: "trim (ros2_command args) = ros2_command args"
proof (rule trim_visible)
  show "visible (hd (ros2_command args))" by (simp add: ros2_command_concat visible_def)
  show "visible (last (ros2_command args))"
  proof (cases args rule: rev_cases)
    case Nil
    then show ?thesis by (simp add: ros2_command_concat visible_def)
  next
    case (snoc xs x)
    then have "ros2_command args = (''exec ros2'' @ concat (map (\<lambda>a. CHR 0x20 # shell_quote a) xs) @ [CHR 0x20]) @ shell_quote x"
      by (simp add: ros2_command_concat)
    moreover have "shell_quote x \<noteq> []" by (simp add: shell_quote_def)
    ultimately have "last (ros2_command args) = CHR 0x27" by (metis last_appendR last_shell_quote)
    then show ?thesis by (simp add: visible_def)
  qed
qed

text \<open>C40: Whatever characters the arguments hold (quotes, dollars, semicolons, newlines), the shell
  reads the built command as the words exec, ros2 and the arguments themselves; with a setup
  script the command is preceded only by sourcing the script, whose path is one literal word.\<close>

theorem ros2_arguments_are_literal:
  "sh_words ShBlank [] (ros2_command args) = Some (''exec'' # ''ros2'' # args) \<and>
   ros2_shell_command env is_file args =
     (case ros_setup_script_path env is_file of
        None \<Rightarrow> ros2_command args
      | Some setup \<Rightarrow> ''. '' @ shell_quote setup @ '' >/dev/null 2>&1 && '' @ ros2_command args) \<and>
   sh_words ShBlank [] (shell_quote path) = Some [path]"
proof -
  have "ros2_command args \<noteq> []" by (simp add: ros2_command_concat)
  then have "ros2_shell_command env is_file args =
     (case ros_setup_script_path env is_file of
        None \<Rightarrow> ros2_command args
      | Some setup \<Rightarrow> ''. '' @ shell_quote setup @ '' >/dev/null 2>&1 && '' @ ros2_command args)"
    by (simp add: ros2_shell_command_def wrap_ros_shell_def trim_ros2_command Let_def split: option.splits)
  with sh_ros2_command sh_quoted[of "[]" path "[]"] show ?thesis by simp
qed

end
