(* ===== verification/Heartbeat.thy ===== *)
theory Heartbeat
  imports Http
begin

text \<open>
  The platform heartbeat of \<open>rust/crates/roboat-core/src/heartbeat.rs\<close>: the payload with its
  network profile, the container and Docker tags, the IPv4 test behind them and the service
  loop. The probes of the host (a marker file, a control-group file, the socket that reveals
  the local address) are parameters, as is the server the heartbeat is posted to.
\<close>

record heartbeat_service =
  hs_api_url :: string
  hs_api_key :: string
  hs_interval :: u64

record network_profile =
  private_addrs :: "string list"
  public_ip_hint :: "string option"
  transport_caps :: "string list"
  network_tags :: "string list"

record heartbeat_payload =
  hp_api_key :: string
  hp_local_ip :: "string option"
  hp_network_profile :: "network_profile option"

definition heartbeat_service_new :: "string \<Rightarrow> string \<Rightarrow> u64 \<Rightarrow> heartbeat_service" where
  "heartbeat_service_new url key secs = \<lparr>hs_api_url = url, hs_api_key = key, hs_interval = secs\<rparr>"

section \<open>Tags\<close>

definition push_tag :: "string list \<Rightarrow> string \<Rightarrow> string list" where
  "push_tag tags tag = (if tag \<in> set tags then tags else tags @ [tag])"

text \<open>Dotted IPv4 text as \<open>Ipv4Addr\<close> parses it: four decimal numbers below 256 of at most three
  digits, none with a leading zero.\<close>

definition parse_octet :: "string \<Rightarrow> nat option" where
  "parse_octet s =
     (if s = [] \<or> 3 < length s \<or> \<not> list_all is_digit s \<or> (1 < length s \<and> hd s = CHR ''0'') then None
      else let n = foldl (\<lambda>a c. a * 10 + digit_val c) 0 s in if n < 256 then Some n else None)"

definition parse_ipv4 :: "string \<Rightarrow> nat list option" where
  "parse_ipv4 s =
     (let os = map parse_octet (split_on CHR ''.'' s) in
      if length os = 4 \<and> None \<notin> set os then Some (map the os) else None)"

definition is_likely_docker_bridge_ipv4 :: "string \<Rightarrow> bool" where
  "is_likely_docker_bridge_ipv4 ip =
     (case parse_ipv4 (trim ip) of
        None \<Rightarrow> False
      | Some octets \<Rightarrow> octets ! 0 = 172 \<and> 17 \<le> octets ! 1 \<and> octets ! 1 \<le> 31)"

definition nonempty_trimmed :: "string option \<Rightarrow> string option" where
  "nonempty_trimmed ip = Option.bind (map_option trim ip) (\<lambda>s. if s \<noteq> [] then Some s else None)"

definition detect_network_tags ::
  "(string \<Rightarrow> string) \<Rightarrow> bool \<Rightarrow> string option \<Rightarrow> string option \<Rightarrow> string list" where
  "detect_network_tags ulow docker_env cgroup_file local_ip =
     (let cgroup = to_lowercase ulow (case cgroup_file of None \<Rightarrow> [] | Some s \<Rightarrow> s);
          docker_cgroup = contains_str cgroup ''docker'';
          container_cgroup = docker_cgroup \<or> contains_str cgroup ''containerd'' \<or>
            contains_str cgroup ''kubepods'' \<or> contains_str cgroup ''libpod'';
          tags1 = (if docker_env \<or> docker_cgroup
                   then push_tag (push_tag [] ''runtime:docker'') ''runtime:container''
                   else if container_cgroup then push_tag [] ''runtime:container'' else []);
          tags2 = (if ''runtime:container'' \<in> set tags1 then push_tag tags1 ''network:containerized'' else tags1)
      in if ''runtime:docker'' \<in> set tags2 \<and>
            (case nonempty_trimmed local_ip of None \<Rightarrow> False | Some ip \<Rightarrow> is_likely_docker_bridge_ipv4 ip)
         then push_tag (push_tag tags2 ''network:docker_bridge'') ''network:container_nat'' else tags2)"

section \<open>Payload\<close>

definition build_network_profile ::
  "(string \<Rightarrow> string) \<Rightarrow> bool \<Rightarrow> string option \<Rightarrow> string option \<Rightarrow> network_profile option" where
  "build_network_profile ulow docker_env cgroup_file local_ip =
     Some \<lparr>private_addrs = (case nonempty_trimmed local_ip of None \<Rightarrow> [] | Some ip \<Rightarrow> [ip]),
           public_ip_hint = None,
           transport_caps = [''lan_tcp'', ''public_tcp'', ''stun_p2p'', ''turn_relay'', ''platform_relay''],
           network_tags = detect_network_tags ulow docker_env cgroup_file local_ip\<rparr>"

definition heartbeat_request ::
  "(string \<Rightarrow> string) \<Rightarrow> bool \<Rightarrow> string option \<Rightarrow> heartbeat_service \<Rightarrow> string option \<Rightarrow> string \<times> heartbeat_payload" where
  "heartbeat_request ulow docker_env cgroup_file svc local_ip =
     (hs_api_url svc @ ''/api/heartbeat'',
      \<lparr>hp_api_key = hs_api_key svc, hp_local_ip = local_ip,
       hp_network_profile = build_network_profile ulow docker_env cgroup_file local_ip\<rparr>)"

datatype heartbeat_result = HbSent | HbServerReturned nat | HbFailed reqwest_error

definition send_heartbeat ::
  "(string \<times> heartbeat_payload \<Rightarrow> reqwest_error + http_response) \<Rightarrow> (string \<Rightarrow> string) \<Rightarrow> bool \<Rightarrow>
   string option \<Rightarrow> heartbeat_service \<Rightarrow> string option \<Rightarrow> heartbeat_result" where
  "send_heartbeat post ulow docker_env cgroup_file svc local_ip =
     (case post (heartbeat_request ulow docker_env cgroup_file svc local_ip) of
        Inr resp \<Rightarrow> if is_success (status resp) then HbSent else HbServerReturned (status resp)
      | Inl e \<Rightarrow> HbFailed e)"

text \<open>Local address detection: each socket call may fail.\<close>

definition heartbeat_detect_local_ip :: "bool \<Rightarrow> bool \<Rightarrow> string option \<Rightarrow> string option" where
  "heartbeat_detect_local_ip bound connected local_addr =
     (if \<not> bound then None else if \<not> connected then None else local_addr)"

text \<open>The service loop: the results of its heartbeats, in order, until a shutdown notice finds the
  flag set. The timer panics on a zero period, before the first heartbeat.\<close>

datatype hb_event = HbTick "string \<times> heartbeat_payload \<Rightarrow> reqwest_error + http_response" | HbShutdown bool

fun heartbeat_loop ::
  "(string \<Rightarrow> string) \<Rightarrow> bool \<Rightarrow> string option \<Rightarrow> heartbeat_service \<Rightarrow> string option \<Rightarrow> hb_event list \<Rightarrow>
   heartbeat_result list" where
  "heartbeat_loop ulow de cg svc ip [] = []"
| "heartbeat_loop ulow de cg svc ip (HbTick post # es) =
     send_heartbeat post ulow de cg svc ip # heartbeat_loop ulow de cg svc ip es"
| "heartbeat_loop ulow de cg svc ip (HbShutdown flag # es) =
     (if flag then [] else heartbeat_loop ulow de cg svc ip es)"

definition heartbeat_run ::
  "(string \<Rightarrow> string) \<Rightarrow> bool \<Rightarrow> string option \<Rightarrow> heartbeat_service \<Rightarrow> string option \<Rightarrow> hb_event list \<Rightarrow>
   heartbeat_result list option" where
  "heartbeat_run ulow de cg svc ip es =
     (if hs_interval svc = 0 then None else Some (heartbeat_loop ulow de cg svc ip es))"

section \<open>Tags are consistent\<close>

text \<open>The reported tags have no duplicates; a host is containerized exactly when it runs in a
  container, Docker implies a container, and the Docker bridge and container NAT tags come
  together, exactly on a Docker host whose own address is a bridge address
  (172.17.0.0 to 172.31.255.255).\<close>

lemma network_tags_consistent:
  assumes "tags = detect_network_tags ulow docker_env cgroup_file local_ip"
  shows "distinct tags \<and>
    (''network:containerized'' \<in> set tags \<longleftrightarrow> ''runtime:container'' \<in> set tags) \<and>
    (''runtime:docker'' \<in> set tags \<longrightarrow> ''runtime:container'' \<in> set tags) \<and>
    (''network:docker_bridge'' \<in> set tags \<longleftrightarrow> ''network:container_nat'' \<in> set tags) \<and>
    (''network:docker_bridge'' \<in> set tags \<longleftrightarrow> ''runtime:docker'' \<in> set tags \<and>
       (\<exists>ip. local_ip = Some ip \<and> trim ip \<noteq> [] \<and> is_likely_docker_bridge_ipv4 (trim ip)))"
  unfolding assms
  by (cases local_ip)
    (auto simp: detect_network_tags_def push_tag_def nonempty_trimmed_def Let_def)

lemma network_tags_consistent_example:
  "''network:docker_bridge'' \<in> set (detect_network_tags id True None (Some ''172.17.0.2''))"
proof -
  have "''runtime:docker'' \<in> set (detect_network_tags id True None (Some ''172.17.0.2''))"
    by code_simp
  moreover have "trim ''172.17.0.2'' \<noteq> []" "is_likely_docker_bridge_ipv4 (trim ''172.17.0.2'')"
    by code_simp+
  ultimately show ?thesis
    using network_tags_consistent[OF refl, of id True None "Some ''172.17.0.2''"] by blast
qed

end
