(* ===== verification/Ipc.thy ===== *)
theory Ipc
  imports Protocol
begin

text \<open>
  The local protocol between an agent process and the daemon,
  \<open>rust/crates/roboat-daemon/src/ipc.rs\<close>: stream classes, the messages of both directions and
  their length-prefixed framing with the 4 MiB limit. The JSON codec is serde's, a parameter.
\<close>

definition max_msg_size :: nat where
  "max_msg_size = 4 * 1024 * 1024"

datatype ipc_error = IpcIo io_error | IpcJson string | TooLarge nat | IpcClosed

section \<open>Stream classes\<close>

datatype stream_class = Control | Meta | Bulk

definition stream_class_default :: stream_class where
  "stream_class_default = Control"

fun class_as_byte :: "stream_class \<Rightarrow> byte" where
  "class_as_byte Control = 0x01"
| "class_as_byte Meta = 0x02"
| "class_as_byte Bulk = 0x03"

definition class_from_byte :: "byte \<Rightarrow> stream_class" where
  "class_from_byte b = (if b = 0x02 then Meta else if b = 0x03 then Bulk else Control)"

lemma class_from_as_byte [simp]: "class_from_byte (class_as_byte c) = c"
  by (cases c) (simp_all add: class_from_byte_def)

section \<open>Messages\<close>

datatype agent_msg =
    Listen (listen_agent_id: string) (registry_token: "string option") (tunnel_endpoint: "string option")
  | Unlisten
  | Dial (target_agent_id: string) (dial_class: stream_class) (request_id: "string option")
  | Send (send_stream_id: u32) (send_data: string)
  | Close (close_stream_id: u32)
  | Ping

datatype daemon_msg =
    Listening string
  | Connected u32 string "string option"
  | Incoming u32 string stream_class
  | Recv u32 string
  | Closed u32 "string option"
  | Pong
  | Error string string "string option"

section \<open>Framing\<close>

definition ipc_write :: "('m \<Rightarrow> string + bytes) \<Rightarrow> 'm \<Rightarrow> (writer, ipc_error, unit) io" where
  "ipc_write to_vec msg =
     (case to_vec msg of
        Inl e \<Rightarrow> io_fail (IpcJson e)
      | Inr json \<Rightarrow>
          if max_msg_size < length json then io_fail (TooLarge (length json))
          else
            io_bind (io_map_err IpcIo (write_u32 (word_of_nat (length json)))) (\<lambda>_.
            io_bind (io_map_err IpcIo (write_all json)) (\<lambda>_.
            io_bind (io_map_err IpcIo flush) (\<lambda>_. io_return ()))))"

definition eof_is_closed :: "io_error \<Rightarrow> ipc_error" where
  "eof_is_closed e = (if e = UnexpectedEof then IpcClosed else IpcIo e)"

definition ipc_read :: "(bytes \<Rightarrow> string + 'm) \<Rightarrow> (reader, ipc_error, 'm) io" where
  "ipc_read from_slice =
     io_bind (io_map_err eof_is_closed read_u32) (\<lambda>len.
     if max_msg_size < unat len then io_fail (TooLarge (unat len))
     else
       io_bind (io_map_err eof_is_closed (read_exact (unat len))) (\<lambda>buf.
       case from_slice buf of Inl e \<Rightarrow> io_fail (IpcJson e) | Inr msg \<Rightarrow> io_return msg))"

definition write_daemon_msg :: "(daemon_msg \<Rightarrow> string + bytes) \<Rightarrow> daemon_msg \<Rightarrow> (writer, ipc_error, unit) io" where
  "write_daemon_msg to_vec msg = ipc_write to_vec msg"

definition read_agent_msg :: "(bytes \<Rightarrow> string + agent_msg) \<Rightarrow> (reader, ipc_error, agent_msg) io" where
  "read_agent_msg from_slice = ipc_read from_slice"

definition read_daemon_msg :: "(bytes \<Rightarrow> string + daemon_msg) \<Rightarrow> (reader, ipc_error, daemon_msg) io" where
  "read_daemon_msg from_slice = ipc_read from_slice"

definition write_agent_msg :: "(agent_msg \<Rightarrow> string + bytes) \<Rightarrow> agent_msg \<Rightarrow> (writer, ipc_error, unit) io" where
  "write_agent_msg to_vec msg = ipc_write to_vec msg"

section \<open>Messages survive the trip\<close>

text \<open>A message the codec handles: it encodes within the limit and decodes to itself.\<close>

definition ipc_okay :: "('m \<Rightarrow> string + bytes) \<Rightarrow> (bytes \<Rightarrow> string + 'm) \<Rightarrow> 'm \<Rightarrow> bool" where
  "ipc_okay to_vec from_slice msg =
     (case to_vec msg of
        Inl _ \<Rightarrow> False
      | Inr json \<Rightarrow> length json \<le> max_msg_size \<and> from_slice json = Inr msg)"

definition ipc_bytes :: "('m \<Rightarrow> string + bytes) \<Rightarrow> 'm \<Rightarrow> bytes" where
  "ipc_bytes to_vec msg =
     (case to_vec msg of Inl _ \<Rightarrow> [] | Inr json \<Rightarrow> u32_to_be_bytes (word_of_nat (length json)) @ json)"

lemma ipc_write_open:
  "open_writer w \<Longrightarrow> ipc_okay to_vec from_slice msg \<Longrightarrow>
     ipc_write to_vec msg w = (Inr (), w\<lparr>wbytes := wbytes w @ ipc_bytes to_vec msg\<rparr>)"
  by (auto simp: ipc_write_def ipc_okay_def ipc_bytes_def io_bind_def io_map_err_def io_return_def
      write_word_defs write_all_open flush_open split: sum.splits)

lemma ipc_read_bytes:
  assumes "ipc_okay to_vec from_slice msg"
  shows "ipc_read from_slice (r\<lparr>rbytes := ipc_bytes to_vec msg @ bs\<rparr>) = (Inr msg, r\<lparr>rbytes := bs\<rparr>)"
proof -
  obtain json where j: "to_vec msg = Inr json" "length json \<le> max_msg_size" "from_slice json = Inr msg"
    using assms by (auto simp: ipc_okay_def split: sum.splits)
  then have "unat (word_of_nat (length json) :: u32) = length json"
    by (intro unat_u32_of_nat) (simp add: max_msg_size_def)
  with j show ?thesis
    by (simp add: ipc_read_def ipc_bytes_def io_bind_def io_map_err_def io_return_def
        read_u32_append read_exact_append)
qed

interpretation ip: wire_codec "ipc_bytes to_vec" "ipc_read from_slice" "ipc_okay to_vec from_slice"
  for to_vec from_slice
  by unfold_locales (rule ipc_read_bytes)

text \<open>A sequence of agent messages written to the daemon's socket is read back unchanged and in
  order, given that the JSON codec decodes what it encoded and each message is within 4 MiB.\<close>

lemma agent_messages_roundtrip:
  assumes "list_all (ipc_okay to_vec from_slice) msgs"
    and "io_iter (write_agent_msg to_vec) msgs fresh_writer = (res, w)"
  shows "res = Inr () \<and>
    io_replicate (length msgs) (read_agent_msg from_slice) (reader_of (wbytes w @ rest)) =
      (Inr msgs, reader_of rest)"
proof -
  have "io_iter (write_agent_msg to_vec) msgs fresh_writer =
      (Inr (), fresh_writer\<lparr>wbytes := wbytes fresh_writer @ concat (map (ipc_bytes to_vec) msgs)\<rparr>)"
    using assms(1) by (intro io_iter_open)
      (auto simp: write_agent_msg_def list_all_iff intro: ipc_write_open[where from_slice = from_slice])
  with assms(2)
  have "res = Inr ()" and "wbytes w = concat (map (ipc_bytes to_vec) msgs)" by auto
  with ip.dec_enc_many[OF assms(1), where r = "reader_of []" and bs = rest] show ?thesis
    by (simp add: read_agent_msg_def)
qed

lemma agent_messages_roundtrip_example:
  "io_replicate 2 (read_agent_msg (\<lambda>b. if b = [1] then Inr Ping else Inr Unlisten))
     (reader_of (wbytes (snd (io_iter (write_agent_msg (\<lambda>m. if m = Ping then Inr [1] else Inr [2]))
        [Ping, Unlisten] fresh_writer)) @ [5])) = (Inr [Ping, Unlisten], reader_of [5])"
proof -
  have "list_all (ipc_okay (\<lambda>m. if m = Ping then Inr [1] else Inr [2])
      (\<lambda>b. if b = [1] then Inr Ping else Inr Unlisten)) [Ping, Unlisten]"
    by (simp add: ipc_okay_def max_msg_size_def)
  from agent_messages_roundtrip[OF this surjective_pairing, of "[5]"] show ?thesis
    by (simp add: numeral_2_eq_2)
qed

text \<open>The daemon never waits for or buffers more than 4 MiB of a message: a longer announced
  length is refused before any of the body is read, and a connection that ends inside a message
  counts as closed.\<close>

lemma read_agent_msg_bounds:
  "(4 \<le> length (rbytes r) \<and> max_msg_size < be_nat (take 4 (rbytes r)) \<longrightarrow>
      read_agent_msg from_slice r =
        (Inl (TooLarge (be_nat (take 4 (rbytes r)))), r\<lparr>rbytes := drop 4 (rbytes r)\<rparr>)) \<and>
   (rend r = REof \<and> (length (rbytes r) < 4 \<or>
      be_nat (take 4 (rbytes r)) \<le> max_msg_size \<and> length (rbytes r) < 4 + be_nat (take 4 (rbytes r))) \<longrightarrow>
      fst (read_agent_msg from_slice r) = Inl IpcClosed)"
proof -
  have n: "unat (u32_from_be_bytes (take 4 (rbytes r))) = be_nat (take 4 (rbytes r))"
    if "4 \<le> length (rbytes r)"
    using that be_nat_bound[of "take 4 (rbytes r)"]
    by (simp add: u32_from_be_bytes_def unat_u32_of_nat)
  show ?thesis
    by (auto simp: read_agent_msg_def ipc_read_def read_u32_def io_bind_def io_map_err_def io_return_def
        io_fail_def read_exact_def n rend_error_def eof_is_closed_def not_le)
qed

lemma read_agent_msg_bounds_example:
  "read_agent_msg (\<lambda>_. Inl ''no json'') (reader_of [255, 0, 0, 0, 1])
     = (Inl (TooLarge 4278190080), reader_of [1]) \<and>
   fst (read_agent_msg (\<lambda>_. Inl ''no json'') (reader_of [0, 0, 0, 2, 1])) = Inl IpcClosed"
proof -
  have "be_nat [255, 0, 0, 0] = 4278190080" "be_nat [0, 0, 0, 2] = 2" by (simp_all add: be_nat_def)
  then show ?thesis
    using read_agent_msg_bounds[where r = "reader_of [255, 0, 0, 0, 1]" and from_slice = "\<lambda>_. Inl ''no json''"]
      read_agent_msg_bounds[where r = "reader_of [0, 0, 0, 2, 1]" and from_slice = "\<lambda>_. Inl ''no json''"]
    by (simp add: max_msg_size_def)
qed

end
