(* ===== verification/Mux.thy ===== *)
theory Mux
  imports Ipc Channels
begin

text \<open>
  The multiplexed connection of \<open>rust/crates/roboat-daemon/src/mux.rs\<close>. One record holds the state
  the struct and its tasks share: the stream counter and table, the two write queues, the write
  task with its position in the loop, and the read task with what it is waiting for. Receive
  channels live in a store, since the table holds their sending end and the daemon the other.
  Each definition is one operation or one step of a task between two points where it may be
  suspended; a step of a task that has to wait leaves the state unchanged.
\<close>

section \<open>Channels for received data\<close>

record chan_store =
  cs_next :: nat
  cs_chan :: "nat \<Rightarrow> bytes mpsc"

definition chan_new :: "nat \<Rightarrow> chan_store \<Rightarrow> nat \<times> chan_store" where
  "chan_new n st =
     (cs_next st, st\<lparr>cs_next := cs_next st + 1, cs_chan := (cs_chan st)(cs_next st := mpsc_new n)\<rparr>)"

definition chan_drop_tx :: "nat option \<Rightarrow> chan_store \<Rightarrow> chan_store" where
  "chan_drop_tx i st =
     (case i of
        None \<Rightarrow> st
      | Some k \<Rightarrow> st\<lparr>cs_chan := (cs_chan st)(k := (cs_chan st k)\<lparr>tx_open := False\<rparr>)\<rparr>)"

section \<open>State\<close>

datatype mux_error = Disconnected | MuxStreamNotFound u32

record incoming_mux_stream =
  ims_stream_id :: u32
  ims_class :: stream_class
  ims_from_agent_id :: string
  ims_recv_rx :: nat

type_synonym write_item = frame

datatype write_pc = WDrain | WSelect | WDone

datatype pending = PendData nat bytes | PendNotify incoming_mux_stream

datatype open_task = OtDone | OtStart bytes | OtNotify incoming_mux_stream

record mux_conn =
  mx_next_stream_id :: u32
  mx_streams :: "u32 \<Rightarrow> nat option"
  mx_ctrl :: "write_item list"
  mx_bulk :: "write_item list"
  mx_held :: bool
  mx_wpc :: write_pc
  mx_wr :: writer
  mx_rd :: reader
  mx_pending :: "pending option"
  mx_rdone :: bool
  mx_first :: open_task
  mx_from :: string
  mx_incoming :: "incoming_mux_stream mpsc"

text \<open>\<open>mx_held\<close> says that somebody still holds the connection, and with it the queues' senders.\<close>

definition mux_new_inner :: "reader \<Rightarrow> writer \<Rightarrow> string \<Rightarrow> incoming_mux_stream mpsc \<Rightarrow> u32 \<Rightarrow> mux_conn" where
  "mux_new_inner r w from_id inc start_id =
     \<lparr>mx_next_stream_id = start_id, mx_streams = Map.empty, mx_ctrl = [], mx_bulk = [], mx_held = True,
      mx_wpc = WDrain, mx_wr = w, mx_rd = r, mx_pending = None, mx_rdone = False, mx_first = OtDone,
      mx_from = from_id, mx_incoming = inc\<rparr>"

definition mux_new_initiator :: "reader \<Rightarrow> writer \<Rightarrow> string \<Rightarrow> incoming_mux_stream mpsc \<Rightarrow> mux_conn" where
  "mux_new_initiator r w from_id inc = mux_new_inner r w from_id inc 1"

text \<open>The responder's first stream is registered by a task of its own.\<close>

definition mux_new_responder ::
  "reader \<Rightarrow> writer \<Rightarrow> string \<Rightarrow> incoming_mux_stream mpsc \<Rightarrow> bytes \<Rightarrow> mux_conn" where
  "mux_new_responder r w from_id inc first_payload =
     (mux_new_inner r w from_id inc 2)\<lparr>mx_first := OtStart first_payload\<rparr>"

section \<open>Sending\<close>

definition mux_enqueue :: "stream_class \<Rightarrow> write_item \<Rightarrow> mux_conn \<Rightarrow> (mux_error + unit) \<times> mux_conn" where
  "mux_enqueue cls item m =
     (if mx_wpc m = WDone then (Inl Disconnected, m)
      else (Inr (), case cls of
              Bulk \<Rightarrow> m\<lparr>mx_bulk := mx_bulk m @ [item]\<rparr>
            | _ \<Rightarrow> m\<lparr>mx_ctrl := mx_ctrl m @ [item]\<rparr>))"

text \<open>Inserting into the table drops the sender of the entry it replaces; so does removing.\<close>

definition mux_insert :: "u32 \<Rightarrow> nat \<Rightarrow> mux_conn \<Rightarrow> chan_store \<Rightarrow> mux_conn \<times> chan_store" where
  "mux_insert sid ch m st =
     (m\<lparr>mx_streams := (mx_streams m)(sid \<mapsto> ch)\<rparr>, chan_drop_tx (mx_streams m sid) st)"

definition mux_remove :: "u32 \<Rightarrow> mux_conn \<Rightarrow> chan_store \<Rightarrow> mux_conn \<times> chan_store" where
  "mux_remove sid m st =
     (m\<lparr>mx_streams := (mx_streams m)(sid := None)\<rparr>, chan_drop_tx (mx_streams m sid) st)"

definition stream_open_payload :: "u32 \<Rightarrow> stream_class \<Rightarrow> bytes" where
  "stream_open_payload sid cls = u32_to_be_bytes sid @ [class_as_byte cls]"

text \<open>Opening a stream announces it before it waits for the table's lock to register it.\<close>

definition mux_open_announce :: "stream_class \<Rightarrow> mux_conn \<Rightarrow> (mux_error + u32) \<times> mux_conn" where
  "mux_open_announce cls m =
     (let sid = mx_next_stream_id m; m1 = m\<lparr>mx_next_stream_id := sid + 2\<rparr> in
      case mux_enqueue cls (FtStreamOpen, stream_open_payload sid cls) m1 of
        (Inl e, m2) \<Rightarrow> (Inl e, m2)
      | (Inr _, m2) \<Rightarrow> (Inr sid, m2))"

definition mux_open_register :: "u32 \<Rightarrow> mux_conn \<Rightarrow> chan_store \<Rightarrow> nat \<times> mux_conn \<times> chan_store" where
  "mux_open_register sid m st =
     (case chan_new 64 st of (ch, st1) \<Rightarrow> (ch, mux_insert sid ch m st1))"

definition mux_open_stream ::
  "stream_class \<Rightarrow> mux_conn \<Rightarrow> chan_store \<Rightarrow> (mux_error + u32 \<times> nat) \<times> mux_conn \<times> chan_store" where
  "mux_open_stream cls m st =
     (case mux_open_announce cls m of
        (Inl e, m1) \<Rightarrow> (Inl e, m1, st)
      | (Inr sid, m1) \<Rightarrow>
          (case mux_open_register sid m1 st of (ch, m2, st2) \<Rightarrow> (Inr (sid, ch), m2, st2)))"

definition mux_send :: "u32 \<Rightarrow> bytes \<Rightarrow> stream_class \<Rightarrow> mux_conn \<Rightarrow> (mux_error + unit) \<times> mux_conn" where
  "mux_send sid data cls m = mux_enqueue cls (FtStreamData, u32_to_be_bytes sid @ data) m"

definition mux_close_stream :: "u32 \<Rightarrow> stream_class \<Rightarrow> mux_conn \<Rightarrow> chan_store \<Rightarrow> mux_conn \<times> chan_store" where
  "mux_close_stream sid cls m st =
     mux_remove sid (snd (mux_enqueue cls (FtStreamClose, u32_to_be_bytes sid) m)) st"

section \<open>The write task\<close>

definition mux_write_item :: "write_item \<Rightarrow> mux_conn \<Rightarrow> mux_conn" where
  "mux_write_item item m =
     (case write_frame (fst item) (snd item) (mx_wr m) of
        (Inl e, w) \<Rightarrow> m\<lparr>mx_wr := w, mx_wpc := WDone\<rparr>
      | (Inr _, w) \<Rightarrow> m\<lparr>mx_wr := w, mx_wpc := WDrain\<rparr>)"

definition mux_write_step :: "mux_conn \<Rightarrow> mux_conn" where
  "mux_write_step m =
     (case mx_wpc m of
        WDrain \<Rightarrow>
          (case mx_ctrl m of
             i # q \<Rightarrow> mux_write_item i (m\<lparr>mx_ctrl := q\<rparr>)
           | [] \<Rightarrow> m\<lparr>mx_wpc := WSelect\<rparr>)
      | WSelect \<Rightarrow>
          (case mx_ctrl m of
             i # q \<Rightarrow> mux_write_item i (m\<lparr>mx_ctrl := q\<rparr>)
           | [] \<Rightarrow>
               if \<not> mx_held m then m\<lparr>mx_wpc := WDone\<rparr>
               else (case mx_bulk m of
                       i # q \<Rightarrow> mux_write_item i (m\<lparr>mx_bulk := q\<rparr>)
                     | [] \<Rightarrow> m))
      | WDone \<Rightarrow> m)"

section \<open>The read task\<close>

definition process_stream_open ::
  "bytes \<Rightarrow> mux_conn \<Rightarrow> chan_store \<Rightarrow> incoming_mux_stream option \<times> mux_conn \<times> chan_store" where
  "process_stream_open pay m st =
     (if length pay < 5 then (None, m, st)
      else
        let sid = u32_from_be_bytes (take 4 pay); cls = class_from_byte (pay ! 4) in
        case chan_new 64 st of (ch, st1) \<Rightarrow>
        case mux_insert sid ch m st1 of (m2, st2) \<Rightarrow>
          (Some \<lparr>ims_stream_id = sid, ims_class = cls, ims_from_agent_id = mx_from m, ims_recv_rx = ch\<rparr>, m2, st2))"

definition mux_locked :: "mux_conn \<Rightarrow> bool" where
  "mux_locked m = (case mx_pending m of Some (PendData _ _) \<Rightarrow> True | _ \<Rightarrow> False)"

text \<open>Notifying the daemon of an incoming stream; a full queue makes the notifier wait.\<close>

definition mux_notify :: "incoming_mux_stream \<Rightarrow> mux_conn \<Rightarrow> mux_conn option" where
  "mux_notify ims m =
     (case mpsc_send ims (mx_incoming m) of
        Sent q \<Rightarrow> Some (m\<lparr>mx_incoming := q\<rparr>)
      | NoReceiver \<Rightarrow> Some m
      | WaitsForRoom \<Rightarrow> None)"

text \<open>The queue of notifications ends with the last task that could add to it.\<close>

definition mux_drop_incoming :: "mux_conn \<Rightarrow> mux_conn" where
  "mux_drop_incoming m =
     (if mx_rdone m \<and> mx_first m = OtDone then m\<lparr>mx_incoming := (mx_incoming m)\<lparr>tx_open := False\<rparr>\<rparr> else m)"

definition mux_first_step :: "mux_conn \<Rightarrow> chan_store \<Rightarrow> mux_conn \<times> chan_store" where
  "mux_first_step m st =
     (case mx_first m of
        OtDone \<Rightarrow> (m, st)
      | OtStart pay \<Rightarrow>
          if mux_locked m then (m, st)
          else (case process_stream_open pay m st of
                  (None, m1, st1) \<Rightarrow> (mux_drop_incoming (m1\<lparr>mx_first := OtDone\<rparr>), st1)
                | (Some ims, m1, st1) \<Rightarrow> (m1\<lparr>mx_first := OtNotify ims\<rparr>, st1))
      | OtNotify ims \<Rightarrow>
          (case mux_notify ims m of None \<Rightarrow> (m, st) | Some m1 \<Rightarrow> (mux_drop_incoming (m1\<lparr>mx_first := OtDone\<rparr>), st)))"

definition mux_handle_frame :: "frame \<Rightarrow> mux_conn \<Rightarrow> chan_store \<Rightarrow> mux_conn \<times> chan_store" where
  "mux_handle_frame f m st =
     (let pay = snd f in
      case fst f of
        FtStreamOpen \<Rightarrow>
          (case process_stream_open pay m st of
             (None, m1, st1) \<Rightarrow> (m1, st1)
           | (Some ims, m1, st1) \<Rightarrow> (m1\<lparr>mx_pending := Some (PendNotify ims)\<rparr>, st1))
      | FtStreamData \<Rightarrow>
          if length pay < 4 then (m, st)
          else (case mx_streams m (u32_from_be_bytes (take 4 pay)) of
                  None \<Rightarrow> (m, st)
                | Some ch \<Rightarrow> (m\<lparr>mx_pending := Some (PendData ch (drop 4 pay))\<rparr>, st))
      | FtStreamClose \<Rightarrow>
          if length pay < 4 then (m, st)
          else mux_remove (u32_from_be_bytes (take 4 pay)) m st
      | _ \<Rightarrow> (m, st))"

definition mux_finish_pending :: "mux_conn \<Rightarrow> chan_store \<Rightarrow> mux_conn \<times> chan_store" where
  "mux_finish_pending m st =
     (case mx_pending m of
        None \<Rightarrow> (m, st)
      | Some (PendNotify ims) \<Rightarrow>
          (case mux_notify ims m of None \<Rightarrow> (m, st) | Some m1 \<Rightarrow> (m1\<lparr>mx_pending := None\<rparr>, st))
      | Some (PendData ch data) \<Rightarrow>
          (case mpsc_send data (cs_chan st ch) of
             Sent q \<Rightarrow> (m\<lparr>mx_pending := None\<rparr>, st\<lparr>cs_chan := (cs_chan st)(ch := q)\<rparr>)
           | NoReceiver \<Rightarrow> (m\<lparr>mx_pending := None\<rparr>, st)
           | WaitsForRoom \<Rightarrow> (m, st)))"

definition mux_read_step :: "mux_conn \<Rightarrow> chan_store \<Rightarrow> mux_conn \<times> chan_store" where
  "mux_read_step m st =
     (if mx_rdone m then (m, st)
      else if mx_pending m \<noteq> None then mux_finish_pending m st
      else (case read_frame (mx_rd m) of
              (Inl e, r) \<Rightarrow> (mux_drop_incoming (m\<lparr>mx_rd := r, mx_rdone := True\<rparr>), st)
            | (Inr f, r) \<Rightarrow> mux_handle_frame f (m\<lparr>mx_rd := r\<rparr>) st))"

section \<open>Everything that can happen to a connection\<close>

text \<open>Operations of the daemon's tasks and steps of the connection's own, in any order. An operation
  that waits for the table's lock in its middle is two events; the lock is taken while the read
  task waits for room in a receive channel.\<close>

datatype mux_event =
    MeAnnounce stream_class
  | MeRegister u32
  | MeSend u32 bytes stream_class
  | MeSendClose u32 stream_class
  | MeForget u32
  | MeWrite
  | MeRead
  | MeFirst
  | MeTake
  | MeConsume nat
  | MeRelease

definition mux_event_step :: "mux_conn \<times> chan_store \<Rightarrow> mux_event \<Rightarrow> mux_conn \<times> chan_store" where
  "mux_event_step s e =
     (let m = fst s; st = snd s in
      case e of
        MeAnnounce cls \<Rightarrow> (snd (mux_open_announce cls m), st)
      | MeRegister sid \<Rightarrow> if mux_locked m then s else snd (mux_open_register sid m st)
      | MeSend sid data cls \<Rightarrow> (snd (mux_send sid data cls m), st)
      | MeSendClose sid cls \<Rightarrow> (snd (mux_enqueue cls (FtStreamClose, u32_to_be_bytes sid) m), st)
      | MeForget sid \<Rightarrow> if mux_locked m then s else mux_remove sid m st
      | MeWrite \<Rightarrow> (mux_write_step m, st)
      | MeRead \<Rightarrow> mux_read_step m st
      | MeFirst \<Rightarrow> mux_first_step m st
      | MeTake \<Rightarrow>
          (case mpsc_recv (mx_incoming m) of
             Received _ q \<Rightarrow> (m\<lparr>mx_incoming := q\<rparr>, st)
           | _ \<Rightarrow> s)
      | MeConsume ch \<Rightarrow>
          (case mpsc_recv (cs_chan st ch) of
             Received _ q \<Rightarrow> (m, st\<lparr>cs_chan := (cs_chan st)(ch := q)\<rparr>)
           | _ \<Rightarrow> s)
      | MeRelease \<Rightarrow> (m\<lparr>mx_held := False\<rparr>, st))"

text \<open>The frames an event hands to the write queues, with the class they were queued under.\<close>

definition mux_queued :: "mux_conn \<Rightarrow> mux_event \<Rightarrow> (stream_class \<times> frame) list" where
  "mux_queued m e =
     (if mx_wpc m = WDone then []
      else case e of
        MeAnnounce cls \<Rightarrow> [(cls, FtStreamOpen, stream_open_payload (mx_next_stream_id m) cls)]
      | MeSend sid data cls \<Rightarrow> [(cls, FtStreamData, u32_to_be_bytes sid @ data)]
      | MeSendClose sid cls \<Rightarrow> [(cls, FtStreamClose, u32_to_be_bytes sid)]
      | _ \<Rightarrow> [])"

fun mux_queued_run :: "mux_conn \<times> chan_store \<Rightarrow> mux_event list \<Rightarrow> (stream_class \<times> frame) list" where
  "mux_queued_run s [] = []"
| "mux_queued_run s (e # es) = mux_queued (fst s) e @ mux_queued_run (mux_event_step s e) es"

lemma mux_open_stream_events:
  assumes "\<not> mux_locked m" and "mx_wpc m \<noteq> WDone"
  shows "snd (mux_open_stream cls m st)
    = run_steps mux_event_step (m, st) [MeAnnounce cls, MeRegister (mx_next_stream_id m)]"
  using assms
  by (auto simp: mux_open_stream_def mux_event_step_def mux_open_announce_def mux_enqueue_def
      mux_locked_def Let_def split: prod.splits stream_class.splits)

lemma mux_close_stream_events:
  assumes "\<not> mux_locked m"
  shows "mux_close_stream sid cls m st
    = run_steps mux_event_step (m, st) [MeSendClose sid cls, MeForget sid]"
  using assms
  by (auto simp: mux_close_stream_def mux_event_step_def mux_enqueue_def mux_locked_def Let_def
      split: stream_class.splits)

section \<open>Streams keep to themselves\<close>

definition mux_wf :: "mux_conn \<times> chan_store \<Rightarrow> bool" where
  "mux_wf s \<longleftrightarrow>
     inj_on (mx_streams (fst s)) (dom (mx_streams (fst s))) \<and>
     (\<forall>ch \<in> ran (mx_streams (fst s)). ch < cs_next (snd s)) \<and>
     (\<forall>ch. mpsc_bounded (cs_chan (snd s) ch) \<and> cap (cs_chan (snd s) ch) \<le> 64) \<and>
     mpsc_bounded (mx_incoming (fst s))"

lemma cs_next_drop_tx [simp]: "cs_next (chan_drop_tx i st) = cs_next st"
  by (simp add: chan_drop_tx_def split: option.splits)

lemma chan_drop_tx_bounded:
  "\<forall>ch. mpsc_bounded (cs_chan st ch) \<and> cap (cs_chan st ch) \<le> 64 \<Longrightarrow>
   mpsc_bounded (cs_chan (chan_drop_tx i st) ch) \<and> cap (cs_chan (chan_drop_tx i st) ch) \<le> 64"
  by (auto simp: chan_drop_tx_def mpsc_bounded_def split: option.splits)

lemma mux_wf_cong:
  "mx_streams m' = mx_streams m \<Longrightarrow> mx_incoming m' = mx_incoming m \<Longrightarrow> mux_wf (m', st) = mux_wf (m, st)"
  by (simp add: mux_wf_def)

lemma mux_wf_insert_new:
  assumes "mux_wf (m, st)" and "chan_new 64 st = (ch, st1)"
  shows "mux_wf (mux_insert sid ch m st1)"
proof -
  have ch: "ch = cs_next st" "cs_next st1 = cs_next st + 1"
      "cs_chan st1 = (cs_chan st)(cs_next st := mpsc_new 64)"
    using assms(2) by (auto simp: chan_new_def)
  have lt: "\<And>s c. mx_streams m s = Some c \<Longrightarrow> c < cs_next st"
    using assms(1) by (auto simp: mux_wf_def ran_def)
  have "inj_on ((mx_streams m)(sid \<mapsto> ch)) (dom ((mx_streams m)(sid \<mapsto> ch)))"
  proof (rule inj_onI)
    fix x y
    assume "x \<in> dom ((mx_streams m)(sid \<mapsto> ch))" "y \<in> dom ((mx_streams m)(sid \<mapsto> ch))"
      and eq: "((mx_streams m)(sid \<mapsto> ch)) x = ((mx_streams m)(sid \<mapsto> ch)) y"
    then show "x = y"
      using assms(1) lt ch(1)
      by (auto simp: mux_wf_def inj_on_def dom_def split: if_splits)
  qed
  moreover have "\<forall>c \<in> ran ((mx_streams m)(sid \<mapsto> ch)). c < cs_next st1"
    using lt ch by (auto simp: ran_def less_Suc_eq)
  moreover have "\<forall>c. mpsc_bounded (cs_chan st1 c) \<and> cap (cs_chan st1 c) \<le> 64"
    using assms(1) ch(3) by (auto simp: mux_wf_def mpsc_new_def mpsc_bounded_def)
  ultimately show ?thesis
    using assms(1) chan_drop_tx_bounded[of st1] by (simp add: mux_wf_def mux_insert_def)
qed

lemma mux_wf_remove: "mux_wf (m, st) \<Longrightarrow> mux_wf (mux_remove sid m st)"
  using chan_drop_tx_bounded[of st]
  by (auto simp: mux_wf_def mux_remove_def inj_on_def dom_def ran_def split: if_splits)

lemma mux_wf_stream_open:
  assumes "mux_wf (m, st)"
  shows "mux_wf (snd (process_stream_open p m st))"
  using mux_wf_insert_new[OF assms] assms
  by (auto simp: process_stream_open_def Let_def split: prod.splits)

lemma mux_notify_wf: "mux_wf (m, st) \<Longrightarrow> mux_notify i m = Some m' \<Longrightarrow> mux_wf (m', st)"
  by (auto simp: mux_notify_def mux_wf_def dest: mpsc_bounded_send split: sent.splits)

lemma mux_write_step_keeps:
  "mx_streams (mux_write_step m) = mx_streams m" "mx_incoming (mux_write_step m) = mx_incoming m"
  by (auto simp: mux_write_step_def mux_write_item_def split: write_pc.splits list.splits prod.splits sum.splits)

lemma mux_enqueue_keeps:
  "mx_streams (snd (mux_enqueue c i m)) = mx_streams m" "mx_incoming (snd (mux_enqueue c i m)) = mx_incoming m"
  by (auto simp: mux_enqueue_def split: stream_class.splits)

lemma mux_announce_keeps:
  "mx_streams (snd (mux_open_announce c m)) = mx_streams m"
  "mx_incoming (snd (mux_open_announce c m)) = mx_incoming m"
  by (auto simp: mux_open_announce_def mux_enqueue_def Let_def split: stream_class.splits)

lemma mux_drop_incoming_wf: "mux_wf (m, st) \<Longrightarrow> mux_wf (mux_drop_incoming m, st)"
  by (simp add: mux_drop_incoming_def mux_wf_def mpsc_bounded_def)

lemma mux_send_keeps_cap: "mpsc_send x q = Sent q' \<Longrightarrow> cap q' = cap q"
  by (auto simp: mpsc_send_def split: if_splits)

lemma mux_recv_keeps_cap: "mpsc_recv q = Received x q' \<Longrightarrow> cap q' = cap q"
  by (auto simp: mpsc_recv_def split: list.splits if_splits)

lemma mux_wf_chan_update:
  "mux_wf (m, st) \<Longrightarrow> mpsc_bounded q \<Longrightarrow> cap q = cap (cs_chan st ch) \<Longrightarrow>
   mux_wf (m, st\<lparr>cs_chan := (cs_chan st)(ch := q)\<rparr>)"
  by (auto simp: mux_wf_def)

lemma mux_finish_pending_wf:
  assumes "mux_wf (m, st)"
  shows "mux_wf (mux_finish_pending m st)"
proof (cases "mx_pending m")
  case None
  then show ?thesis using assms by (simp add: mux_finish_pending_def)
next
  case (Some p)
  show ?thesis
  proof (cases p)
    case (PendNotify i)
    then show ?thesis
      using Some assms mux_notify_wf[OF assms, of i] mux_wf_cong
      by (auto simp: mux_finish_pending_def mux_wf_def split: option.splits)
  next
    case (PendData ch d)
    have bnd: "mpsc_bounded (cs_chan st ch)" using assms by (simp add: mux_wf_def)
    show ?thesis
    proof (cases "mpsc_send d (cs_chan st ch)")
      case (Sent q)
      have "mux_wf (m, st\<lparr>cs_chan := (cs_chan st)(ch := q)\<rparr>)"
        using assms mpsc_bounded_send[OF bnd Sent] mux_send_keeps_cap[OF Sent]
        by (rule mux_wf_chan_update)
      then show ?thesis using Some PendData Sent by (simp add: mux_finish_pending_def mux_wf_def)
    qed (use Some PendData assms in \<open>simp_all add: mux_finish_pending_def mux_wf_def\<close>)
  qed
qed

lemma mux_handle_frame_wf:
  assumes "mux_wf (m, st)"
  shows "mux_wf (mux_handle_frame f m st)"
  using mux_wf_stream_open[OF assms, of "snd f"] mux_wf_remove[OF assms] assms
  by (auto simp: mux_handle_frame_def Let_def mux_wf_def split: frame_type.splits prod.splits option.splits)

lemma mux_read_step_wf:
  assumes "mux_wf (m, st)"
  shows "mux_wf (mux_read_step m st)"
proof -
  have rd: "mux_wf (m\<lparr>mx_rd := r\<rparr>, st)" "mux_wf (m\<lparr>mx_rd := r, mx_rdone := True\<rparr>, st)" for r
    using assms by (simp_all add: mux_wf_def)
  show ?thesis
    using assms mux_handle_frame_wf[OF rd(1)] mux_drop_incoming_wf[OF rd(2)] mux_finish_pending_wf
    by (auto simp: mux_read_step_def split: prod.splits sum.splits)
qed

lemma mux_first_step_wf:
  assumes "mux_wf (m, st)"
  shows "mux_wf (mux_first_step m st)"
proof (cases "mx_first m")
  case OtDone
  then show ?thesis using assms by (simp add: mux_first_step_def)
next
  case (OtStart p)
  obtain o' m1 st1 where eq: "process_stream_open p m st = (o', m1, st1)" by (cases "process_stream_open p m st")
  then have "mux_wf (m1\<lparr>mx_first := x\<rparr>, st1)" for x
    using mux_wf_stream_open[OF assms, of p] by (simp add: mux_wf_def)
  then show ?thesis
    using OtStart eq assms mux_drop_incoming_wf
    by (auto simp: mux_first_step_def split: option.splits)
next
  case (OtNotify i)
  show ?thesis
  proof (cases "mux_notify i m")
    case None
    then show ?thesis using OtNotify assms by (simp add: mux_first_step_def)
  next
    case (Some m1)
    then have "mux_wf (m1\<lparr>mx_first := OtDone\<rparr>, st)"
      using mux_notify_wf[OF assms Some] by (simp add: mux_wf_def)
    then show ?thesis using OtNotify Some mux_drop_incoming_wf by (simp add: mux_first_step_def)
  qed
qed

lemma mux_event_step_wf:
  assumes "mux_wf s"
  shows "mux_wf (mux_event_step s e)"
proof (cases s)
  case (Pair m st)
  then have wf: "mux_wf (m, st)" using assms by simp
  show ?thesis
  proof (cases e)
    case (MeAnnounce c)
    then show ?thesis using Pair wf by (simp add: mux_event_step_def mux_wf_def mux_announce_keeps)
  next
    case (MeRegister sid)
    then show ?thesis
      using Pair wf mux_wf_insert_new[OF wf]
      by (auto simp: mux_event_step_def mux_open_register_def Let_def split: prod.splits)
  next
    case (MeSend sid d c)
    then show ?thesis using Pair wf by (simp add: mux_event_step_def mux_send_def mux_wf_def mux_enqueue_keeps)
  next
    case (MeSendClose sid c)
    then show ?thesis using Pair wf by (simp add: mux_event_step_def mux_wf_def mux_enqueue_keeps)
  next
    case MeWrite
    then show ?thesis using Pair wf by (simp add: mux_event_step_def mux_wf_def mux_write_step_keeps)
  next
    case MeTake
    then show ?thesis using Pair wf
      by (auto simp: mux_event_step_def mux_wf_def dest: mpsc_bounded_recv split: received.splits)
  next
    case (MeConsume ch)
    have "mpsc_bounded (cs_chan st ch)" using wf by (simp add: mux_wf_def)
    then show ?thesis
      using MeConsume Pair wf mux_wf_chan_update[OF wf]
      by (auto simp: mux_event_step_def dest: mpsc_bounded_recv mux_recv_keeps_cap split: received.splits)
  next
    case MeRelease
    then show ?thesis using Pair wf by (simp add: mux_event_step_def mux_wf_def)
  qed (use Pair wf in \<open>simp_all add: mux_event_step_def mux_wf_remove mux_read_step_wf mux_first_step_wf\<close>)
qed

interpretation mx: step_system mux_event_step mux_wf
  by unfold_locales (rule mux_event_step_wf)

definition chan_store_ok :: "chan_store \<Rightarrow> bool" where
  "chan_store_ok st \<longleftrightarrow> (\<forall>ch. mpsc_bounded (cs_chan st ch) \<and> cap (cs_chan st ch) \<le> 64)"

lemma mux_wf_new:
  "chan_store_ok st \<Longrightarrow> mpsc_bounded inc \<Longrightarrow> mux_wf (mux_new_inner r w f inc k, st)"
  by (simp add: mux_wf_def mux_new_inner_def chan_store_ok_def)

text \<open>C7: Whatever happened on a connection before, a data frame for one stream reaches only that
  stream: it is appended to the stream's receive channel when there is room and a receiver, no
  other stream's channel changes, and no receive channel ever holds more than 64 messages.\<close>

theorem mux_streams_isolated:
  assumes "chan_store_ok st" and "mpsc_bounded inc"
    and "run_steps mux_event_step (mux_new_inner r w f inc k, st) es = (m1, st1)"
    and "mx_pending m1 = None"
    and "mx_streams m1 sid = Some ch" and "mx_streams m1 sid' = Some ch'" and "sid \<noteq> sid'"
    and "mux_handle_frame (FtStreamData, u32_to_be_bytes sid @ d) m1 st1 = (m2, st2)"
    and "mux_finish_pending m2 st2 = (m3, st3)"
  shows "items (cs_chan st3 ch)
      = (if rx_open (cs_chan st1 ch) \<and> length (items (cs_chan st1 ch)) < cap (cs_chan st1 ch)
         then items (cs_chan st1 ch) @ [d] else items (cs_chan st1 ch))
    \<and> cs_chan st3 ch' = cs_chan st1 ch'
    \<and> length (items (cs_chan st3 ch)) \<le> 64 \<and> length (items (cs_chan st3 ch')) \<le> 64"
proof -
  have wf: "mux_wf (m1, st1)"
    using mx.run_inv[OF mux_wf_new[OF assms(1,2)], of r w f k es] assms(3) by simp
  then have "ch \<noteq> ch'"
    using assms(5-7) by (auto simp: mux_wf_def inj_on_def dom_def)
  moreover have "m2 = m1\<lparr>mx_pending := Some (PendData ch d)\<rparr>" "st2 = st1"
    using assms(5,8) by (simp_all add: mux_handle_frame_def)
  ultimately have "items (cs_chan st3 ch)
      = (if rx_open (cs_chan st1 ch) \<and> length (items (cs_chan st1 ch)) < cap (cs_chan st1 ch)
         then items (cs_chan st1 ch) @ [d] else items (cs_chan st1 ch))
    \<and> cs_chan st3 ch' = cs_chan st1 ch'"
    using assms(9) by (auto simp: mux_finish_pending_def mpsc_send_def split: if_splits)
  moreover have "mux_wf (m3, st3)"
    using mux_finish_pending_wf mux_handle_frame_wf[OF wf] assms(8,9) by metis
  then have "mpsc_bounded (cs_chan st3 c) \<and> cap (cs_chan st3 c) \<le> 64" for c
    by (simp add: mux_wf_def)
  then have "length (items (cs_chan st3 c)) \<le> 64" for c
    unfolding mpsc_bounded_def using le_trans by blast
  ultimately show ?thesis by blast
qed

definition empty_store :: chan_store where
  "empty_store = \<lparr>cs_next = 0, cs_chan = \<lambda>_. mpsc_new 0\<rparr>"

lemma empty_store_ok: "chan_store_ok empty_store"
  by (simp add: chan_store_ok_def empty_store_def mpsc_new_def mpsc_bounded_def)

theorem mux_streams_isolated_witness:
  "\<exists>m1 st1 m2 st2 m3 st3.
     run_steps mux_event_step
       (mux_new_inner (reader_of []) fresh_writer ''b'' (mpsc_new 64) 1, empty_store)
       [MeAnnounce Control, MeRegister 1, MeAnnounce Bulk, MeRegister 3] = (m1, st1) \<and>
     mux_handle_frame (FtStreamData, u32_to_be_bytes 3 @ [7]) m1 st1 = (m2, st2) \<and>
     mux_finish_pending m2 st2 = (m3, st3) \<and>
     items (cs_chan st3 1) = [[7]] \<and> cs_chan st3 0 = cs_chan st1 0"
proof -
  let ?s = "run_steps mux_event_step
       (mux_new_inner (reader_of []) fresh_writer ''b'' (mpsc_new 64) 1, empty_store)
       [MeAnnounce Control, MeRegister 1, MeAnnounce Bulk, MeRegister 3]"
  note defs = mux_event_step_def mux_open_announce_def mux_open_register_def mux_enqueue_def
    mux_insert_def chan_new_def mux_locked_def mux_new_inner_def empty_store_def chan_drop_tx_def
  have st: "mx_pending (fst ?s) = None" "mx_streams (fst ?s) 3 = Some 1" "mx_streams (fst ?s) 1 = Some 0"
      "cs_chan (snd ?s) 1 = mpsc_new 64"
    by (simp_all add: defs)
  obtain m1 st1 where s1: "?s = (m1, st1)" by fastforce
  obtain m2 st2 where s2: "mux_handle_frame (FtStreamData, u32_to_be_bytes 3 @ [7]) m1 st1 = (m2, st2)"
    by fastforce
  obtain m3 st3 where s3: "mux_finish_pending m2 st2 = (m3, st3)" by fastforce
  have "mpsc_bounded (mpsc_new 64 :: incoming_mux_stream mpsc)" by simp
  from mux_streams_isolated[OF empty_store_ok this s1 _ _ _ _ s2 s3, where ch = 1 and ch' = 0 and sid' = 1]
  show ?thesis using st s1 s2 s3 by (auto simp: mpsc_new_def)
qed

section \<open>Stream identifiers\<close>

definition announced_ids :: "(stream_class \<times> frame) list \<Rightarrow> u32 list" where
  "announced_ids log =
     map (\<lambda>x. u32_from_be_bytes (take 4 (snd (snd x)))) (filter (\<lambda>x. fst (snd x) = FtStreamOpen) log)"

text \<open>What the write side of a connection is; the read side never touches it.\<close>

definition wside :: "mux_conn \<Rightarrow> u32 \<times> write_item list \<times> write_item list \<times> bool \<times> write_pc \<times> writer" where
  "wside m = (mx_next_stream_id m, mx_ctrl m, mx_bulk m, mx_held m, mx_wpc m, mx_wr m)"

lemma wside_simps [simp]:
  "wside (m\<lparr>mx_streams := a\<rparr>) = wside m" "wside (m\<lparr>mx_rd := b\<rparr>) = wside m"
  "wside (m\<lparr>mx_pending := c\<rparr>) = wside m" "wside (m\<lparr>mx_rdone := d\<rparr>) = wside m"
  "wside (m\<lparr>mx_first := f\<rparr>) = wside m" "wside (m\<lparr>mx_incoming := g\<rparr>) = wside m"
  by (simp_all add: wside_def)

lemma wside_insert [simp]: "wside (fst (mux_insert sid ch m st)) = wside m"
  and wside_remove [simp]: "wside (fst (mux_remove sid m st)) = wside m"
  and wside_drop [simp]: "wside (mux_drop_incoming m) = wside m"
  by (simp_all add: mux_insert_def mux_remove_def mux_drop_incoming_def)

lemma wside_register [simp]: "wside (fst (snd (mux_open_register sid m st))) = wside m"
  by (simp add: mux_open_register_def split: prod.split)

lemma wside_stream_open [simp]: "wside (fst (snd (process_stream_open p m st))) = wside m"
  by (simp add: process_stream_open_def mux_insert_def Let_def split: prod.split)

lemma wside_stream_open_eq: "process_stream_open p m st = (i, m1, st1) \<Longrightarrow> wside m1 = wside m"
  using wside_stream_open[of p m st] by simp

lemma wside_notify: "mux_notify i m = Some m' \<Longrightarrow> wside m' = wside m"
  by (auto simp: mux_notify_def split: sent.splits)

lemma wside_finish [simp]: "wside (fst (mux_finish_pending m st)) = wside m"
  by (auto simp: mux_finish_pending_def wside_notify split: option.split pending.split sent.split)

lemma wside_handle [simp]: "wside (fst (mux_handle_frame f m st)) = wside m"
  by (auto simp: mux_handle_frame_def Let_def wside_stream_open_eq split: frame_type.split option.split prod.split)

lemma wside_read [simp]: "wside (fst (mux_read_step m st)) = wside m"
  by (auto simp: mux_read_step_def split: prod.split sum.split)

lemma wside_first [simp]: "wside (fst (mux_first_step m st)) = wside m"
proof (cases "mx_first m")
  case (OtStart p)
  then show ?thesis
    by (auto simp: mux_first_step_def wside_stream_open_eq split: option.split prod.split)
next
  case (OtNotify i)
  then show ?thesis
    by (auto simp: mux_first_step_def wside_notify split: option.split)
qed (simp add: mux_first_step_def)

text \<open>The write-side events, and what every other event leaves alone.\<close>

lemma wside_event:
  assumes "\<And>c. e \<noteq> MeAnnounce c" "\<And>sid d c. e \<noteq> MeSend sid d c" "\<And>sid c. e \<noteq> MeSendClose sid c"
    "e \<noteq> MeWrite" "e \<noteq> MeRelease"
  shows "wside (fst (mux_event_step s e)) = wside (fst s)"
  using assms
  by (cases s; cases e) (auto simp: mux_event_step_def split: received.split)

lemma mux_announce_next [simp]:
  "mx_next_stream_id (snd (mux_open_announce c m)) = mx_next_stream_id m + 2"
  by (auto simp: mux_open_announce_def mux_enqueue_def Let_def split: stream_class.split)

lemma mux_enqueue_next [simp]:
  "mx_next_stream_id (snd (mux_enqueue c i m)) = mx_next_stream_id m"
  by (auto simp: mux_enqueue_def split: stream_class.split)

lemma mux_write_next [simp]: "mx_next_stream_id (mux_write_step m) = mx_next_stream_id m"
  by (auto simp: mux_write_step_def mux_write_item_def split: write_pc.split list.split prod.split sum.split)

lemma mux_event_step_next:
  "mx_next_stream_id (fst (mux_event_step s e))
     = (case e of MeAnnounce _ \<Rightarrow> mx_next_stream_id (fst s) + 2 | _ \<Rightarrow> mx_next_stream_id (fst s))"
  using wside_event[of e s]
  by (cases e) (auto simp: wside_def mux_event_step_def mux_send_def Let_def)

lemma mux_event_step_done:
  "mx_wpc (fst s) = WDone \<Longrightarrow> mx_wpc (fst (mux_event_step s e)) = WDone"
  using wside_event[of e s]
  by (cases e)
    (auto simp: wside_def mux_event_step_def mux_send_def mux_enqueue_def mux_open_announce_def
      mux_write_step_def Let_def)

lemma mux_queued_run_done: "mx_wpc (fst s) = WDone \<Longrightarrow> mux_queued_run s es = []"
  by (induction es arbitrary: s) (auto simp: mux_queued_def mux_event_step_done)

lemma announced_ids_append [simp]: "announced_ids (xs @ ys) = announced_ids xs @ announced_ids ys"
  by (simp add: announced_ids_def)

lemma announced_ids_queued:
  "announced_ids (mux_queued m e)
     = (if mx_wpc m \<noteq> WDone \<and> (\<exists>c. e = MeAnnounce c) then [mx_next_stream_id m] else [])"
  by (cases e) (auto simp: announced_ids_def mux_queued_def stream_open_payload_def)

lemma announced_ids_form:
  "announced_ids (mux_queued_run s es)
     = map (\<lambda>i. mx_next_stream_id (fst s) + 2 * word_of_nat i) [0..<length (announced_ids (mux_queued_run s es))]"
proof (induction es arbitrary: s)
  case Nil
  then show ?case by (simp add: announced_ids_def)
next
  case (Cons e es)
  let ?n = "mx_next_stream_id (fst s)" and ?s' = "mux_event_step s e"
  let ?rest = "announced_ids (mux_queued_run ?s' es)"
  show ?case
  proof (cases "mx_wpc (fst s) \<noteq> WDone \<and> (\<exists>c. e = MeAnnounce c)")
    case True
    then have "mx_next_stream_id (fst ?s') = ?n + 2" by (auto simp: mux_event_step_next)
    then have "?rest = map (\<lambda>i. ?n + 2 * word_of_nat (Suc i)) [0..<length ?rest]"
      using Cons.IH[of ?s'] by (simp add: algebra_simps)
    moreover have "[0..<Suc (length ?rest)] = 0 # map Suc [0..<length ?rest]"
      by (simp add: upt_conv_Cons map_Suc_upt del: upt_Suc)
    ultimately show ?thesis
      using True by (simp add: announced_ids_queued comp_def del: upt_Suc)
  next
    case False
    then have hd: "announced_ids (mux_queued (fst s) e) = []" by (simp add: announced_ids_queued)
    show ?thesis
    proof (cases "mx_wpc (fst s) = WDone")
      case True
      then have "mux_queued_run s (e # es) = []" by (rule mux_queued_run_done)
      then show ?thesis by (simp add: announced_ids_def)
    next
      case active: False
      then have "mx_next_stream_id (fst ?s') = ?n"
        using False by (auto simp: mux_event_step_next split: mux_event.split)
      then show ?thesis using Cons.IH[of ?s'] hd by simp
    qed
  qed
qed

lemma even_ids:
  fixes n :: u32
  shows "even (unat (n + 2 * word_of_nat i)) = even (unat n)"
proof -
  have "even (unat (n + 2 * word_of_nat i)) = even (n + 2 * word_of_nat i)"
    by transfer (simp add: even_nat_iff)
  also have "\<dots> = even n" by simp
  also have "\<dots> = even (unat n)" by transfer (simp add: even_nat_iff)
  finally show ?thesis .
qed

lemma ids_inj:
  fixes n :: u32
  assumes "i < 2 ^ 31" and "j < 2 ^ 31" and "n + 2 * word_of_nat i = n + 2 * word_of_nat j"
  shows "i = j"
proof -
  have "(word_of_nat (2 * i) :: u32) = word_of_nat (2 * j)" using assms(3) by simp
  then have "unat (word_of_nat (2 * i) :: u32) = unat (word_of_nat (2 * j) :: u32)" by simp
  moreover have "2 * i < 2 ^ 32" "2 * j < 2 ^ 32" using assms(1,2) by simp_all
  ultimately have "2 * i = 2 * j" using unat_u32_of_nat[of "2 * i"] unat_u32_of_nat[of "2 * j"] by metis
  then show ?thesis by simp
qed

text \<open>A connection announces each stream under an identifier it has not used before, through
  its first 2147483648 streams: the initiator's are all odd, the responder's all even, so the two
  ends never choose the same one.\<close>

lemma mux_stream_ids:
  assumes "ids = announced_ids (mux_queued_run (mux_new_inner r w f inc k, st) es)"
    and "length ids \<le> 2 ^ 31"
  shows "distinct ids \<and> (\<forall>i \<in> set ids. even (unat i) = even (unat k))"
proof -
  have form: "ids = map (\<lambda>i. k + 2 * word_of_nat i) [0..<length ids]"
    using announced_ids_form[of "(mux_new_inner r w f inc k, st)" es] assms(1)
    by (simp add: mux_new_inner_def)
  have "distinct (map (\<lambda>i. k + 2 * word_of_nat i) [0..<length ids])"
    unfolding distinct_map
  proof (intro conjI inj_onI)
    fix i j
    assume "i \<in> set [0..<length ids]" "j \<in> set [0..<length ids]"
      and eq: "k + 2 * word_of_nat i = k + 2 * word_of_nat j"
    then have "i < 2 ^ 31" "j < 2 ^ 31" using assms(2) by auto
    then show "i = j" using eq by (rule ids_inj)
  qed simp
  moreover have "\<forall>i \<in> set (map (\<lambda>i. k + 2 * word_of_nat i) [0..<length ids]). even (unat i) = even (unat k)"
    by (auto simp: even_ids)
  ultimately show ?thesis using form by metis
qed

lemma mux_stream_ids_example:
  "let ids = announced_ids (mux_queued_run
       (mux_new_inner (reader_of []) fresh_writer ''b'' (mpsc_new 64) 1, empty_store)
       [MeAnnounce Control, MeRegister 1, MeAnnounce Bulk])
   in ids = [1, 3] \<and> distinct ids \<and> (\<forall>i \<in> set ids. odd (unat i))"
proof -
  let ?ids = "announced_ids (mux_queued_run
       (mux_new_inner (reader_of []) fresh_writer ''b'' (mpsc_new 64) 1, empty_store)
       [MeAnnounce Control, MeRegister 1, MeAnnounce Bulk])"
  have ids: "?ids = [1, 3]"
    by (simp add: announced_ids_queued mux_event_step_next mux_event_step_def mux_open_announce_def
        mux_enqueue_def mux_new_inner_def mux_locked_def mux_open_register_def mux_insert_def
        chan_new_def empty_store_def announced_ids_def mux_queued_def stream_open_payload_def)
  have "length ?ids \<le> 2 ^ 31" unfolding ids by simp
  from mux_stream_ids[OF refl this] ids show ?thesis by (simp add: Let_def)
qed

section \<open>The order of writing\<close>

definition prio_frames :: "(stream_class \<times> frame) list \<Rightarrow> frame list" where
  "prio_frames log = map snd (filter (\<lambda>x. fst x \<noteq> Bulk) log)"

definition bulk_frames :: "(stream_class \<times> frame) list \<Rightarrow> frame list" where
  "bulk_frames log = map snd (filter (\<lambda>x. fst x = Bulk) log)"

definition wire_of :: "(stream_class \<times> frame) list \<Rightarrow> bytes" where
  "wire_of log = concat (map (\<lambda>x. frame_bytes (snd x)) log)"

lemma log_append [simp]:
  "prio_frames (xs @ ys) = prio_frames xs @ prio_frames ys"
  "bulk_frames (xs @ ys) = bulk_frames xs @ bulk_frames ys"
  "wire_of (xs @ ys) = wire_of xs @ wire_of ys"
  by (simp_all add: prio_frames_def bulk_frames_def wire_of_def)

lemma log_Nil [simp]: "prio_frames [] = []" "bulk_frames [] = []" "wire_of [] = []"
  by (simp_all add: prio_frames_def bulk_frames_def wire_of_def)

text \<open>\<open>mux_wrote w0 log sent m\<close>: of the queued frames \<open>log\<close>, the frames \<open>sent\<close> are on the wire and the
  others wait, in order, in their queue.\<close>

definition mux_wrote ::
  "bytes \<Rightarrow> (stream_class \<times> frame) list \<Rightarrow> (stream_class \<times> frame) list \<Rightarrow> mux_conn \<Rightarrow> bool" where
  "mux_wrote w0 log sent m \<longleftrightarrow>
     open_writer (mx_wr m) \<and> wbytes (mx_wr m) = w0 @ wire_of sent \<and>
     prio_frames sent @ mx_ctrl m = prio_frames log \<and> bulk_frames sent @ mx_bulk m = bulk_frames log"

lemma mux_write_item_open:
  "open_writer (mx_wr m) \<Longrightarrow>
   mux_write_item i m = m\<lparr>mx_wr := (mx_wr m)\<lparr>wbytes := wbytes (mx_wr m) @ frame_bytes i\<rparr>, mx_wpc := WDrain\<rparr>"
  by (simp add: mux_write_item_def write_frame_open)

lemma mux_wrote_cong: "wside m' = wside m \<Longrightarrow> mux_wrote w0 log sent m' = mux_wrote w0 log sent m"
  by (simp add: mux_wrote_def wside_def)

lemma mux_wrote_enqueue:
  assumes "mux_wrote w0 log sent m" and "mx_wpc m \<noteq> WDone"
  shows "mux_wrote w0 (log @ [(c, i)]) sent (snd (mux_enqueue c i m))"
  using assms
  by (cases c) (auto simp: mux_wrote_def mux_enqueue_def prio_frames_def bulk_frames_def)

lemma mux_wrote_write:
  assumes "mux_wrote w0 log sent m"
  shows "\<exists>sent'. mux_wrote w0 log (sent @ sent') (mux_write_step m)"
proof -
  have op: "open_writer (mx_wr m)" using assms by (simp add: mux_wrote_def)
  have ctrl: "mx_ctrl m = i # q \<Longrightarrow> mux_wrote w0 log (sent @ [(Control, i)]) (mux_write_item i (m\<lparr>mx_ctrl := q\<rparr>))"
    for i q using assms op
    by (auto simp: mux_wrote_def mux_write_item_open prio_frames_def bulk_frames_def wire_of_def)
  have bulk: "mx_bulk m = i # q \<Longrightarrow> mux_wrote w0 log (sent @ [(Bulk, i)]) (mux_write_item i (m\<lparr>mx_bulk := q\<rparr>))"
    for i q using assms op
    by (auto simp: mux_wrote_def mux_write_item_open prio_frames_def bulk_frames_def wire_of_def)
  have pc: "mux_wrote w0 log (sent @ []) (m\<lparr>mx_wpc := x\<rparr>)" for x
    using assms by (simp add: mux_wrote_def)
  have same: "mux_wrote w0 log (sent @ []) m" using assms by simp
  show ?thesis
    unfolding mux_write_step_def
    by (auto split: write_pc.split list.split intro: ctrl bulk pc same)
qed

lemma mux_wrote_event:
  assumes "mux_wrote w0 log sent (fst s)"
  shows "\<exists>sent'. mux_wrote w0 (log @ mux_queued (fst s) e) (sent @ sent') (fst (mux_event_step s e))"
proof (cases "\<exists>c. e = MeAnnounce c")
  case True
  then obtain c where e: "e = MeAnnounce c" by blast
  let ?m = "(fst s)\<lparr>mx_next_stream_id := mx_next_stream_id (fst s) + 2\<rparr>"
  have "mux_wrote w0 log sent ?m" using assms by (simp add: mux_wrote_def)
  from mux_wrote_enqueue[OF this] have
    "mx_wpc (fst s) \<noteq> WDone \<Longrightarrow> mux_wrote w0 (log @ mux_queued (fst s) e) (sent @ []) (fst (mux_event_step s e))"
    by (auto simp: e mux_queued_def mux_event_step_def mux_open_announce_def mux_enqueue_def Let_def)
  moreover have "mx_wpc (fst s) = WDone \<Longrightarrow> mux_wrote w0 (log @ mux_queued (fst s) e) (sent @ []) (fst (mux_event_step s e))"
    using assms by (simp add: e mux_queued_def mux_event_step_def mux_open_announce_def mux_enqueue_def mux_wrote_def Let_def)
  ultimately show ?thesis by blast
next
  case False
  note na = this
  show ?thesis
  proof (cases "e = MeWrite")
    case True
    then show ?thesis using mux_wrote_write[OF assms] by (simp add: mux_queued_def mux_event_step_def)
  next
    case False
    have "mux_wrote w0 (log @ mux_queued (fst s) e) (sent @ []) (fst (mux_event_step s e))"
    proof (cases "mx_wpc (fst s) = WDone")
      case True
      have "wside (fst (mux_event_step s e)) = wside (fst s) \<or> e = MeRelease"
        using wside_event[of e s] na False True
        by (cases e) (auto simp: mux_event_step_def mux_send_def mux_enqueue_def)
      then show ?thesis
        using assms True mux_wrote_cong[of "fst (mux_event_step s e)" "fst s"]
        by (auto simp: mux_queued_def mux_event_step_def mux_wrote_def)
    next
      case act: False
      show ?thesis
        using assms act na False mux_wrote_enqueue[OF assms act] wside_event[of e s]
          mux_wrote_cong[of "fst (mux_event_step s e)" "fst s"]
        by (cases e) (auto simp: mux_queued_def mux_event_step_def mux_send_def mux_wrote_def)
    qed
    then show ?thesis by blast
  qed
qed

lemma mux_wrote_run:
  assumes "mux_wrote w0 log sent (fst s)"
  shows "\<exists>sent'. mux_wrote w0 (log @ mux_queued_run s es) (sent @ sent') (fst (run_steps mux_event_step s es))"
  using assms
proof (induction es arbitrary: s log sent)
  case Nil
  then have "mux_wrote w0 (log @ mux_queued_run s []) (sent @ []) (fst (run_steps mux_event_step s []))" by simp
  then show ?case by blast
next
  case (Cons e es)
  obtain t where "mux_wrote w0 (log @ mux_queued (fst s) e) (sent @ t) (fst (mux_event_step s e))"
    using mux_wrote_event[OF Cons.prems] by blast
  from Cons.IH[OF this] show ?case by (metis append_assoc mux_queued_run.simps(2) run_steps.simps(2))
qed

text \<open>On a connection whose socket accepts writes, the bytes on the wire are at every moment the
  frames handed to the two queues, each once, those of the control and meta streams in the order
  they were queued and those of the bulk streams in theirs, save the ones still waiting.\<close>

lemma mux_write_fifo:
  assumes "open_writer w"
    and "run_steps mux_event_step (mux_new_inner r w f inc k, st) es = (m', st')"
    and "log = mux_queued_run (mux_new_inner r w f inc k, st) es"
  shows "\<exists>sent. wbytes (mx_wr m') = wbytes w @ wire_of sent
    \<and> prio_frames sent @ mx_ctrl m' = prio_frames log
    \<and> bulk_frames sent @ mx_bulk m' = bulk_frames log"
proof -
  have "mux_wrote (wbytes w) [] [] (fst (mux_new_inner r w f inc k, st))"
    using assms(1) by (simp add: mux_wrote_def mux_new_inner_def)
  from mux_wrote_run[OF this, of es] show ?thesis
    using assms(2,3) by (auto simp: mux_wrote_def)
qed

lemma mux_two_sends_witness_state:
  "run_steps mux_event_step (mux_new_inner (reader_of []) fresh_writer ''b'' (mpsc_new 64) 1, empty_store)
     [MeSend 1 [9] Bulk, MeSend 3 [8] Control, MeWrite]
   = ((mux_new_inner (reader_of []) fresh_writer ''b'' (mpsc_new 64) 1)
        \<lparr>mx_bulk := [(FtStreamData, u32_to_be_bytes 1 @ [9])],
         mx_wr := fresh_writer\<lparr>wbytes := frame_bytes (FtStreamData, u32_to_be_bytes 3 @ [8])\<rparr>\<rparr>, empty_store)"
  by (simp add: mux_event_step_def mux_send_def mux_enqueue_def mux_new_inner_def mux_write_step_def
      mux_write_item_open)

lemma mux_write_fifo_example:
  "open_writer fresh_writer \<and> (\<exists>sent. frame_bytes (FtStreamData, u32_to_be_bytes 3 @ [8]) = wire_of sent
     \<and> prio_frames sent = [(FtStreamData, u32_to_be_bytes 3 @ [8])]
     \<and> bulk_frames sent @ [(FtStreamData, u32_to_be_bytes 1 @ [9])] = [(FtStreamData, u32_to_be_bytes 1 @ [9])])"
proof -
  let ?s = "(mux_new_inner (reader_of []) fresh_writer ''b'' (mpsc_new 64) 1, empty_store)"
  have log: "mux_queued_run ?s [MeSend 1 [9] Bulk, MeSend 3 [8] Control, MeWrite]
      = [(Bulk, FtStreamData, u32_to_be_bytes 1 @ [9]), (Control, FtStreamData, u32_to_be_bytes 3 @ [8])]"
    by (simp add: mux_queued_def mux_event_step_def mux_send_def mux_enqueue_def mux_new_inner_def)
  show ?thesis
    using mux_write_fifo[OF open_fresh_writer mux_two_sends_witness_state log[symmetric]]
    by (simp add: prio_frames_def bulk_frames_def mux_new_inner_def)
qed

text \<open>One frame of the urgent queue goes out per step, whatever the bulk queue holds.\<close>

lemma mux_write_step_ctrl:
  assumes "open_writer (mx_wr m)" and "mx_wpc m \<noteq> WDone" and "mx_ctrl m = i # q"
  shows "mux_write_step m = m\<lparr>mx_ctrl := q, mx_wpc := WDrain,
    mx_wr := (mx_wr m)\<lparr>wbytes := wbytes (mx_wr m) @ frame_bytes i\<rparr>\<rparr>"
  using assms by (cases "mx_wpc m") (simp_all add: mux_write_step_def mux_write_item_open)

lemma mux_drain_ctrl:
  assumes "open_writer (mx_wr m)" and "mx_wpc m \<noteq> WDone"
  shows "(mux_write_step ^^ length (mx_ctrl m)) m = m\<lparr>mx_ctrl := [],
    mx_wpc := (if mx_ctrl m = [] then mx_wpc m else WDrain),
    mx_wr := (mx_wr m)\<lparr>wbytes := wbytes (mx_wr m) @ concat (map frame_bytes (mx_ctrl m))\<rparr>\<rparr>"
  using assms
proof (induction "mx_ctrl m" arbitrary: m)
  case Nil
  then show ?case by (cases m) simp
next
  case (Cons i q)
  let ?m = "m\<lparr>mx_ctrl := q, mx_wpc := WDrain, mx_wr := (mx_wr m)\<lparr>wbytes := wbytes (mx_wr m) @ frame_bytes i\<rparr>\<rparr>"
  have step: "mux_write_step m = ?m"
    by (rule mux_write_step_ctrl[OF Cons.prems]) (simp add: Cons.hyps(2)[symmetric])
  have "(mux_write_step ^^ length (mx_ctrl m)) m = (mux_write_step ^^ length (mx_ctrl ?m)) (mux_write_step m)"
    by (simp add: Cons.hyps(2)[symmetric] funpow_swap1)
  then show ?case
    using Cons.hyps(1)[of ?m] Cons.prems step by (simp add: Cons.hyps(2)[symmetric])
qed

lemma mux_drain_bulk:
  assumes "open_writer (mx_wr m)" and "mx_wpc m = WDrain" and "mx_held m" and "mx_ctrl m = []"
  shows "(mux_write_step ^^ (2 * length (mx_bulk m))) m = m\<lparr>mx_bulk := [],
    mx_wr := (mx_wr m)\<lparr>wbytes := wbytes (mx_wr m) @ concat (map frame_bytes (mx_bulk m))\<rparr>\<rparr>"
  using assms
proof (induction "mx_bulk m" arbitrary: m)
  case Nil
  then show ?case by (cases m) simp
next
  case (Cons i q)
  let ?m = "m\<lparr>mx_bulk := q, mx_wr := (mx_wr m)\<lparr>wbytes := wbytes (mx_wr m) @ frame_bytes i\<rparr>\<rparr>"
  have step: "mux_write_step (mux_write_step m) = ?m"
    using Cons.prems Cons.hyps(2)[symmetric] by (cases m) (simp add: mux_write_step_def mux_write_item_open)
  have "(mux_write_step ^^ (2 * length (mx_bulk m))) m
      = (mux_write_step ^^ (2 * length (mx_bulk ?m))) (mux_write_step (mux_write_step m))"
    by (simp add: Cons.hyps(2)[symmetric] funpow_swap1)
  then show ?case
    using Cons.hyps(1)[of ?m] Cons.prems step by (simp add: Cons.hyps(2)[symmetric])
qed

lemma mux_drain_all:
  assumes "open_writer (mx_wr m)" and "mx_wpc m = WDrain" and "mx_held m"
  shows "(mux_write_step ^^ (2 * length (mx_bulk m) + length (mx_ctrl m))) m
    = m\<lparr>mx_ctrl := [], mx_bulk := [], mx_wr := (mx_wr m)\<lparr>wbytes := wbytes (mx_wr m)
        @ concat (map frame_bytes (mx_ctrl m)) @ concat (map frame_bytes (mx_bulk m))\<rparr>\<rparr>"
proof -
  let ?m = "m\<lparr>mx_ctrl := [], mx_wr := (mx_wr m)\<lparr>wbytes := wbytes (mx_wr m) @ concat (map frame_bytes (mx_ctrl m))\<rparr>\<rparr>"
  have "(mux_write_step ^^ length (mx_ctrl m)) m = ?m"
    using mux_drain_ctrl[of m] assms by (cases m) simp
  then show ?thesis
    using mux_drain_bulk[of ?m] assms by (simp add: funpow_add)
qed



text \<open>Once nobody holds the connection, the bulk frames still queued are never written.\<close>

lemma mux_release_loses_bulk:
  assumes "\<not> mx_held m" and "mx_ctrl m = []"
  shows "wbytes (mx_wr ((mux_write_step ^^ n) m)) = wbytes (mx_wr m)
    \<and> mx_bulk ((mux_write_step ^^ n) m) = mx_bulk m"
proof -
  have "wbytes (mx_wr ((mux_write_step ^^ n) m)) = wbytes (mx_wr m)
    \<and> mx_bulk ((mux_write_step ^^ n) m) = mx_bulk m \<and> \<not> mx_held ((mux_write_step ^^ n) m)
    \<and> mx_ctrl ((mux_write_step ^^ n) m) = []"
    using assms
    by (induction n) (auto simp: mux_write_step_def split: write_pc.splits)
  then show ?thesis by blast
qed

section \<open>From one end to the other\<close>

text \<open>Data frames of a registered stream reach its channel in order, two steps of the read task each.\<close>

definition data_frame :: "u32 \<Rightarrow> bytes \<Rightarrow> frame" where
  "data_frame sid d = (FtStreamData, u32_to_be_bytes sid @ d)"

lemma mux_read_data_frame:
  assumes "\<not> mx_rdone m" and "mx_pending m = None" and "mx_streams m sid = Some ch"
    and "rx_open (cs_chan st ch)" and "length (items (cs_chan st ch)) < cap (cs_chan st ch)"
    and "frame_okay (data_frame sid d)" and "rbytes (mx_rd m) = frame_bytes (data_frame sid d) @ rest"
  shows "run_steps mux_event_step (m, st) [MeRead, MeRead] =
    (m\<lparr>mx_rd := (mx_rd m)\<lparr>rbytes := rest\<rparr>\<rparr>,
     st\<lparr>cs_chan := (cs_chan st)(ch := (cs_chan st ch)\<lparr>items := items (cs_chan st ch) @ [d]\<rparr>)\<rparr>)"
proof -
  let ?m1 = "m\<lparr>mx_rd := (mx_rd m)\<lparr>rbytes := rest\<rparr>, mx_pending := Some (PendData ch d)\<rparr>"
  have "mx_rd m = (mx_rd m)\<lparr>rbytes := frame_bytes (data_frame sid d) @ rest\<rparr>" using assms(7) by simp
  then have "read_frame (mx_rd m) = (Inr (data_frame sid d), (mx_rd m)\<lparr>rbytes := rest\<rparr>)"
    using read_frame_frame_bytes[OF assms(6)] by metis
  then have "mux_read_step m st = (?m1, st)"
    using assms(1-3) by (simp add: mux_read_step_def data_frame_def mux_handle_frame_def)
  moreover have "mux_read_step ?m1 st = (?m1\<lparr>mx_pending := None\<rparr>,
      st\<lparr>cs_chan := (cs_chan st)(ch := (cs_chan st ch)\<lparr>items := items (cs_chan st ch) @ [d]\<rparr>)\<rparr>)"
    using assms(1,4,5) by (simp add: mux_read_step_def mux_finish_pending_def mpsc_send_def)
  moreover have "?m1\<lparr>mx_pending := None\<rparr> = m\<lparr>mx_rd := (mx_rd m)\<lparr>rbytes := rest\<rparr>\<rparr>"
    using assms(2) by (cases m) simp
  ultimately show ?thesis by (simp add: mux_event_step_def)
qed

lemma mux_read_data_frames:
  assumes "\<not> mx_rdone m" and "mx_pending m = None" and "mx_streams m sid = Some ch"
    and "rx_open (cs_chan st ch)" and "length (items (cs_chan st ch)) + length ds \<le> cap (cs_chan st ch)"
    and "list_all (\<lambda>d. frame_okay (data_frame sid d)) ds"
    and "rbytes (mx_rd m) = concat (map (\<lambda>d. frame_bytes (data_frame sid d)) ds) @ rest"
  shows "run_steps mux_event_step (m, st) (concat (map (\<lambda>_. [MeRead, MeRead]) ds)) =
    (m\<lparr>mx_rd := (mx_rd m)\<lparr>rbytes := rest\<rparr>\<rparr>,
     st\<lparr>cs_chan := (cs_chan st)(ch := (cs_chan st ch)\<lparr>items := items (cs_chan st ch) @ ds\<rparr>)\<rparr>)"
  using assms
proof (induction ds arbitrary: m st)
  case Nil
  then show ?case by (cases m; cases st; cases "mx_rd m") simp
next
  case (Cons d ds)
  let ?rest = "concat (map (\<lambda>d. frame_bytes (data_frame sid d)) ds) @ rest"
  let ?m = "m\<lparr>mx_rd := (mx_rd m)\<lparr>rbytes := ?rest\<rparr>\<rparr>"
  let ?st = "st\<lparr>cs_chan := (cs_chan st)(ch := (cs_chan st ch)\<lparr>items := items (cs_chan st ch) @ [d]\<rparr>)\<rparr>"
  have "run_steps mux_event_step (m, st) [MeRead, MeRead] = (?m, ?st)"
    using Cons.prems by (intro mux_read_data_frame) auto
  moreover have "run_steps mux_event_step (?m, ?st) (concat (map (\<lambda>_. [MeRead, MeRead]) ds))
      = (?m\<lparr>mx_rd := (mx_rd ?m)\<lparr>rbytes := rest\<rparr>\<rparr>,
         ?st\<lparr>cs_chan := (cs_chan ?st)(ch := (cs_chan ?st ch)\<lparr>items := items (cs_chan ?st ch) @ ds\<rparr>)\<rparr>)"
    using Cons.prems by (intro Cons.IH) auto
  ultimately show ?case by (simp add: run_steps_append fun_upd_def cong: if_cong)
qed

text \<open>The sender's side: what opening a stream and sending on it puts on the wire.\<close>

lemma mux_send_events:
  assumes "mx_wpc m \<noteq> WDone"
  shows "run_steps mux_event_step (m, st) (map (\<lambda>d. MeSend sid d cls) ds)
    = (if cls = Bulk then m\<lparr>mx_bulk := mx_bulk m @ map (data_frame sid) ds\<rparr>
       else m\<lparr>mx_ctrl := mx_ctrl m @ map (data_frame sid) ds\<rparr>, st)"
  using assms
proof (induction ds arbitrary: m)
  case Nil
  then show ?case by (cases m) simp
next
  case (Cons d ds)
  let ?m = "if cls = Bulk then m\<lparr>mx_bulk := mx_bulk m @ [data_frame sid d]\<rparr>
    else m\<lparr>mx_ctrl := mx_ctrl m @ [data_frame sid d]\<rparr>"
  have "mux_event_step (m, st) (MeSend sid d cls) = (?m, st)"
    using Cons.prems by (cases cls) (simp_all add: mux_event_step_def mux_send_def mux_enqueue_def data_frame_def)
  then show ?case using Cons.IH[of ?m] Cons.prems by (cases cls) simp_all
qed

definition open_frame :: "u32 \<Rightarrow> stream_class \<Rightarrow> frame" where
  "open_frame sid cls = (FtStreamOpen, stream_open_payload sid cls)"

lemma mux_initiator_announce:
  "mux_event_step (mux_new_initiator r w f inc, st) (MeAnnounce cls)
     = (if cls = Bulk then (mux_new_initiator r w f inc)\<lparr>mx_next_stream_id := 3, mx_bulk := [open_frame 1 cls]\<rparr>
        else (mux_new_initiator r w f inc)\<lparr>mx_next_stream_id := 3, mx_ctrl := [open_frame 1 cls]\<rparr>, st)"
  by (cases cls)
    (simp_all add: mux_event_step_def mux_open_announce_def mux_enqueue_def mux_new_initiator_def
      mux_new_inner_def open_frame_def)

lemma mux_sender_wire:
  assumes "run_steps mux_event_step (mux_new_initiator r fresh_writer f inc, st)
      (MeAnnounce cls # map (\<lambda>d. MeSend 1 d cls) ds) = (a, st')"
    and "wire = wbytes (mx_wr ((mux_write_step ^^ (2 * length (mx_bulk a) + length (mx_ctrl a))) a))"
  shows "wire = frame_bytes (open_frame 1 cls) @ concat (map (\<lambda>d. frame_bytes (data_frame 1 d)) ds)"
proof -
  let ?mi = "mux_new_initiator r fresh_writer f inc"
  let ?m = "if cls = Bulk then ?mi\<lparr>mx_next_stream_id := 3, mx_bulk := [open_frame 1 cls]\<rparr>
    else ?mi\<lparr>mx_next_stream_id := 3, mx_ctrl := [open_frame 1 cls]\<rparr>"
  have "mux_event_step (?mi, st) (MeAnnounce cls) = (?m, st)"
    by (rule mux_initiator_announce)
  moreover have "mx_wpc ?m \<noteq> WDone" by (simp add: mux_new_initiator_def mux_new_inner_def)
  ultimately have a: "a = (if cls = Bulk then ?m\<lparr>mx_bulk := mx_bulk ?m @ map (data_frame 1) ds\<rparr>
       else ?m\<lparr>mx_ctrl := mx_ctrl ?m @ map (data_frame 1) ds\<rparr>)"
    using assms(1) mux_send_events[of ?m st 1 cls ds] by simp
  have "open_writer (mx_wr a)" "mx_wpc a = WDrain" "mx_held a"
    unfolding a by (simp_all add: mux_new_initiator_def mux_new_inner_def)
  from mux_drain_all[OF this] assms(2) show ?thesis
    unfolding a by (simp add: mux_new_initiator_def mux_new_inner_def comp_def)
qed

text \<open>The responder's side: its first task registers the announced stream and notifies the daemon.\<close>

lemma mux_first_open:
  assumes "m = mux_new_responder r w f (mpsc_new 64) (stream_open_payload sid cls)"
  shows "run_steps mux_event_step (m, st) [MeFirst, MeFirst]
    = (m\<lparr>mx_first := OtDone, mx_streams := [sid \<mapsto> cs_next st],
         mx_incoming := (mpsc_new 64)\<lparr>items := [\<lparr>ims_stream_id = sid, ims_class = cls,
           ims_from_agent_id = f, ims_recv_rx = cs_next st\<rparr>]\<rparr>\<rparr>,
       snd (chan_new 64 st))"
proof -
  let ?i = "\<lparr>ims_stream_id = sid, ims_class = cls, ims_from_agent_id = f, ims_recv_rx = cs_next st\<rparr>"
  let ?m = "m\<lparr>mx_streams := [sid \<mapsto> cs_next st], mx_first := OtNotify ?i\<rparr>"
  have "mux_first_step m st = (?m, snd (chan_new 64 st))"
    by (simp add: assms mux_first_step_def mux_new_responder_def mux_new_inner_def mux_locked_def
        process_stream_open_def stream_open_payload_def chan_new_def
        mux_insert_def chan_drop_tx_def nth_append)
  moreover have "mux_first_step ?m st' = (m\<lparr>mx_first := OtDone, mx_streams := [sid \<mapsto> cs_next st],
      mx_incoming := (mpsc_new 64)\<lparr>items := [?i]\<rparr>\<rparr>, st')" for st'
    by (simp add: assms mux_first_step_def mux_notify_def mpsc_send_def mpsc_new_def
        mux_new_responder_def mux_new_inner_def mux_drop_incoming_def)
  ultimately show ?thesis by (simp add: mux_event_step_def)
qed



section \<open>What the tasks do not guarantee\<close>

text \<open>Data for a stream that is not registered is dropped without notice. The responder registers
  the first stream in a task of its own, so its read task can reach that stream's data first.\<close>

lemma mux_unregistered_data_dropped:
  assumes "\<not> mx_rdone m" and "mx_pending m = None" and "mx_streams m sid = None"
    and "frame_okay (data_frame sid d)" and "rbytes (mx_rd m) = frame_bytes (data_frame sid d) @ rest"
  shows "mux_event_step (m, st) MeRead = (m\<lparr>mx_rd := (mx_rd m)\<lparr>rbytes := rest\<rparr>\<rparr>, st)"
proof -
  have "mx_rd m = (mx_rd m)\<lparr>rbytes := frame_bytes (data_frame sid d) @ rest\<rparr>" using assms(5) by simp
  then have "read_frame (mx_rd m) = (Inr (data_frame sid d), (mx_rd m)\<lparr>rbytes := rest\<rparr>)"
    using read_frame_frame_bytes[OF assms(4)] by metis
  then show ?thesis
    using assms(1-3) by (simp add: mux_event_step_def mux_read_step_def data_frame_def mux_handle_frame_def)
qed

text \<open>The first message on an accepted connection can be lost: if the responder's read task runs
  before the task that registers the stream announced by the connection's first frame, a data
  frame that followed it is consumed and dropped, and the stream is then registered with an empty
  channel.\<close>

lemma first_data_can_be_lost:
  assumes "frame_okay (data_frame sid d)"
  shows "\<exists>b stb ch. run_steps mux_event_step
      (mux_new_responder (reader_of (frame_bytes (data_frame sid d))) w g (mpsc_new 64) (stream_open_payload sid cls), st)
      [MeRead, MeFirst, MeFirst] = (b, stb)
    \<and> rbytes (mx_rd b) = [] \<and> mx_streams b sid = Some ch \<and> items (cs_chan stb ch) = []"
proof -
  let ?r = "reader_of (frame_bytes (data_frame sid d))"
  let ?m = "\<lambda>r. mux_new_responder r w g (mpsc_new 64) (stream_open_payload sid cls)"
  have "mux_event_step (?m ?r, st) MeRead = ((?m ?r)\<lparr>mx_rd := (mx_rd (?m ?r))\<lparr>rbytes := []\<rparr>\<rparr>, st)"
    using assms by (intro mux_unregistered_data_dropped[where sid = sid and d = d])
      (simp_all add: mux_new_responder_def mux_new_inner_def)
  moreover have "(?m ?r)\<lparr>mx_rd := (mx_rd (?m ?r))\<lparr>rbytes := []\<rparr>\<rparr> = ?m (reader_of [])"
    by (simp add: mux_new_responder_def mux_new_inner_def)
  ultimately have "run_steps mux_event_step (?m ?r, st) [MeRead, MeFirst, MeFirst]
      = run_steps mux_event_step (?m (reader_of []), st) [MeFirst, MeFirst]" by simp
  then show ?thesis
    using mux_first_open[OF refl, of "reader_of []" w g sid cls st]
    by (auto simp: chan_new_def mpsc_new_def mux_new_responder_def mux_new_inner_def)
qed

lemma first_data_can_be_lost_example:
  "frame_okay (data_frame 1 [7]) \<and> (\<exists>b stb ch. run_steps mux_event_step
      (mux_new_responder (reader_of (frame_bytes (data_frame 1 [7]))) fresh_writer ''a'' (mpsc_new 64)
         (stream_open_payload 1 Control), empty_store)
      [MeRead, MeFirst, MeFirst] = (b, stb)
    \<and> rbytes (mx_rd b) = [] \<and> mx_streams b 1 = Some ch \<and> items (cs_chan stb ch) = [])"
proof -
  have ok: "frame_okay (data_frame 1 [7])" by (simp add: frame_okay_def data_frame_def max_frame_def)
  then show ?thesis using first_data_can_be_lost[OF ok] by blast
qed

text \<open>When the connection breaks, the read task ends and leaves every stream's channel open, so
  nobody downstream learns of it.\<close>

lemma mux_connection_loss_unreported:
  assumes "mx_rd m = reader_of []" and "\<not> mx_rdone m" and "mx_pending m = None"
  shows "mux_read_step m st = (m', st') \<Longrightarrow> mx_rdone m' \<and> mx_streams m' = mx_streams m \<and> st' = st"
  using assms read_frame_eof by (auto simp: mux_read_step_def mux_drop_incoming_def split: if_splits)

end
