(* ===== verification/Resolver.thy ===== *)
theory Resolver
  imports Auth Http
begin

text \<open>
  The registry client of \<open>rust/crates/roboat-resolver/src/lib.rs\<close>: the cached lookup of an agent's
  tunnel endpoint and the signed heartbeats that keep the daemon's own endpoint current. Time is
  in nanoseconds; the registry, its JSON, the hash and the signature scheme are parameters. A
  panic is the value \<open>None\<close>.
\<close>

section \<open>Resolving\<close>

datatype resolve_error =
    ResolveHttp reqwest_error
  | AgentNotFound string
  | NoEndpoint string
  | NegativeCached

record cache_entry =
  ce_value :: "string option"
  ce_expires :: nat

record resolver =
  rs_registry_url :: string
  rs_cache :: "string \<Rightarrow> cache_entry option"

definition from_secs :: "nat \<Rightarrow> nat" where
  "from_secs n = n * 1000000000"

definition resolver_new :: "string \<Rightarrow> resolver" where
  "resolver_new registry_url =
     \<lparr>rs_registry_url = trim_end_matches CHR ''/'' registry_url, rs_cache = Map.empty\<rparr>"

definition cache_insert :: "string \<Rightarrow> string option \<Rightarrow> nat \<Rightarrow> resolver \<Rightarrow> resolver" where
  "cache_insert agent_id v expires r =
     r\<lparr>rs_cache := (rs_cache r)(agent_id \<mapsto> \<lparr>ce_value = v, ce_expires = expires\<rparr>)\<rparr>"

text \<open>What a lookup asks the registry, when it asks: the URL, and the answer decoded to the
  connection's endpoint.\<close>

definition discover_url :: "resolver \<Rightarrow> string \<Rightarrow> string" where
  "discover_url r agent_id = rs_registry_url r @ ''/v1/discover/agents/'' @ agent_id"

text \<open>\<open>now\<close> is the clock when the cache is consulted, \<open>later\<close> when the answer is stored.\<close>

definition resolve_cached :: "nat \<Rightarrow> resolver \<Rightarrow> string \<Rightarrow> (resolve_error + string) option" where
  "resolve_cached now r agent_id =
     (case rs_cache r agent_id of
        None \<Rightarrow> None
      | Some entry \<Rightarrow>
          if now < ce_expires entry
          then Some (case ce_value entry of Some ep \<Rightarrow> Inr ep | None \<Rightarrow> Inl NegativeCached)
          else None)"

definition resolve_answer ::
  "(bytes \<Rightarrow> string option) \<Rightarrow> nat \<Rightarrow> string \<Rightarrow> http_response \<Rightarrow> resolver \<Rightarrow>
   (resolve_error + string) option \<times> resolver" where
  "resolve_answer decode later agent_id resp r =
     (if status resp = 404 then
        (Some (Inl (AgentNotFound agent_id)), cache_insert agent_id None (later + from_secs 5) r)
      else if \<not> is_success (status resp) then
        (case error_for_status resp of
           Inl e \<Rightarrow> (Some (Inl (ResolveHttp e)), r)
         | Inr _ \<Rightarrow> (None, r))
      else
        case json_body decode resp of
          Inl e \<Rightarrow> (Some (Inl (ResolveHttp e)), r)
        | Inr ep \<Rightarrow>
            if ep = [] then
              (Some (Inl (NoEndpoint agent_id)), cache_insert agent_id None (later + from_secs 5) r)
            else (Some (Inr ep), cache_insert agent_id (Some ep) (later + from_secs 60) r))"

definition resolve ::
  "(string \<Rightarrow> reqwest_error + http_response) \<Rightarrow> (bytes \<Rightarrow> string option) \<Rightarrow> nat \<Rightarrow> nat \<Rightarrow> string \<Rightarrow>
   resolver \<Rightarrow> (resolve_error + string) option \<times> resolver" where
  "resolve http_get decode now later agent_id r =
     (case resolve_cached now r agent_id of
        Some res \<Rightarrow> (Some res, r)
      | None \<Rightarrow>
          (case http_get (discover_url r agent_id) of
             Inl e \<Rightarrow> (Some (Inl (ResolveHttp e)), r)
           | Inr resp \<Rightarrow> resolve_answer decode later agent_id resp r))"

definition invalidate :: "string \<Rightarrow> resolver \<Rightarrow> resolver" where
  "invalidate agent_id r = r\<lparr>rs_cache := (rs_cache r)(agent_id := None)\<rparr>"

section \<open>Registering\<close>

datatype register_error = RegisterHttp reqwest_error | InvalidKey string | Rejected nat

record registrar =
  rg_registry_url :: string
  rg_agent_id :: string
  rg_signing_key :: bytes

record hex_codec =
  hx_decode :: "string \<Rightarrow> string + bytes"
  hx_encode :: "bytes \<Rightarrow> string"

definition registrar_from_seed_hex ::
  "hex_codec \<Rightarrow> string \<Rightarrow> string \<Rightarrow> string \<Rightarrow> register_error + registrar" where
  "registrar_from_seed_hex hx registry_url agent_id seed_hex =
     (case hx_decode hx seed_hex of
        Inl e \<Rightarrow> Inl (InvalidKey e)
      | Inr bs \<Rightarrow>
          if length bs \<noteq> 32 then Inl (InvalidKey ''need exactly 32 bytes'')
          else Inr \<lparr>rg_registry_url = trim_end_matches CHR ''/'' registry_url, rg_agent_id = agent_id,
                    rg_signing_key = bs\<rparr>)"

record signed_post =
  sp_url :: string
  sp_headers :: "header list"
  sp_body :: bytes

text \<open>The request of one heartbeat: the JSON body, a fresh nonce, the clock in seconds.\<close>

definition registrar_request ::
  "ed25519 \<Rightarrow> hex_codec \<Rightarrow> (bytes \<Rightarrow> bytes) \<Rightarrow> ((string \<times> string) list \<Rightarrow> bytes) \<Rightarrow> bytes \<Rightarrow> nat \<Rightarrow>
   registrar \<Rightarrow> string \<Rightarrow> signed_post" where
  "registrar_request ed hx sha256 to_vec nonce_bytes secs rg tunnel_endpoint =
     (let body_bytes = to_vec [(''tunnel_endpoint'', tunnel_endpoint), (''status'', ''online'')];
          nonce = hx_encode hx nonce_bytes;
          ts = show_nat secs;
          body_hash = hx_encode hx (sha256 body_bytes);
          msg = rg_agent_id rg @ nonce @ body_hash;
          sig_hex = hx_encode hx (sign_of ed (rg_signing_key rg) (as_bytes msg))
      in \<lparr>sp_url = rg_registry_url rg @ ''/v1/agents/'' @ rg_agent_id rg @ ''/heartbeat'',
          sp_headers = [(''X-Agent-Nonce'', nonce), (''X-Agent-Timestamp'', ts),
                        (''X-Agent-Signature'', sig_hex), (''Content-Type'', ''application/json'')],
          sp_body = body_bytes\<rparr>)"

definition registrar_heartbeat ::
  "(signed_post \<Rightarrow> reqwest_error + http_response) \<Rightarrow> signed_post \<Rightarrow> register_error + unit" where
  "registrar_heartbeat http_post req =
     (case http_post req of
        Inl e \<Rightarrow> Inl (RegisterHttp e)
      | Inr resp \<Rightarrow> if \<not> is_success (status resp) then Inl (Rejected (status resp)) else Inr ())"

text \<open>The heartbeat loop, as the results of its heartbeats: one at once, then one per tick. A zero
  interval panics after the first; \<open>sent\<close> are the requests and answers, in order.\<close>

definition start_heartbeat_loop ::
  "nat \<Rightarrow> ((signed_post \<Rightarrow> reqwest_error + http_response) \<times> signed_post) list \<Rightarrow>
   (register_error + unit) list \<times> bool" where
  "start_heartbeat_loop interval sent =
     (let results = map (\<lambda>(post, req). registrar_heartbeat post req) sent in
      if interval = 0 then (take 1 results, False) else (results, True))"

definition resolver_detect_local_ip :: "bool \<Rightarrow> bool \<Rightarrow> string option \<Rightarrow> string option" where
  "resolver_detect_local_ip bound connected local_addr =
     (if \<not> bound then None else if \<not> connected then None else local_addr)"

section \<open>What the cache promises\<close>

datatype resolver_event =
    EvResolve string "string \<Rightarrow> reqwest_error + http_response" nat nat
  | EvInvalidate string

fun resolver_step :: "(bytes \<Rightarrow> string option) \<Rightarrow> resolver \<Rightarrow> resolver_event \<Rightarrow> resolver" where
  "resolver_step decode r (EvResolve agent_id http_get now later) =
     snd (resolve http_get decode now later agent_id r)"
| "resolver_step decode r (EvInvalidate agent_id) = invalidate agent_id r"

text \<open>\<open>answered decode ev agent_id ep later\<close>: in the lookup \<open>ev\<close> the registry named \<open>ep\<close> for the agent,
  at time \<open>later\<close>.\<close>

definition answered :: "(bytes \<Rightarrow> string option) \<Rightarrow> string \<Rightarrow> resolver_event \<Rightarrow> string \<Rightarrow> string \<Rightarrow> nat \<Rightarrow> bool" where
  "answered decode url ev agent_id ep later \<longleftrightarrow>
     (\<exists>http_get now resp. ev = EvResolve agent_id http_get now later \<and>
        http_get (url @ ''/v1/discover/agents/'' @ agent_id) = Inr resp \<and>
        is_success (status resp) \<and> decode (body resp) = Some ep)"

lemma cache_insert_simps [simp]:
  "rs_cache (cache_insert i v t r) = (rs_cache r)(i \<mapsto> \<lparr>ce_value = v, ce_expires = t\<rparr>)"
  "rs_registry_url (cache_insert i v t r) = rs_registry_url r"
  by (simp_all add: cache_insert_def)

lemma resolve_url [simp]: "rs_registry_url (snd (resolve g decode now later i r)) = rs_registry_url r"
  by (auto simp: resolve_def resolve_answer_def error_for_status_def json_body_def
      split: option.splits sum.splits)

lemma resolver_step_url [simp]: "rs_registry_url (resolver_step decode r ev) = rs_registry_url r"
  by (cases ev) (simp_all add: invalidate_def)

text \<open>The cache after a lookup: as before, but for the looked-up agent, whose entry is what the
  registry just said.\<close>

lemma resolve_cache:
  assumes "rs_cache (snd (resolve g decode now later i r)) j = Some e" and "ce_value e = Some ep"
  shows "rs_cache r j = Some e \<or>
    (answered decode (rs_registry_url r) (EvResolve i g now later) j ep later \<and> ce_expires e = later + from_secs 60)"
  using assms
  by (auto simp: resolve_def resolve_answer_def error_for_status_def json_body_def answered_def
      discover_url_def split: option.splits sum.splits if_splits)

lemma resolver_backed:
  assumes "rs_cache (run_steps (resolver_step decode) r es) i = Some e" and "ce_value e = Some ep"
  shows "rs_cache r i = Some e \<or>
    (\<exists>ev \<in> set es. \<exists>later. answered decode (rs_registry_url r) ev i ep later \<and> ce_expires e = later + from_secs 60)"
  using assms(1)
proof (induction es arbitrary: r)
  case Nil
  then show ?case by simp
next
  case (Cons ev es)
  from Cons.prems Cons.IH[of "resolver_step decode r ev"]
  have "rs_cache (resolver_step decode r ev) i = Some e \<or>
    (\<exists>ev \<in> set es. \<exists>later. answered decode (rs_registry_url r) ev i ep later \<and> ce_expires e = later + from_secs 60)"
    by simp
  moreover have "rs_cache r i = Some e \<or>
      (\<exists>later. answered decode (rs_registry_url r) ev i ep later \<and> ce_expires e = later + from_secs 60)"
    if "rs_cache (resolver_step decode r ev) i = Some e"
  proof (cases ev)
    case (EvResolve j g now later)
    then show ?thesis using that resolve_cache[of g decode now later j r i e ep] assms(2) by auto
  next
    case (EvInvalidate j)
    then show ?thesis using that by (simp add: invalidate_def split: if_splits)
  qed
  ultimately show ?case by auto
qed


text \<open>An entry survives whatever happens before it expires, short of an invalidation.\<close>

lemma resolver_entry_kept:
  assumes "rs_cache r i = Some e" and "ce_expires e = t"
    and "list_all (\<lambda>ev. case ev of EvInvalidate j \<Rightarrow> j \<noteq> i | EvResolve _ _ now _ \<Rightarrow> now < t) es"
  shows "rs_cache (run_steps (resolver_step decode) r es) i = Some e"
  using assms
proof (induction es arbitrary: r)
  case Nil
  then show ?case by simp
next
  case (Cons ev es)
  have "rs_cache (resolver_step decode r ev) i = Some e"
  proof (cases ev)
    case (EvResolve j g now later)
    then show ?thesis
      using Cons.prems
      by (cases "j = i")
        (auto simp: resolve_def resolve_cached_def resolve_answer_def error_for_status_def json_body_def
          split: option.splits sum.splits)
  qed (use Cons.prems in \<open>auto simp: invalidate_def\<close>)
  then show ?case using Cons by simp
qed

text \<open>What the registry said is remembered: for 60 seconds after it named an endpoint, and for 5
  after it answered that an agent does not exist or has no endpoint, every further lookup of that
  agent gives the same endpoint, or reports a cached absence, without asking the registry, in
  whatever order other lookups come between, unless the entry is invalidated.\<close>

lemma resolver_cache_holds:
  assumes "resolve_cached now r agent_id = None"
    and "http_get (discover_url r agent_id) = Inr resp"
    and "is_success (status resp) \<and> decode (body resp) = Some ep \<or> status resp = 404 \<and> ep = []"
    and "resolve http_get decode now later agent_id r = (res, r1)"
    and "expires = later + from_secs (if ep = [] then 5 else 60)"
    and "list_all (\<lambda>ev. case ev of EvInvalidate j \<Rightarrow> j \<noteq> agent_id | EvResolve _ _ t _ \<Rightarrow> t < expires) es"
    and "now' < expires" and "run_steps (resolver_step decode) r1 es = r2"
  shows "resolve http_get' decode now' later' agent_id r2
    = (Some (if ep = [] then Inl NegativeCached else Inr ep), r2)"
proof -
  let ?v = "if ep = [] then None else Some ep"
  have "rs_cache r1 agent_id = Some \<lparr>ce_value = ?v, ce_expires = expires\<rparr>"
    using assms(1-5)
    by (auto simp: resolve_def resolve_answer_def json_body_def is_success_def split: if_splits)
  from resolver_entry_kept[OF this _ assms(6)]
  have "rs_cache (run_steps (resolver_step decode) r1 es) agent_id
      = Some \<lparr>ce_value = ?v, ce_expires = expires\<rparr>" by simp
  then have "rs_cache r2 agent_id = Some \<lparr>ce_value = ?v, ce_expires = expires\<rparr>" using assms(8) by simp
  then show ?thesis
    using assms(7) by (simp add: resolve_def resolve_cached_def)
qed

text \<open>An outage is not remembered, and a registry answer that is neither a success nor an error
  status makes the lookup panic.\<close>

lemma resolve_outage_not_cached:
  assumes "resolve_cached now r agent_id = None" and "http_get (discover_url r agent_id) = Inl e"
  shows "resolve http_get decode now later agent_id r = (Some (Inl (ResolveHttp e)), r)"
  using assms by (simp add: resolve_def)

lemma resolve_panics_on_redirect:
  assumes "resolve_cached now r agent_id = None" and "http_get (discover_url r agent_id) = Inr resp"
    and "status resp = 304"
  shows "resolve http_get decode now later agent_id r = (None, r)"
  using assms by (simp add: resolve_def resolve_answer_def is_success_def error_for_status_def)

definition demo_registry :: "string \<Rightarrow> reqwest_error + http_response" where
  "demo_registry url = Inr \<lparr>status = 200, body = [1]\<rparr>"

definition demo_decode :: "bytes \<Rightarrow> string option" where
  "demo_decode bs = Some ''10.0.0.2:11411''"

lemma demo_resolve:
  "resolve demo_registry demo_decode 0 2 ''agt_a'' (resolver_new ''http://r'')
     = (Some (Inr ''10.0.0.2:11411''),
        cache_insert ''agt_a'' (Some ''10.0.0.2:11411'') (2 + from_secs 60) (resolver_new ''http://r''))"
  by (simp add: resolve_def resolve_cached_def resolver_new_def demo_registry_def demo_decode_def
      resolve_answer_def is_success_def json_body_def)


lemma resolver_cache_holds_example:
  "let r1 = snd (resolve demo_registry demo_decode 0 2 ''agt_a'' (resolver_new ''http://r''));
       r2 = run_steps (resolver_step demo_decode) r1 [EvResolve ''agt_b'' demo_registry 5 6]
   in resolve (\<lambda>_. Inl (RqSend ''offline'')) demo_decode 7 8 ''agt_a'' r2 = (Some (Inr ''10.0.0.2:11411''), r2)"
proof -
  have "resolve_cached 0 (resolver_new ''http://r'') ''agt_a'' = None"
    by (simp add: resolve_cached_def resolver_new_def)
  moreover have "demo_registry u = Inr \<lparr>status = 200, body = [1]\<rparr>" for u
    by (simp add: demo_registry_def)
  moreover have "is_success (status \<lparr>status = 200, body = [1]\<rparr>) \<and>
      demo_decode (body \<lparr>status = 200, body = [1]\<rparr>) = Some ''10.0.0.2:11411'' \<or>
      status \<lparr>status = 200, body = [1]\<rparr> = 404 \<and> ''10.0.0.2:11411'' = []"
    by (simp add: is_success_def demo_decode_def)
  ultimately show ?thesis
    using resolver_cache_holds[where now = 0 and later = 2 and now' = 7 and ep = "''10.0.0.2:11411''"
        and agent_id = "''agt_a''" and http_get = demo_registry and decode = demo_decode
        and r = "resolver_new ''http://r''" and es = "[EvResolve ''agt_b'' demo_registry 5 6]",
        OF _ _ _ surjective_pairing refl _ _ refl]
    by (simp add: Let_def from_secs_def)
qed

section \<open>What a heartbeat proves\<close>

text \<open>The registry's side: the signature header must be a signature of the agent's name, the nonce
  header and the hash of the body it received.\<close>

definition agent_signature_ok ::
  "ed25519 \<Rightarrow> hex_codec \<Rightarrow> (bytes \<Rightarrow> bytes) \<Rightarrow> bytes \<Rightarrow> string \<Rightarrow> signed_post \<Rightarrow> bool" where
  "agent_signature_ok ed hx sha256 pk agent_id req =
     (case (map_of (sp_headers req) ''X-Agent-Nonce'', map_of (sp_headers req) ''X-Agent-Signature'') of
        (Some nonce, Some sig) \<Rightarrow>
          (case hx_decode hx sig of
             Inl _ \<Rightarrow> False
           | Inr s \<Rightarrow> verify_ok ed pk (as_bytes (agent_id @ nonce @ hx_encode hx (sha256 (sp_body req)))) s)
      | _ \<Rightarrow> False)"

text \<open>A heartbeat sent with the key of an accepted seed passes the registry's signature check
  under the seed's public key, for that agent's name and for the very body sent, and goes to that
  agent's URL without a doubled slash. The hypotheses are that hexadecimal decodes to what was
  encoded and that signatures verify under their own key.\<close>

lemma registrar_heartbeat_verifies:
  assumes "registrar_from_seed_hex hx registry_url agent_id seed_hex = Inr rg"
    and "hx_decode hx seed_hex = Inr seed"
    and "\<And>bs. hx_decode hx (hx_encode hx bs) = Inr bs"
    and "\<And>m. verify_ok ed (pub_of ed seed) m (sign_of ed seed m)"
    and "req = registrar_request ed hx sha256 to_vec nonce secs rg endp"
  shows "agent_signature_ok ed hx sha256 (pub_of ed seed) agent_id req
    \<and> sp_url req = trim_end_matches CHR ''/'' registry_url @ ''/v1/agents/'' @ agent_id @ ''/heartbeat''
    \<and> sp_body req = to_vec [(''tunnel_endpoint'', endp), (''status'', ''online'')]
    \<and> length seed = 32"
  using assms
  by (auto simp: registrar_from_seed_hex_def registrar_request_def agent_signature_ok_def Let_def
      split: if_splits)

definition demo_hex :: hex_codec where
  "demo_hex = \<lparr>hx_decode = (\<lambda>s. Inr (as_bytes s)), hx_encode = str_of_bytes\<rparr>"

lemma registrar_heartbeat_verifies_example:
  "agent_signature_ok echo_scheme demo_hex (\<lambda>b. b) (as_bytes (replicate 32 CHR ''s'')) ''agt_a''
     (registrar_request echo_scheme demo_hex (\<lambda>b. b) (\<lambda>_. [1]) [7] 1700000000
        \<lparr>rg_registry_url = ''http://r'', rg_agent_id = ''agt_a'', rg_signing_key = as_bytes (replicate 32 CHR ''s'')\<rparr>
        ''10.0.0.2:11411'')"
proof -
  have seed: "hx_decode demo_hex (replicate 32 CHR ''s'') = Inr (as_bytes (replicate 32 CHR ''s''))"
    by (simp add: demo_hex_def)
  have "registrar_from_seed_hex demo_hex ''http://r'' ''agt_a'' (replicate 32 CHR ''s'')
    = Inr \<lparr>rg_registry_url = ''http://r'', rg_agent_id = ''agt_a'', rg_signing_key = as_bytes (replicate 32 CHR ''s'')\<rparr>"
    by (simp add: registrar_from_seed_hex_def demo_hex_def as_bytes_def trim_end_matches_def)
  from registrar_heartbeat_verifies[OF this seed, of echo_scheme] show ?thesis
    by (simp add: demo_hex_def echo_scheme_def)
qed

text \<open>The timestamp header is not part of what is signed.\<close>

lemma registrar_timestamp_unsigned:
  "map_of (sp_headers (registrar_request ed hx sha256 to_vec nonce secs rg endp)) ''X-Agent-Signature''
     = map_of (sp_headers (registrar_request ed hx sha256 to_vec nonce secs' rg endp)) ''X-Agent-Signature''"
  by (simp add: registrar_request_def Let_def)

end
