(* ===== verification/Manager.thy ===== *)
theory Manager
  imports Mux Resolver
begin

text \<open>
  The daemon of \<open>rust/crates/roboat-daemon/src/manager.rs\<close>: the table of logical streams, the pool of
  multiplexed connections, dialling and accepting in both modes, and the tasks that carry data
  between a stream's channels and its connection. Channels, connections and tasks live in tables
  of the state, since the code shares them between tasks. TCP is a parameter: \<open>ne_connect\<close> gives the
  two halves of a connection or an error.
\<close>

section \<open>Errors and configuration\<close>

datatype daemon_error =
    DaemonIo io_error
  | DaemonAuth auth_error
  | DaemonProtocol protocol_error
  | StreamNotFound u32
  | SendFailed
  | ResolveFailed string
  | NoResolver

record daemon_config =
  dc_listen_port :: u16
  dc_socket_path :: string
  dc_insecure_allow_any_client :: bool
  dc_auth_seed :: bytes
  dc_registry_url :: "string option"
  dc_use_mux :: bool
  dc_heartbeat_interval_secs :: u64

definition daemon_config_default :: daemon_config where
  "daemon_config_default =
     \<lparr>dc_listen_port = 11411, dc_socket_path = ''/var/run/roboat/roboatd.sock'',
      dc_insecure_allow_any_client = True, dc_auth_seed = replicate 32 0, dc_registry_url = None,
      dc_use_mux = True, dc_heartbeat_interval_secs = 30\<rparr>"

section \<open>State\<close>

record incoming_stream_info =
  isi_stream_id :: u32
  isi_from_agent_id :: string
  isi_class :: stream_class

record stream_entry =
  se_data_tx :: nat
  se_recv_rx :: "nat option"
  se_class :: stream_class
  se_mux_conn :: "nat option"

text \<open>The task that feeds a multiplexed stream's data to its connection.\<close>

record mux_bridge =
  mb_conn :: nat
  mb_stream_id :: u32
  mb_class :: stream_class
  mb_data_rx :: nat
  mb_done :: bool

text \<open>The task that serves a stream with a connection of its own; \<open>db_pending\<close> is received data it
  has not been able to hand over yet.\<close>

record direct_bridge =
  db_stream_id :: u32
  db_rd :: reader
  db_wr :: writer
  db_data_rx :: nat
  db_recv_tx :: nat
  db_pending :: "bytes option"
  db_done :: bool

record daemon =
  dm_config :: daemon_config
  dm_streams :: "u32 \<Rightarrow> stream_entry option"
  dm_next_stream_id :: u32
  dm_incoming :: "incoming_stream_info list"
  dm_listener_started :: bool
  dm_accepting :: bool
  dm_resolver :: "resolver option"
  dm_mux_pool :: "string \<Rightarrow> nat option"
  dm_conns :: "mux_conn list"
  dm_chans :: chan_store
  dm_mux_bridges :: "mux_bridge list"
  dm_direct_bridges :: "direct_bridge list"

text \<open>\<open>dm_incoming\<close> is everything sent on the broadcast channel, oldest first; \<open>dm_accepting\<close> says that
  the accept task runs.\<close>

definition daemon_new :: "daemon_config \<Rightarrow> daemon" where
  "daemon_new config =
     \<lparr>dm_config = config, dm_streams = Map.empty, dm_next_stream_id = 1, dm_incoming = [],
      dm_listener_started = False, dm_accepting = False,
      dm_resolver = map_option resolver_new (dc_registry_url config), dm_mux_pool = Map.empty,
      dm_conns = [], dm_chans = \<lparr>cs_next = 0, cs_chan = \<lambda>_. mpsc_new 0\<rparr>, dm_mux_bridges = [],
      dm_direct_bridges = []\<rparr>"

section \<open>The stream table\<close>

definition chan_drop_rx :: "nat option \<Rightarrow> chan_store \<Rightarrow> chan_store" where
  "chan_drop_rx i st =
     (case i of
        None \<Rightarrow> st
      | Some k \<Rightarrow> st\<lparr>cs_chan := (cs_chan st)(k := (cs_chan st k)\<lparr>rx_open := False\<rparr>)\<rparr>)"

text \<open>An entry that leaves the table drops its sender and, unless claimed, its receiver.\<close>

definition drop_entry :: "stream_entry option \<Rightarrow> chan_store \<Rightarrow> chan_store" where
  "drop_entry e st =
     (case e of
        None \<Rightarrow> st
      | Some en \<Rightarrow> chan_drop_rx (se_recv_rx en) (chan_drop_tx (Some (se_data_tx en)) st))"

definition streams_insert :: "u32 \<Rightarrow> stream_entry \<Rightarrow> daemon \<Rightarrow> daemon" where
  "streams_insert sid e dm =
     dm\<lparr>dm_streams := (dm_streams dm)(sid \<mapsto> e), dm_chans := drop_entry (dm_streams dm sid) (dm_chans dm)\<rparr>"

definition streams_remove :: "u32 \<Rightarrow> daemon \<Rightarrow> daemon" where
  "streams_remove sid dm =
     dm\<lparr>dm_streams := (dm_streams dm)(sid := None), dm_chans := drop_entry (dm_streams dm sid) (dm_chans dm)\<rparr>"

definition dm_new_chan :: "daemon \<Rightarrow> nat \<times> daemon" where
  "dm_new_chan dm = (case chan_new 64 (dm_chans dm) of (i, st) \<Rightarrow> (i, dm\<lparr>dm_chans := st\<rparr>))"

definition take_recv_rx :: "u32 \<Rightarrow> daemon \<Rightarrow> nat option \<times> daemon" where
  "take_recv_rx sid dm =
     (case dm_streams dm sid of
        None \<Rightarrow> (None, dm)
      | Some e \<Rightarrow> (se_recv_rx e, dm\<lparr>dm_streams := (dm_streams dm)(sid \<mapsto> e\<lparr>se_recv_rx := None\<rparr>)\<rparr>))"

section \<open>Listening\<close>

definition start_listener :: "io_error + unit \<Rightarrow> daemon \<Rightarrow> (daemon_error + unit) \<times> daemon" where
  "start_listener bind_result dm =
     (if dm_listener_started dm then (Inr (), dm)
      else
        let dm1 = dm\<lparr>dm_listener_started := True\<rparr> in
        case bind_result of
          Inl e \<Rightarrow> (Inl (DaemonIo e), dm1)
        | Inr _ \<Rightarrow> (Inr (), dm1\<lparr>dm_accepting := True\<rparr>))"

text \<open>The registry heartbeat: the registrar and endpoint its loop starts with, if it starts.\<close>

definition start_registry_heartbeat ::
  "hex_codec \<Rightarrow> string option \<Rightarrow> string \<Rightarrow> string \<Rightarrow> string option \<Rightarrow> daemon \<Rightarrow> (registrar \<times> string) option" where
  "start_registry_heartbeat hx local_ip agent_id key_seed_hex explicit_endpoint dm =
     (case dc_registry_url (dm_config dm) of
        None \<Rightarrow> None
      | Some registry_url \<Rightarrow>
          let tunnel_endpoint =
            (case explicit_endpoint of
               Some ep \<Rightarrow> ep
             | None \<Rightarrow>
                 (case local_ip of Some ip \<Rightarrow> ip | None \<Rightarrow> ''127.0.0.1'') @ '':'' @
                 show_nat (unat (dc_listen_port (dm_config dm)))) in
          case registrar_from_seed_hex hx registry_url agent_id key_seed_hex of
            Inl _ \<Rightarrow> None
          | Inr rg \<Rightarrow> Some (rg, tunnel_endpoint))"

section \<open>Inbound connections\<close>

definition handle_inbound_relay ::
  "reader \<Rightarrow> writer \<Rightarrow> bytes \<Rightarrow> string \<Rightarrow> daemon \<Rightarrow> (daemon_error + unit) \<times> daemon" where
  "handle_inbound_relay r w pay from_agent_id dm =
     (if length pay < 5 then (Inl (DaemonProtocol (InvalidPacket ''RelayOpen payload too short'')), dm)
      else
        let sid = u32_from_be_bytes (take 4 pay); cls = class_from_byte (pay ! 4) in
        case write_frame FtRelayOpenAck pay w of
          (Inl e, _) \<Rightarrow> (Inl (DaemonProtocol e), dm)
        | (Inr _, w1) \<Rightarrow>
            (case dm_new_chan dm of (data, dm1) \<Rightarrow>
             case dm_new_chan dm1 of (recv, dm2) \<Rightarrow>
               let dm3 = streams_insert sid
                     \<lparr>se_data_tx = data, se_recv_rx = Some recv, se_class = cls, se_mux_conn = None\<rparr> dm2;
                   info = \<lparr>isi_stream_id = sid, isi_from_agent_id = from_agent_id, isi_class = cls\<rparr>;
                   bridge = \<lparr>db_stream_id = sid, db_rd = r, db_wr = w1, db_data_rx = data, db_recv_tx = recv,
                     db_pending = None, db_done = False\<rparr>
               in (Inr (), dm3\<lparr>dm_incoming := dm_incoming dm3 @ [info],
                              dm_direct_bridges := dm_direct_bridges dm3 @ [bridge]\<rparr>)))"

definition register_mux_incoming :: "incoming_mux_stream \<Rightarrow> nat \<Rightarrow> daemon \<Rightarrow> daemon" where
  "register_mux_incoming ims conn dm =
     (let sid = ims_stream_id ims; cls = ims_class ims in
      case dm_new_chan dm of (data, dm1) \<Rightarrow>
        let bridge = \<lparr>mb_conn = conn, mb_stream_id = sid, mb_class = cls, mb_data_rx = data, mb_done = False\<rparr>;
            dm2 = streams_insert sid
              \<lparr>se_data_tx = data, se_recv_rx = Some (ims_recv_rx ims), se_class = cls, se_mux_conn = Some conn\<rparr>
              (dm1\<lparr>dm_mux_bridges := dm_mux_bridges dm1 @ [bridge]\<rparr>);
            info = \<lparr>isi_stream_id = sid, isi_from_agent_id = ims_from_agent_id ims, isi_class = cls\<rparr>
        in dm2\<lparr>dm_incoming := dm_incoming dm2 @ [info]\<rparr>)"

definition dm_new_conn :: "mux_conn \<Rightarrow> daemon \<Rightarrow> nat \<times> daemon" where
  "dm_new_conn m dm = (length (dm_conns dm), dm\<lparr>dm_conns := dm_conns dm @ [m]\<rparr>)"

definition handle_inbound_mux ::
  "reader \<Rightarrow> writer \<Rightarrow> bytes \<Rightarrow> string \<Rightarrow> daemon \<Rightarrow> (daemon_error + unit) \<times> daemon" where
  "handle_inbound_mux r w pay from_agent_id dm =
     (Inr (), snd (dm_new_conn (mux_new_responder r w from_agent_id (mpsc_new 64) pay) dm))"

record net_env =
  ne_ed :: ed25519
  ne_elapsed :: "string \<Rightarrow> bool"
  ne_connect :: "string \<Rightarrow> io_error + duplex"
  ne_ulow :: "string \<Rightarrow> string"

definition handle_inbound :: "net_env \<Rightarrow> bytes \<Rightarrow> duplex \<Rightarrow> daemon \<Rightarrow> (daemon_error + unit) \<times> daemon" where
  "handle_inbound env nonce d dm =
     (case server_authenticate (ne_ed env) (ne_elapsed env) nonce (server_auth_new (ne_ulow env) []) d of
        (Inl e, _) \<Rightarrow> (Inl (DaemonAuth e), dm)
      | (Inr pub_key_hex, d1) \<Rightarrow>
          let from_agent_id = take 16 pub_key_hex in
          case read_frame (rd d1) of
            (Inl e, _) \<Rightarrow> (Inl (DaemonProtocol e), dm)
          | (Inr (ft, pay), r) \<Rightarrow>
              (case ft of
                 FtRelayOpen \<Rightarrow> handle_inbound_relay r (wr d1) pay from_agent_id dm
               | FtStreamOpen \<Rightarrow> handle_inbound_mux r (wr d1) pay from_agent_id dm
               | _ \<Rightarrow> (Inl (DaemonProtocol (InvalidPacket
                        (''unexpected first frame: 0x'' @ fmt_02x (frame_type_byte ft)))), dm)))"

text \<open>The task that takes a connection's notifications one at a time and registers them.\<close>

definition forward_mux_incoming :: "nat \<Rightarrow> daemon \<Rightarrow> daemon" where
  "forward_mux_incoming conn dm =
     (if conn < length (dm_conns dm) then
        (case mpsc_recv (mx_incoming (dm_conns dm ! conn)) of
           Received ims q \<Rightarrow>
             register_mux_incoming ims conn
               (dm\<lparr>dm_conns := (dm_conns dm)[conn := (dm_conns dm ! conn)\<lparr>mx_incoming := q\<rparr>]\<rparr>)
         | _ \<Rightarrow> dm)
      else dm)"

section \<open>Dialling\<close>

definition create_mux_conn :: "net_env \<Rightarrow> string \<Rightarrow> daemon \<Rightarrow> (daemon_error + nat) \<times> daemon" where
  "create_mux_conn env addr dm =
     (case ne_connect env addr of
        Inl e \<Rightarrow> (Inl (DaemonIo e), dm)
      | Inr tcp \<Rightarrow>
          (case client_authenticate (ne_ed env) (ne_elapsed env) (dc_auth_seed (dm_config dm)) tcp of
             (Inl e, _) \<Rightarrow> (Inl (DaemonAuth e), dm)
           | (Inr _, d) \<Rightarrow>
               (case dm_new_conn (mux_new_initiator (rd d) (wr d) addr (mpsc_new 64)) dm of
                  (c, dm1) \<Rightarrow> (Inr c, dm1))))"

definition mux_pool_get :: "net_env \<Rightarrow> string \<Rightarrow> daemon \<Rightarrow> (daemon_error + nat) \<times> daemon" where
  "mux_pool_get env addr dm =
     (case dm_mux_pool dm addr of
        Some c \<Rightarrow> (Inr c, dm)
      | None \<Rightarrow>
          (case create_mux_conn env addr dm of
             (Inl e, dm1) \<Rightarrow> (Inl e, dm1)
           | (Inr c, dm1) \<Rightarrow> (Inr c, dm1\<lparr>dm_mux_pool := (dm_mux_pool dm1)(addr \<mapsto> c)\<rparr>)))"

definition dial_mux ::
  "net_env \<Rightarrow> string \<Rightarrow> stream_class \<Rightarrow> daemon \<Rightarrow> (daemon_error + u32 \<times> nat) \<times> daemon" where
  "dial_mux env addr cls dm =
     (case mux_pool_get env addr dm of
        (Inl e, dm1) \<Rightarrow> (Inl e, dm1)
      | (Inr c, dm1) \<Rightarrow>
          (case mux_open_stream cls (dm_conns dm1 ! c) (dm_chans dm1) of
             (Inl _, m, st) \<Rightarrow> (Inl SendFailed, dm1\<lparr>dm_conns := (dm_conns dm1)[c := m], dm_chans := st\<rparr>)
           | (Inr (sid, recv), m, st) \<Rightarrow>
               (case dm_new_chan (dm1\<lparr>dm_conns := (dm_conns dm1)[c := m], dm_chans := st\<rparr>) of (data, dm2) \<Rightarrow>
                  let bridge = \<lparr>mb_conn = c, mb_stream_id = sid, mb_class = cls, mb_data_rx = data, mb_done = False\<rparr>
                  in (Inr (sid, recv),
                      streams_insert sid
                        \<lparr>se_data_tx = data, se_recv_rx = None, se_class = cls, se_mux_conn = Some c\<rparr>
                        (dm2\<lparr>dm_mux_bridges := dm_mux_bridges dm2 @ [bridge]\<rparr>)))))"

definition dial_direct ::
  "net_env \<Rightarrow> string \<Rightarrow> stream_class \<Rightarrow> daemon \<Rightarrow> (daemon_error + u32 \<times> nat) \<times> daemon" where
  "dial_direct env addr cls dm =
     (let sid = dm_next_stream_id dm; dm0 = dm\<lparr>dm_next_stream_id := sid + 1\<rparr> in
      case ne_connect env addr of
        Inl e \<Rightarrow> (Inl (DaemonIo e), dm0)
      | Inr tcp \<Rightarrow>
          (case client_authenticate (ne_ed env) (ne_elapsed env) (dc_auth_seed (dm_config dm)) tcp of
             (Inl e, _) \<Rightarrow> (Inl (DaemonAuth e), dm0)
           | (Inr _, d) \<Rightarrow>
               (case write_frame FtRelayOpen (u32_to_be_bytes sid @ [class_as_byte cls]) (wr d) of
                  (Inl e, _) \<Rightarrow> (Inl (DaemonProtocol e), dm0)
                | (Inr _, w) \<Rightarrow>
                    (case read_frame (rd d) of
                       (Inl e, _) \<Rightarrow> (Inl (DaemonProtocol e), dm0)
                     | (Inr (ft, _), r) \<Rightarrow>
                         if ft \<noteq> FtRelayOpenAck
                         then (Inl (DaemonProtocol (InvalidPacket ''expected RelayOpenAck'')), dm0)
                         else
                           (case dm_new_chan dm0 of (data, dm1) \<Rightarrow>
                            case dm_new_chan dm1 of (recv, dm2) \<Rightarrow>
                              let dm3 = streams_insert sid
                                    \<lparr>se_data_tx = data, se_recv_rx = None, se_class = cls, se_mux_conn = None\<rparr> dm2;
                                  bridge = \<lparr>db_stream_id = sid, db_rd = r, db_wr = w, db_data_rx = data,
                                    db_recv_tx = recv, db_pending = None, db_done = False\<rparr>
                              in (Inr (sid, recv),
                                  dm3\<lparr>dm_direct_bridges := dm_direct_bridges dm3 @ [bridge]\<rparr>))))))"

text \<open>What errors say, as their \<open>Display\<close> texts; the HTTP client's own texts are a parameter.\<close>

definition protocol_error_text :: "protocol_error \<Rightarrow> string" where
  "protocol_error_text e =
     (case e of
        ProtoIo m \<Rightarrow> ''IO error: '' @ m
      | InvalidPacket m \<Rightarrow> ''Invalid packet: '' @ m
      | ConnectionClosed \<Rightarrow> ''Connection closed'')"

definition resolve_error_text :: "(reqwest_error \<Rightarrow> string) \<Rightarrow> resolve_error \<Rightarrow> string" where
  "resolve_error_text rq_text e =
     (case e of
        ResolveHttp h \<Rightarrow> ''HTTP error: '' @ rq_text h
      | AgentNotFound a \<Rightarrow> ''Agent not found: '' @ a
      | NoEndpoint a \<Rightarrow> ''Agent has no tunnel_endpoint: '' @ a
      | NegativeCached \<Rightarrow> ''Cached as unavailable (try again shortly)'')"

definition daemon_error_text :: "daemon_error \<Rightarrow> string" where
  "daemon_error_text e =
     (case e of
        DaemonIo ie \<Rightarrow> ''IO error: '' @ io_error_text ie
      | DaemonAuth ae \<Rightarrow> ''Auth error: '' @ auth_error_text ae
      | DaemonProtocol pe \<Rightarrow> ''Protocol error: '' @ protocol_error_text pe
      | StreamNotFound sid \<Rightarrow> ''Stream '' @ show_nat (unat sid) @ '' not found''
      | SendFailed \<Rightarrow> ''Send failed: channel closed''
      | ResolveFailed m \<Rightarrow> ''Resolve error: '' @ m
      | NoResolver \<Rightarrow> ''No registry URL configured; cannot resolve agent_id'')"

record registry_env =
  re_get :: "string \<Rightarrow> reqwest_error + http_response"
  re_decode :: "bytes \<Rightarrow> string option"
  re_text :: "reqwest_error \<Rightarrow> string"
  re_now :: nat
  re_later :: nat

definition dial_resolved ::
  "net_env \<Rightarrow> string \<Rightarrow> stream_class \<Rightarrow> daemon \<Rightarrow> (daemon_error + u32 \<times> nat) \<times> daemon" where
  "dial_resolved env addr cls dm =
     (if dc_use_mux (dm_config dm) then dial_mux env addr cls dm else dial_direct env addr cls dm)"

text \<open>\<open>None\<close> is a panic of the resolver.\<close>

definition dial ::
  "net_env \<Rightarrow> registry_env \<Rightarrow> string \<Rightarrow> stream_class \<Rightarrow> daemon \<Rightarrow>
   (daemon_error + u32 \<times> nat) option \<times> daemon" where
  "dial env re target cls dm =
     (if starts_with target ''agt_'' then
        (case dm_resolver dm of
           None \<Rightarrow> (Some (Inl NoResolver), dm)
         | Some r \<Rightarrow>
             (case resolve (re_get re) (re_decode re) (re_now re) (re_later re) target r of
                (None, r1) \<Rightarrow> (None, dm\<lparr>dm_resolver := Some r1\<rparr>)
              | (Some (Inl e), r1) \<Rightarrow>
                  (Some (Inl (ResolveFailed (resolve_error_text (re_text re) e))), dm\<lparr>dm_resolver := Some r1\<rparr>)
              | (Some (Inr addr), r1) \<Rightarrow>
                  (case dial_resolved env addr cls (dm\<lparr>dm_resolver := Some r1\<rparr>) of
                     (res, dm1) \<Rightarrow> (Some res, dm1))))
      else (case dial_resolved env target cls dm of (res, dm1) \<Rightarrow> (Some res, dm1)))"

section \<open>The data path\<close>

text \<open>\<open>None\<close>: the stream's queue is full and the sender waits.\<close>

definition daemon_send :: "u32 \<Rightarrow> bytes \<Rightarrow> daemon \<Rightarrow> (daemon_error + unit) option \<times> daemon" where
  "daemon_send sid data dm =
     (case dm_streams dm sid of
        None \<Rightarrow> (Some (Inl (StreamNotFound sid)), dm)
      | Some e \<Rightarrow>
          (case mpsc_send data (cs_chan (dm_chans dm) (se_data_tx e)) of
             NoReceiver \<Rightarrow> (Some (Inl SendFailed), dm)
           | WaitsForRoom \<Rightarrow> (None, dm)
           | Sent q \<Rightarrow>
               (Some (Inr ()),
                dm\<lparr>dm_chans := (dm_chans dm)\<lparr>cs_chan := (cs_chan (dm_chans dm))(se_data_tx e := q)\<rparr>\<rparr>)))"

definition daemon_close_stream :: "u32 \<Rightarrow> daemon \<Rightarrow> daemon" where
  "daemon_close_stream sid dm = streams_remove sid dm"

section \<open>Bridges\<close>

definition set_chan :: "nat \<Rightarrow> bytes mpsc \<Rightarrow> daemon \<Rightarrow> daemon" where
  "set_chan i q dm = dm\<lparr>dm_chans := (dm_chans dm)\<lparr>cs_chan := (cs_chan (dm_chans dm))(i := q)\<rparr>\<rparr>"

text \<open>One turn of the task that \<open>dial_mux\<close> and \<open>register_mux_incoming\<close> spawn.\<close>

definition mux_bridge_end :: "nat \<Rightarrow> daemon \<Rightarrow> daemon" where
  "mux_bridge_end k dm =
     (let b = dm_mux_bridges dm ! k in
      case mux_close_stream (mb_stream_id b) (mb_class b) (dm_conns dm ! mb_conn b) (dm_chans dm) of (m, st) \<Rightarrow>
        dm\<lparr>dm_conns := (dm_conns dm)[mb_conn b := m], dm_chans := chan_drop_rx (Some (mb_data_rx b)) st,
           dm_mux_bridges := (dm_mux_bridges dm)[k := b\<lparr>mb_done := True\<rparr>]\<rparr>)"

definition mux_bridge_step :: "nat \<Rightarrow> daemon \<Rightarrow> daemon" where
  "mux_bridge_step k dm =
     (let b = dm_mux_bridges dm ! k in
      if length (dm_mux_bridges dm) \<le> k \<or> mb_done b then dm
      else
        case mpsc_recv (cs_chan (dm_chans dm) (mb_data_rx b)) of
          WaitsForItem \<Rightarrow> dm
        | NoSender \<Rightarrow> mux_bridge_end k dm
        | Received data q \<Rightarrow>
            (let dm1 = set_chan (mb_data_rx b) q dm in
             case mux_send (mb_stream_id b) data (mb_class b) (dm_conns dm ! mb_conn b) of
               (Inl _, m) \<Rightarrow> mux_bridge_end k dm1
             | (Inr _, m) \<Rightarrow> dm1\<lparr>dm_conns := (dm_conns dm1)[mb_conn b := m]\<rparr>))"

text \<open>The bridge of a stream with its own connection, \<open>run_stream_bridge\<close>. Its two branches wait
  together; when the data branch wins, the frame read that waited with it is abandoned, and with
  it the first \<open>k\<close> bytes of a frame of which no more had arrived.\<close>

definition read_waits_after :: "nat \<Rightarrow> reader \<Rightarrow> bool" where
  "read_waits_after k r \<longleftrightarrow>
     k \<le> length (rbytes r) \<and>
     fst (read_frame \<lparr>rbytes = take k (rbytes r), rend = REof\<rparr>) = Inl ConnectionClosed"

datatype bridge_event = BrData nat | BrFrame | BrHandOver

definition direct_bridge_end :: "nat \<Rightarrow> direct_bridge \<Rightarrow> daemon \<Rightarrow> daemon" where
  "direct_bridge_end k b dm =
     (let dm1 = streams_remove (db_stream_id b) dm in
      dm1\<lparr>dm_chans := chan_drop_tx (Some (db_recv_tx b)) (chan_drop_rx (Some (db_data_rx b)) (dm_chans dm1)),
          dm_direct_bridges := (dm_direct_bridges dm1)[k := b\<lparr>db_done := True\<rparr>]\<rparr>)"

definition set_bridge :: "nat \<Rightarrow> direct_bridge \<Rightarrow> daemon \<Rightarrow> daemon" where
  "set_bridge k b dm = dm\<lparr>dm_direct_bridges := (dm_direct_bridges dm)[k := b]\<rparr>"

definition direct_bridge_data :: "nat \<Rightarrow> nat \<Rightarrow> direct_bridge \<Rightarrow> daemon \<Rightarrow> daemon" where
  "direct_bridge_data k lost b dm =
     (let b1 = b\<lparr>db_rd := (db_rd b)\<lparr>rbytes := drop lost (rbytes (db_rd b))\<rparr>\<rparr> in
      case mpsc_recv (cs_chan (dm_chans dm) (db_data_rx b)) of
        WaitsForItem \<Rightarrow> dm
      | NoSender \<Rightarrow>
          (case write_frame FtRelayClose [] (db_wr b) of
             (_, w) \<Rightarrow> direct_bridge_end k (b1\<lparr>db_wr := w\<rparr>) dm)
      | Received data q \<Rightarrow>
          (let dm1 = set_chan (db_data_rx b) q dm in
           case write_frame FtRelayData data (db_wr b) of
             (Inl _, w) \<Rightarrow> direct_bridge_end k (b1\<lparr>db_wr := w\<rparr>) dm1
           | (Inr _, w) \<Rightarrow> set_bridge k (b1\<lparr>db_wr := w\<rparr>) dm1))"

definition direct_bridge_frame :: "nat \<Rightarrow> direct_bridge \<Rightarrow> daemon \<Rightarrow> daemon" where
  "direct_bridge_frame k b dm =
     (case read_frame (db_rd b) of
        (Inl _, r) \<Rightarrow> direct_bridge_end k (b\<lparr>db_rd := r\<rparr>) dm
      | (Inr (ft, data), r) \<Rightarrow>
          (let b1 = b\<lparr>db_rd := r\<rparr> in
           case ft of
             FtRelayData \<Rightarrow> set_bridge k (b1\<lparr>db_pending := Some data\<rparr>) dm
           | FtRelayClose \<Rightarrow> direct_bridge_end k b1 dm
           | _ \<Rightarrow> set_bridge k b1 dm))"

definition direct_bridge_hand_over :: "nat \<Rightarrow> direct_bridge \<Rightarrow> bytes \<Rightarrow> daemon \<Rightarrow> daemon" where
  "direct_bridge_hand_over k b data dm =
     (case mpsc_send data (cs_chan (dm_chans dm) (db_recv_tx b)) of
        WaitsForRoom \<Rightarrow> dm
      | NoReceiver \<Rightarrow> direct_bridge_end k (b\<lparr>db_pending := None\<rparr>) dm
      | Sent q \<Rightarrow> set_bridge k (b\<lparr>db_pending := None\<rparr>) (set_chan (db_recv_tx b) q dm))"

definition direct_bridge_step :: "nat \<Rightarrow> bridge_event \<Rightarrow> daemon \<Rightarrow> daemon" where
  "direct_bridge_step k e dm =
     (let b = dm_direct_bridges dm ! k in
      if length (dm_direct_bridges dm) \<le> k \<or> db_done b then dm
      else
        case (db_pending b, e) of
          (Some data, BrHandOver) \<Rightarrow> direct_bridge_hand_over k b data dm
        | (None, BrData lost) \<Rightarrow>
            if read_waits_after lost (db_rd b) then direct_bridge_data k lost b dm else dm
        | (None, BrFrame) \<Rightarrow> direct_bridge_frame k b dm
        | _ \<Rightarrow> dm)"

end
