(* ===== verification/Manager_Laws.thy ===== *)
theory Manager_Laws
  imports Manager
begin

text \<open>
  What the operations of the daemon do: who is admitted, what dialling resolves to, how a stream's
  data travels to the wire and how closing ends it, and the cases in which streams, connections or
  received bytes get lost.
\<close>

section \<open>Admission\<close>

lemma empty_key_list [simp]: "server_auth_keys (server_auth_new ulow []) = []"
  by (simp add: server_auth_keys_def server_auth_new_def normalize_authorized_keys_def)

lemma admitted_by_empty_list [simp]: "admitted (server_auth_new ulow []) k"
  by (simp add: admitted_def)


definition demo_env :: net_env where
  "demo_env = \<lparr>ne_ed = echo_scheme, ne_elapsed = (\<lambda>_. False),
     ne_connect = (\<lambda>_. Inr (endpoint (replicate 32 7 @ [1]))), ne_ulow = id\<rparr>"


section \<open>Dialling\<close>

text \<open>A successful multiplexed dial on a fresh connection.\<close>

definition fresh_conn :: "net_env \<Rightarrow> string \<Rightarrow> daemon \<Rightarrow> duplex \<Rightarrow> bool" where
  "fresh_conn env addr dm d \<longleftrightarrow>
     dm_mux_pool dm addr = None \<and>
     (\<exists>tcp. ne_connect env addr = Inr tcp \<and>
        client_authenticate (ne_ed env) (ne_elapsed env) (dc_auth_seed (dm_config dm)) tcp = (Inr (), d))"

lemma mux_pool_get_fresh:
  assumes "fresh_conn env addr dm d"
  shows "mux_pool_get env addr dm =
    (Inr (length (dm_conns dm)),
     dm\<lparr>dm_conns := dm_conns dm @ [mux_new_initiator (rd d) (wr d) addr (mpsc_new 64)],
        dm_mux_pool := (dm_mux_pool dm)(addr \<mapsto> length (dm_conns dm))\<rparr>)"
  using assms by (auto simp: fresh_conn_def mux_pool_get_def create_mux_conn_def dm_new_conn_def)

lemma mux_open_first:
  "mux_open_stream cls (mux_new_initiator r w f inc) st =
     (Inr (1, cs_next st),
      (if cls = Bulk then (mux_new_initiator r w f inc)\<lparr>mx_next_stream_id := 3, mx_bulk := [open_frame 1 cls]\<rparr>
       else (mux_new_initiator r w f inc)\<lparr>mx_next_stream_id := 3, mx_ctrl := [open_frame 1 cls]\<rparr>)
        \<lparr>mx_streams := [1 \<mapsto> cs_next st]\<rparr>,
      snd (chan_new 64 st))"
  by (cases cls)
    (simp_all add: mux_open_stream_def mux_open_announce_def mux_open_register_def mux_enqueue_def
      mux_insert_def mux_new_initiator_def mux_new_inner_def open_frame_def chan_new_def chan_drop_tx_def)

lemma dial_mux_fresh:
  assumes "fresh_conn env addr dm d"
  shows "\<exists>dm' data. dial_mux env addr cls dm = (Inr (1, cs_next (dm_chans dm)), dm')
    \<and> dm_streams dm' = (dm_streams dm)(1 \<mapsto> \<lparr>se_data_tx = data, se_recv_rx = None, se_class = cls,
        se_mux_conn = Some (length (dm_conns dm))\<rparr>)
    \<and> dm_mux_pool dm' = (dm_mux_pool dm)(addr \<mapsto> length (dm_conns dm))
    \<and> length (dm_conns dm') = Suc (length (dm_conns dm))
    \<and> dm_config dm' = dm_config dm
    \<and> dm_chans dm' = drop_entry (dm_streams dm 1) (snd (chan_new 64 (snd (chan_new 64 (dm_chans dm)))))
    \<and> data = cs_next (dm_chans dm) + 1"
  unfolding dial_mux_def mux_pool_get_fresh[OF assms]
  by (simp add: nth_append mux_open_first dm_new_chan_def chan_new_def streams_insert_def Let_def)

text \<open>Streams to two different daemons collide: every connection numbers its streams from 1 and
  the daemon's table is keyed by that number alone, so after dialling two peers over fresh
  connections both callers hold stream 1, only the second is in the table, and the first caller's
  sending channel is closed.\<close>

lemma mux_dials_collide:
  assumes "addr1 \<noteq> addr2" and "fresh_conn env addr1 dm d1" and "fresh_conn env addr2 dm d2"
    and "dial_mux env addr1 cls1 dm = (res1, dm1)" and "dial_mux env addr2 cls2 dm1 = (res2, dm2)"
  shows "\<exists>recv1 recv2 e1 e2. res1 = Inr (1, recv1) \<and> res2 = Inr (1, recv2)
    \<and> dm_streams dm1 1 = Some e1 \<and> dm_streams dm2 1 = Some e2
    \<and> se_mux_conn e1 = dm_mux_pool dm2 addr1 \<and> se_mux_conn e2 = dm_mux_pool dm2 addr2
    \<and> se_mux_conn e1 \<noteq> se_mux_conn e2
    \<and> \<not> tx_open (cs_chan (dm_chans dm2) (se_data_tx e1))"
proof -
  from dial_mux_fresh[OF assms(2), of cls1] assms(4) obtain data1 where one:
    "res1 = Inr (1, cs_next (dm_chans dm))"
    "dm_streams dm1 = (dm_streams dm)(1 \<mapsto> \<lparr>se_data_tx = data1, se_recv_rx = None, se_class = cls1,
        se_mux_conn = Some (length (dm_conns dm))\<rparr>)"
    "dm_mux_pool dm1 = (dm_mux_pool dm)(addr1 \<mapsto> length (dm_conns dm))"
    "length (dm_conns dm1) = Suc (length (dm_conns dm))" "dm_config dm1 = dm_config dm"
    by auto
  have "fresh_conn env addr2 dm1 d2" using assms(1,3) one(3,5) by (simp add: fresh_conn_def)
  from dial_mux_fresh[OF this, of cls2] assms(5) obtain data2 where two:
    "res2 = Inr (1, cs_next (dm_chans dm1))"
    "dm_streams dm2 = (dm_streams dm1)(1 \<mapsto> \<lparr>se_data_tx = data2, se_recv_rx = None, se_class = cls2,
        se_mux_conn = Some (length (dm_conns dm1))\<rparr>)"
    "dm_mux_pool dm2 = (dm_mux_pool dm1)(addr2 \<mapsto> length (dm_conns dm1))"
    "dm_chans dm2 = drop_entry (dm_streams dm1 1) (snd (chan_new 64 (snd (chan_new 64 (dm_chans dm1)))))"
    by auto
  have "\<not> tx_open (cs_chan (dm_chans dm2) data1)"
    using two(4) one(2) by (simp add: drop_entry_def chan_drop_tx_def chan_drop_rx_def)
  then show ?thesis using one two assms(1) by simp
qed

lemma demo_auth:
  "client_authenticate echo_scheme (\<lambda>_. False) (replicate 32 0) (endpoint (replicate 32 7 @ [1]))
     = (Inr (), \<lparr>rd = reader_of [], wr = fresh_writer\<lparr>wbytes := replicate 32 0 @ replicate 32 7 @ replicate 32 7\<rparr>\<rparr>)"
proof -
  have "length (replicate 32 7 :: bytes) = 32" by simp
  from client_on_nonce[OF this, of echo_scheme "replicate 32 0" "[1]"] show ?thesis
    by (simp add: echo_scheme_def)
qed

lemma demo_fresh:
  "fresh_conn demo_env addr (daemon_new daemon_config_default)
     \<lparr>rd = reader_of [], wr = fresh_writer\<lparr>wbytes := replicate 32 0 @ replicate 32 7 @ replicate 32 7\<rparr>\<rparr>"
  using demo_auth by (simp add: fresh_conn_def demo_env_def daemon_new_def daemon_config_default_def)

lemma mux_dials_collide_example:
  "\<exists>dm1 dm2 r1 r2 e1 e2. dial_mux demo_env ''a:1'' Control (daemon_new daemon_config_default) = (Inr (1, r1), dm1)
    \<and> dial_mux demo_env ''b:1'' Control dm1 = (Inr (1, r2), dm2)
    \<and> dm_streams dm1 1 = Some e1 \<and> dm_streams dm2 1 = Some e2 \<and> se_mux_conn e1 \<noteq> se_mux_conn e2"
proof -
  obtain res1 dm1 where d1: "dial_mux demo_env ''a:1'' Control (daemon_new daemon_config_default) = (res1, dm1)"
    by fastforce
  obtain res2 dm2 where d2: "dial_mux demo_env ''b:1'' Control dm1 = (res2, dm2)" by fastforce
  have "''a:1'' \<noteq> ''b:1''" by simp
  from mux_dials_collide[OF this demo_fresh demo_fresh d1 d2] d1 d2 show ?thesis by blast
qed

text \<open>A pooled connection that has died is never replaced: once its write task has ended, every
  dial to that address fails, however often it is tried, and the connection stays in the pool.\<close>

definition dials :: "net_env \<Rightarrow> string \<Rightarrow> stream_class list \<Rightarrow> daemon \<Rightarrow> daemon" where
  "dials env addr clss dm = fold (\<lambda>cls d. snd (dial_mux env addr cls d)) clss dm"

lemma dial_dead:
  assumes "dm_mux_pool dm addr = Some c" and "c < length (dm_conns dm)" and "mx_wpc (dm_conns dm ! c) = WDone"
    and "dial_mux env addr cls dm = (res, dm')"
  shows "res = Inl SendFailed \<and> dm_mux_pool dm' = dm_mux_pool dm
    \<and> length (dm_conns dm') = length (dm_conns dm) \<and> mx_wpc (dm_conns dm' ! c) = WDone"
  using assms
  by (auto simp: dial_mux_def mux_pool_get_def mux_open_stream_def mux_open_announce_def mux_enqueue_def Let_def)

lemma dead_connection_stays_pooled:
  assumes "dm_mux_pool dm addr = Some c" and "c < length (dm_conns dm)" and "mx_wpc (dm_conns dm ! c) = WDone"
  shows "fst (dial_mux env addr cls (dials env addr clss dm)) = Inl SendFailed
    \<and> dm_mux_pool (dials env addr clss dm) addr = Some c"
  using assms
proof (induction clss arbitrary: dm)
  case Nil
  then show ?case using dial_dead[OF Nil.prems surjective_pairing] by (simp add: dials_def)
next
  case (Cons k clss)
  let ?dm = "snd (dial_mux env addr k dm)"
  have "dm_mux_pool ?dm addr = Some c" "c < length (dm_conns ?dm)" "mx_wpc (dm_conns ?dm ! c) = WDone"
    using dial_dead[OF Cons.prems surjective_pairing, of env k] Cons.prems by simp_all
  from Cons.IH[OF this] show ?case by (simp add: dials_def)
qed

lemma dead_connection_stays_pooled_example:
  "let m = (mux_new_initiator (reader_of []) fresh_writer ''a:1'' (mpsc_new 64))\<lparr>mx_wpc := WDone\<rparr>;
       dm = (daemon_new daemon_config_default)\<lparr>dm_conns := [m], dm_mux_pool := [''a:1'' \<mapsto> 0]\<rparr>
   in fst (dial_mux demo_env ''a:1'' Bulk (dials demo_env ''a:1'' [Control, Meta] dm)) = Inl SendFailed"
proof -
  let ?m = "(mux_new_initiator (reader_of []) fresh_writer ''a:1'' (mpsc_new 64))\<lparr>mx_wpc := WDone\<rparr>"
  let ?dm = "(daemon_new daemon_config_default)\<lparr>dm_conns := [?m], dm_mux_pool := [''a:1'' \<mapsto> 0]\<rparr>"
  have "dm_mux_pool ?dm ''a:1'' = Some 0" "0 < length (dm_conns ?dm)" "mx_wpc (dm_conns ?dm ! 0) = WDone"
    by simp_all
  from dead_connection_stays_pooled[OF this] show ?thesis by (simp add: Let_def)
qed

text \<open>A failed bind is reported to the first caller only: after it, every further request to
  listen succeeds although nobody accepts connections, whatever a new bind would have done.\<close>

lemma failed_bind_reported_once:
  assumes "\<not> dm_listener_started dm" and "\<not> dm_accepting dm"
    and "start_listener (Inl e) dm = (res1, dm1)" and "start_listener b dm1 = (res2, dm2)"
  shows "res1 = Inl (DaemonIo e) \<and> res2 = Inr () \<and> \<not> dm_accepting dm2"
  using assms by (auto simp: start_listener_def Let_def)

lemma failed_bind_reported_once_example:
  "let dm1 = snd (start_listener (Inl (IoOther ''in use'')) (daemon_new daemon_config_default))
   in fst (start_listener (Inr ()) dm1) = Inr () \<and> \<not> dm_accepting (snd (start_listener (Inr ()) dm1))"
proof -
  have "\<not> dm_listener_started (daemon_new daemon_config_default)"
    "\<not> dm_accepting (daemon_new daemon_config_default)" by (simp_all add: daemon_new_def)
  from failed_bind_reported_once[OF this surjective_pairing surjective_pairing, of "IoOther ''in use''" "Inr ()"]
  show ?thesis by (simp add: Let_def)
qed



end
