(* ===== verification/Daemon_System.thy ===== *)
theory Daemon_System
  imports Manager_Laws
begin

text \<open>
  The daemon as one system: every operation agents and peers can cause and every step of its tasks,
  in any order, as a step relation on the daemon's state, and the invariant that holds of all
  states it can reach. No table refers to a connection or a channel that does not exist, no
  channel outgrows its capacity, and the data of a stream in the table is read by exactly one
  task, which serves that stream, on that stream's connection, under that stream's class.
\<close>

section \<open>Steps\<close>

definition conn_event :: "nat \<Rightarrow> mux_event \<Rightarrow> daemon \<Rightarrow> daemon" where
  "conn_event c e dm =
     (case mux_event_step (dm_conns dm ! c, dm_chans dm) e of
        (m, st) \<Rightarrow> dm\<lparr>dm_conns := (dm_conns dm)[c := m], dm_chans := st\<rparr>)"

text \<open>A task that takes the next message of a channel, as the forwarders to the agents do.\<close>

definition consume :: "nat \<Rightarrow> daemon \<Rightarrow> daemon" where
  "consume ch dm =
     (case mpsc_recv (cs_chan (dm_chans dm) ch) of
        Received _ q \<Rightarrow> set_chan ch q dm
      | _ \<Rightarrow> dm)"

inductive daemon_step :: "net_env \<Rightarrow> registry_env \<Rightarrow> daemon \<Rightarrow> daemon \<Rightarrow> bool" for env re where
  step_listen: "daemon_step env re dm (snd (start_listener r dm))"
| step_inbound: "dm_accepting dm \<Longrightarrow> daemon_step env re dm (snd (handle_inbound env nonce d dm))"
| step_forward: "daemon_step env re dm (forward_mux_incoming c dm)"
| step_dial: "daemon_step env re dm (snd (dial env re target cls dm))"
| step_send: "daemon_step env re dm (snd (daemon_send sid data dm))"
| step_close: "daemon_step env re dm (daemon_close_stream sid dm)"
| step_claim: "daemon_step env re dm (snd (take_recv_rx sid dm))"
| step_task: "c < length (dm_conns dm) \<Longrightarrow> e \<in> {MeWrite, MeRead, MeFirst} \<Longrightarrow>
    daemon_step env re dm (conn_event c e dm)"
| step_mux_bridge: "daemon_step env re dm (mux_bridge_step k dm)"
| step_direct_bridge: "daemon_step env re dm (direct_bridge_step k ev dm)"
| step_consume: "daemon_step env re dm (consume ch dm)"

inductive daemon_reachable :: "net_env \<Rightarrow> registry_env \<Rightarrow> daemon_config \<Rightarrow> daemon \<Rightarrow> bool" for env re config where
  reach_new: "daemon_reachable env re config (daemon_new config)"
| reach_step: "daemon_reachable env re config dm \<Longrightarrow> daemon_step env re dm dm' \<Longrightarrow>
    daemon_reachable env re config dm'"

inductive_cases daemon_stepE: "daemon_step env re dm dm'"

section \<open>Connections refer to channels that exist\<close>

definition pending_below :: "nat \<Rightarrow> pending option \<Rightarrow> bool" where
  "pending_below n p =
     (case p of
        None \<Rightarrow> True
      | Some (PendData ch _) \<Rightarrow> ch < n
      | Some (PendNotify ims) \<Rightarrow> ims_recv_rx ims < n)"

definition task_below :: "nat \<Rightarrow> open_task \<Rightarrow> bool" where
  "task_below n t = (case t of OtNotify ims \<Rightarrow> ims_recv_rx ims < n | _ \<Rightarrow> True)"

definition conn_ok :: "nat \<Rightarrow> mux_conn \<Rightarrow> bool" where
  "conn_ok n m \<longleftrightarrow>
     inj_on (mx_streams m) (dom (mx_streams m)) \<and> (\<forall>ch \<in> ran (mx_streams m). ch < n) \<and>
     mpsc_bounded (mx_incoming m) \<and> (\<forall>ims \<in> set (items (mx_incoming m)). ims_recv_rx ims < n) \<and>
     pending_below n (mx_pending m) \<and> task_below n (mx_first m)"

lemma conn_ok_wf: "chan_store_ok st \<Longrightarrow> conn_ok (cs_next st) m \<Longrightarrow> mux_wf (m, st)"
  by (simp add: conn_ok_def mux_wf_def chan_store_ok_def)

lemma wf_store_ok: "mux_wf (m, st) \<Longrightarrow> chan_store_ok st"
  by (simp add: mux_wf_def chan_store_ok_def)

lemma conn_ok_mono: "conn_ok n m \<Longrightarrow> n \<le> n' \<Longrightarrow> conn_ok n' m"
  by (auto simp: conn_ok_def pending_below_def task_below_def split: option.splits pending.splits open_task.splits)

lemma conn_ok_new: "mpsc_bounded inc \<Longrightarrow> items inc = [] \<Longrightarrow> conn_ok n (mux_new_inner r w f inc k)"
  by (simp add: conn_ok_def mux_new_inner_def pending_below_def task_below_def)

text \<open>What an event may do to a connection and the channels: it keeps the connection in order and
  never takes a channel away.\<close>

definition conn_keeps :: "chan_store \<Rightarrow> mux_conn \<times> chan_store \<Rightarrow> bool" where
  "conn_keeps st s \<longleftrightarrow>
     chan_store_ok (snd s) \<and> cs_next st \<le> cs_next (snd s) \<and> conn_ok (cs_next (snd s)) (fst s)"

lemma conn_keepsI:
  assumes "mux_wf (m', st')" and "cs_next st \<le> cs_next st'"
    and "\<forall>ims \<in> set (items (mx_incoming m')). ims_recv_rx ims < cs_next st'"
    and "pending_below (cs_next st') (mx_pending m')" and "task_below (cs_next st') (mx_first m')"
  shows "conn_keeps st (m', st')"
  using assms by (auto simp: conn_keeps_def conn_ok_def mux_wf_def chan_store_ok_def)

lemma below_mono:
  "pending_below n p \<Longrightarrow> n \<le> n' \<Longrightarrow> pending_below n' p"
  "task_below n t \<Longrightarrow> n \<le> n' \<Longrightarrow> task_below n' t"
  by (auto simp: pending_below_def task_below_def split: option.splits pending.splits open_task.splits)

lemma stream_open_refs:
  assumes "process_stream_open pay m st = (i, m1, st1)"
  shows "cs_next st \<le> cs_next st1 \<and> mx_incoming m1 = mx_incoming m \<and> mx_pending m1 = mx_pending m \<and>
    mx_first m1 = mx_first m \<and> (\<forall>ims. i = Some ims \<longrightarrow> ims_recv_rx ims < cs_next st1)"
  using assms
  by (auto simp: process_stream_open_def chan_new_def mux_insert_def Let_def split: if_splits)

lemma notify_refs:
  assumes "mux_notify ims m = Some m1" and "ims_recv_rx ims < n"
    and "\<forall>i \<in> set (items (mx_incoming m)). ims_recv_rx i < n"
  shows "(\<forall>i \<in> set (items (mx_incoming m1)). ims_recv_rx i < n) \<and> mx_pending m1 = mx_pending m \<and>
    mx_first m1 = mx_first m"
  using assms by (auto simp: mux_notify_def mpsc_send_def split: sent.splits if_splits)

lemma drop_incoming_same [simp]:
  "items (mx_incoming (mux_drop_incoming m)) = items (mx_incoming m)"
  "mx_pending (mux_drop_incoming m) = mx_pending m" "mx_first (mux_drop_incoming m) = mx_first m"
  by (simp_all add: mux_drop_incoming_def)

lemma cs_next_mux_remove [simp]: "cs_next (snd (mux_remove sid m st)) = cs_next st"
  by (simp add: mux_remove_def)

lemma finish_pending_keeps:
  assumes "chan_store_ok st" and "conn_ok (cs_next st) m"
  shows "conn_keeps st (mux_finish_pending m st)"
proof -
  obtain m1 st1 where eq: "mux_finish_pending m st = (m1, st1)" by (cases "mux_finish_pending m st")
  have "mux_wf (m1, st1)"
    using mux_finish_pending_wf[OF conn_ok_wf[OF assms]] eq by simp
  moreover have "cs_next st1 = cs_next st" "mx_first m1 = mx_first m"
      "pending_below (cs_next st) (mx_pending m1)"
      "\<forall>ims \<in> set (items (mx_incoming m1)). ims_recv_rx ims < cs_next st"
    using eq assms(2)
    by (auto simp: mux_finish_pending_def mux_notify_def mpsc_send_def conn_ok_def pending_below_def
        split: option.splits pending.splits sent.splits if_splits)
  ultimately show ?thesis using assms(2) eq by (auto intro!: conn_keepsI simp: conn_ok_def)
qed

lemma handle_frame_keeps:
  assumes "chan_store_ok st" and "conn_ok (cs_next st) m" and "mx_pending m = None"
  shows "conn_keeps st (mux_handle_frame f m st)"
proof -
  obtain m1 st1 where eq: "mux_handle_frame f m st = (m1, st1)" by (cases "mux_handle_frame f m st")
  obtain i m2 st2 where po: "process_stream_open (snd f) m st = (i, m2, st2)"
    by (cases "process_stream_open (snd f) m st")
  have wf: "mux_wf (m1, st1)" using mux_handle_frame_wf[OF conn_ok_wf[OF assms(1,2)]] eq by metis
  have ch: "\<And>sid ch. mx_streams m sid = Some ch \<Longrightarrow> ch < cs_next st"
    using assms(2) by (auto simp: conn_ok_def intro: ranI)
  have refs: "cs_next st \<le> cs_next st1 \<and> mx_incoming m1 = mx_incoming m \<and> mx_first m1 = mx_first m \<and>
      pending_below (cs_next st1) (mx_pending m1)"
    using eq stream_open_refs[OF po] assms(3) ch
    by (auto simp: mux_handle_frame_def po Let_def pending_below_def mux_remove_def
        split: frame_type.splits option.splits if_splits)
  then have "\<forall>ims \<in> set (items (mx_incoming m1)). ims_recv_rx ims < cs_next st1"
      "task_below (cs_next st1) (mx_first m1)"
    using assms(2) below_mono(2)[of "cs_next st"] by (auto simp: conn_ok_def dest: order_less_le_trans)
  then show ?thesis using wf refs eq by (auto intro!: conn_keepsI)
qed

lemma read_step_keeps:
  assumes "chan_store_ok st" and "conn_ok (cs_next st) m"
  shows "conn_keeps st (mux_read_step m st)"
proof -
  have rd: "conn_ok (cs_next st) (m\<lparr>mx_rd := r\<rparr>)" for r using assms(2) by (simp add: conn_ok_def)
  have ends: "conn_keeps st (mux_drop_incoming (m\<lparr>mx_rd := r, mx_rdone := True\<rparr>), st)" for r
    using assms by (simp add: conn_keeps_def conn_ok_def mux_drop_incoming_def mpsc_bounded_def task_below_def)
  have idle: "conn_keeps st (m, st)" using assms by (simp add: conn_keeps_def)
  show ?thesis
    using idle ends finish_pending_keeps[OF assms] handle_frame_keeps[OF assms(1) rd]
    by (auto simp: mux_read_step_def split: prod.splits sum.splits)
qed

lemma first_step_keeps:
  assumes "chan_store_ok st" and "conn_ok (cs_next st) m"
  shows "conn_keeps st (mux_first_step m st)"
proof -
  obtain m1 st1 where eq: "mux_first_step m st = (m1, st1)" by (cases "mux_first_step m st")
  have wf: "mux_wf (m1, st1)" using mux_first_step_wf[OF conn_ok_wf[OF assms]] eq by simp
  have m: "\<forall>ims \<in> set (items (mx_incoming m)). ims_recv_rx ims < cs_next st"
      "pending_below (cs_next st) (mx_pending m)" "task_below (cs_next st) (mx_first m)"
    using assms(2) by (simp_all add: conn_ok_def)
  have "cs_next st \<le> cs_next st1 \<and> pending_below (cs_next st1) (mx_pending m1) \<and>
      task_below (cs_next st1) (mx_first m1) \<and>
      (\<forall>ims \<in> set (items (mx_incoming m1)). ims_recv_rx ims < cs_next st1)"
  proof (cases "mx_first m")
    case OtDone
    then show ?thesis using eq m by (simp add: mux_first_step_def)
  next
    case (OtStart pay)
    obtain i m2 st2 where po: "process_stream_open pay m st = (i, m2, st2)"
      by (cases "process_stream_open pay m st")
    note refs = stream_open_refs[OF po]
    have later: "pending_below (cs_next st2) (mx_pending m)"
        "\<forall>ims \<in> set (items (mx_incoming m)). ims_recv_rx ims < cs_next st2"
      using refs m below_mono(1) by (auto dest: order_less_le_trans)
    show ?thesis
      using eq OtStart po refs later m
      by (cases i) (auto simp: mux_first_step_def task_below_def split: if_splits)
  next
    case (OtNotify ims)
    then have "ims_recv_rx ims < cs_next st" using m(3) by (simp add: task_below_def)
    then show ?thesis
      using eq OtNotify m notify_refs[of ims m _ "cs_next st"]
      by (auto simp: mux_first_step_def task_below_def split: option.splits)
  qed
  then show ?thesis using wf eq by (auto intro!: conn_keepsI)
qed

lemma write_item_same:
  "mx_pending (mux_write_item i m) = mx_pending m \<and> mx_first (mux_write_item i m) = mx_first m"
  by (auto simp: mux_write_item_def split: prod.splits sum.splits)

lemma write_step_same:
  "mx_pending (mux_write_step m) = mx_pending m \<and> mx_first (mux_write_step m) = mx_first m"
  by (auto simp: mux_write_step_def write_item_same split: write_pc.splits list.splits)

lemma write_step_ok: "conn_ok n m \<Longrightarrow> conn_ok n (mux_write_step m)"
  by (simp add: conn_ok_def mux_write_step_keeps write_step_same)

lemma enqueue_same:
  "mx_pending (snd (mux_enqueue c i m)) = mx_pending m \<and> mx_first (snd (mux_enqueue c i m)) = mx_first m"
  by (auto simp: mux_enqueue_def split: stream_class.splits)

lemma enqueue_ok: "conn_ok n m \<Longrightarrow> conn_ok n (snd (mux_enqueue c i m))"
  by (simp add: conn_ok_def mux_enqueue_keeps enqueue_same)

lemma announce_ok: "conn_ok n m \<Longrightarrow> conn_ok n (snd (mux_open_announce cls m))"
proof -
  assume ok: "conn_ok n m"
  let ?m = "m\<lparr>mx_next_stream_id := mx_next_stream_id m + 2\<rparr>"
  have "conn_ok n ?m" using ok by (simp add: conn_ok_def)
  from enqueue_ok[OF this, of cls "(FtStreamOpen, stream_open_payload (mx_next_stream_id m) cls)"]
  show ?thesis by (auto simp: mux_open_announce_def Let_def split: prod.splits sum.splits)
qed

lemma task_event_keeps:
  assumes "chan_store_ok st" and "conn_ok (cs_next st) m" and "e \<in> {MeWrite, MeRead, MeFirst}"
  shows "conn_keeps st (mux_event_step (m, st) e)"
  using assms read_step_keeps[OF assms(1,2)] first_step_keeps[OF assms(1,2)] write_step_ok
  by (auto simp: mux_event_step_def conn_keeps_def)

lemma open_stream_keeps:
  assumes "chan_store_ok st" and "conn_ok (cs_next st) m"
  shows "conn_keeps st (snd (mux_open_stream cls m st))"
proof -
  obtain r m1 where a: "mux_open_announce cls m = (r, m1)" by (cases "mux_open_announce cls m")
  have m1: "conn_ok (cs_next st) m1" using announce_ok[OF assms(2), of cls] a by simp
  show ?thesis
  proof (cases r)
    case (Inl e)
    then show ?thesis using a m1 assms(1) by (simp add: mux_open_stream_def conn_keeps_def)
  next
    case (Inr sid)
    obtain ch st1 where ch: "chan_new 64 st = (ch, st1)" by (cases "chan_new 64 st")
    have new: "mux_wf (mux_insert sid ch m1 st1)"
      by (rule mux_wf_insert_new[OF conn_ok_wf[OF assms(1) m1] ch])
    have "cs_next st1 = cs_next st + 1" using ch by (auto simp: chan_new_def)
    then have "conn_keeps st (mux_insert sid ch m1 st1)"
      using new m1 conn_ok_mono[OF m1, of "cs_next st1"]
      by (auto intro!: conn_keepsI simp: mux_insert_def conn_ok_def)
    then show ?thesis using a Inr ch by (simp add: mux_open_stream_def mux_open_register_def mux_insert_def)
  qed
qed

lemma close_stream_keeps:
  assumes "chan_store_ok st" and "conn_ok (cs_next st) m"
  shows "conn_keeps st (mux_close_stream sid cls m st)"
proof -
  let ?m = "snd (mux_enqueue cls (FtStreamClose, u32_to_be_bytes sid) m)"
  have m: "conn_ok (cs_next st) ?m" by (rule enqueue_ok[OF assms(2)])
  have "mux_wf (mux_remove sid ?m st)" by (rule mux_wf_remove[OF conn_ok_wf[OF assms(1) m]])
  then show ?thesis
    using m by (auto intro!: conn_keepsI simp: mux_close_stream_def mux_remove_def conn_ok_def)
qed

section \<open>The invariant\<close>

text \<open>The task that reads a stream's data.\<close>

definition served :: "daemon \<Rightarrow> u32 \<Rightarrow> stream_entry \<Rightarrow> bool" where
  "served dm sid e =
     (case se_mux_conn e of
        Some c \<Rightarrow>
          (\<exists>b \<in> set (dm_mux_bridges dm). mb_data_rx b = se_data_tx e \<and> mb_stream_id b = sid \<and>
             mb_class b = se_class e \<and> mb_conn b = c)
      | None \<Rightarrow>
          (\<exists>b \<in> set (dm_direct_bridges dm). db_data_rx b = se_data_tx e \<and> db_stream_id b = sid))"

definition readers :: "daemon \<Rightarrow> nat list" where
  "readers dm = map mb_data_rx (dm_mux_bridges dm) @ map db_data_rx (dm_direct_bridges dm)"

definition entry_ok :: "daemon \<Rightarrow> u32 \<Rightarrow> stream_entry \<Rightarrow> bool" where
  "entry_ok dm sid e \<longleftrightarrow> served dm sid e \<and> (\<forall>ch. se_recv_rx e = Some ch \<longrightarrow> ch < cs_next (dm_chans dm))"

definition daemon_wf :: "daemon \<Rightarrow> bool" where
  "daemon_wf dm \<longleftrightarrow>
     chan_store_ok (dm_chans dm) \<and>
     (\<forall>m \<in> set (dm_conns dm). conn_ok (cs_next (dm_chans dm)) m) \<and>
     (\<forall>c \<in> ran (dm_mux_pool dm). c < length (dm_conns dm)) \<and>
     (\<forall>b \<in> set (dm_mux_bridges dm). mb_conn b < length (dm_conns dm)) \<and>
     distinct (readers dm) \<and> (\<forall>ch \<in> set (readers dm). ch < cs_next (dm_chans dm)) \<and>
     (\<forall>b \<in> set (dm_direct_bridges dm). db_recv_tx b < cs_next (dm_chans dm)) \<and>
     (\<forall>sid e. dm_streams dm sid = Some e \<longrightarrow> entry_ok dm sid e)"

lemma daemon_wf_new: "daemon_wf (daemon_new config)"
  by (simp add: daemon_wf_def daemon_new_def readers_def chan_store_ok_def mpsc_bounded_def mpsc_new_def)

lemma daemon_wf_conn: "daemon_wf dm \<Longrightarrow> c < length (dm_conns dm) \<Longrightarrow> conn_ok (cs_next (dm_chans dm)) (dm_conns dm ! c)"
  by (simp add: daemon_wf_def)

text \<open>Fields the invariant does not read.\<close>

lemma daemon_wf_same:
  assumes "daemon_wf dm" and "dm_chans dm' = dm_chans dm" and "dm_conns dm' = dm_conns dm"
    and "dm_mux_pool dm' = dm_mux_pool dm" and "dm_mux_bridges dm' = dm_mux_bridges dm"
    and "dm_direct_bridges dm' = dm_direct_bridges dm" and "dm_streams dm' = dm_streams dm"
  shows "daemon_wf dm'"
proof -
  have "served dm' = served dm" "readers dm' = readers dm"
    using assms(2-) by (auto simp: served_def readers_def fun_eq_iff split: option.splits)
  then show ?thesis using assms by (simp add: daemon_wf_def entry_ok_def)
qed

text \<open>Other channels and another state of one connection.\<close>

lemma daemon_wf_update:
  assumes "daemon_wf dm" and "chan_store_ok st" and "cs_next (dm_chans dm) \<le> cs_next st"
  shows "daemon_wf (dm\<lparr>dm_chans := st\<rparr>)"
proof -
  have "served (dm\<lparr>dm_chans := st\<rparr>) = served dm" "readers (dm\<lparr>dm_chans := st\<rparr>) = readers dm"
    by (auto simp: served_def readers_def fun_eq_iff split: option.splits)
  then have "entry_ok dm sid e \<Longrightarrow> entry_ok (dm\<lparr>dm_chans := st\<rparr>) sid e" for sid e
    using assms(3) by (auto simp: entry_ok_def)
  then show ?thesis
    using assms conn_ok_mono[OF _ assms(3)] \<open>readers (dm\<lparr>dm_chans := st\<rparr>) = readers dm\<close>
    by (auto simp: daemon_wf_def dest: order_less_le_trans)
qed

lemma daemon_wf_conn_update:
  assumes "daemon_wf dm" and "conn_keeps (dm_chans dm) (m, st)"
  shows "daemon_wf (dm\<lparr>dm_conns := (dm_conns dm)[c := m], dm_chans := st\<rparr>)"
proof -
  let ?dm = "dm\<lparr>dm_chans := st\<rparr>"
  have st: "chan_store_ok st" "cs_next (dm_chans dm) \<le> cs_next st" "conn_ok (cs_next st) m"
    using assms(2) by (simp_all add: conn_keeps_def)
  have wf: "daemon_wf ?dm" by (rule daemon_wf_update[OF assms(1) st(1,2)])
  have "served (dm\<lparr>dm_conns := (dm_conns dm)[c := m], dm_chans := st\<rparr>) = served ?dm"
      "readers (dm\<lparr>dm_conns := (dm_conns dm)[c := m], dm_chans := st\<rparr>) = readers ?dm"
    by (auto simp: served_def readers_def fun_eq_iff split: option.splits)
  then show ?thesis
    using wf st(3) set_update_subset_insert[of "dm_conns dm" c m]
    by (auto simp: daemon_wf_def entry_ok_def)
qed

text \<open>The stream table.\<close>

lemma drop_entry_ok:
  "chan_store_ok st \<Longrightarrow> chan_store_ok (drop_entry e st)" "cs_next (drop_entry e st) = cs_next st"
  by (auto simp: drop_entry_def chan_drop_rx_def chan_drop_tx_def chan_store_ok_def mpsc_bounded_def
      split: option.splits)

lemma daemon_wf_insert:
  assumes "daemon_wf dm" and "entry_ok dm sid e"
  shows "daemon_wf (streams_insert sid e dm)"
proof -
  have "served (streams_insert sid e dm) = served dm" "readers (streams_insert sid e dm) = readers dm"
    by (auto simp: served_def readers_def streams_insert_def fun_eq_iff split: option.splits)
  then show ?thesis
    using assms by (auto simp: daemon_wf_def entry_ok_def streams_insert_def drop_entry_ok)
qed

lemma daemon_wf_remove: "daemon_wf dm \<Longrightarrow> daemon_wf (streams_remove sid dm)"
proof -
  assume wf: "daemon_wf dm"
  have "served (streams_remove sid dm) = served dm" "readers (streams_remove sid dm) = readers dm"
    by (auto simp: served_def readers_def streams_remove_def fun_eq_iff split: option.splits)
  then show ?thesis
    using wf by (auto simp: daemon_wf_def entry_ok_def streams_remove_def drop_entry_ok)
qed

text \<open>Fresh channels and the tasks that read them.\<close>

lemma new_chan_wf:
  assumes "daemon_wf dm" and "dm_new_chan dm = (i, dm1)"
  shows "daemon_wf dm1" and "i < cs_next (dm_chans dm1)" and "i \<notin> set (readers dm1)"
    and "dm1 = dm\<lparr>dm_chans := dm_chans dm1\<rparr>" and "cs_next (dm_chans dm1) = Suc (cs_next (dm_chans dm))"
    and "i = cs_next (dm_chans dm)"
proof -
  let ?st = "(dm_chans dm)\<lparr>cs_next := cs_next (dm_chans dm) + 1,
      cs_chan := (cs_chan (dm_chans dm))(cs_next (dm_chans dm) := mpsc_new 64)\<rparr>"
  have i: "i = cs_next (dm_chans dm)" and dm1: "dm1 = dm\<lparr>dm_chans := ?st\<rparr>"
    using assms(2) by (auto simp: dm_new_chan_def chan_new_def)
  have "chan_store_ok ?st"
    using assms(1) by (simp add: daemon_wf_def chan_store_ok_def mpsc_bounded_def mpsc_new_def)
  then show "daemon_wf dm1" unfolding dm1 by (intro daemon_wf_update assms(1)) simp_all
  show "i < cs_next (dm_chans dm1)" "dm1 = dm\<lparr>dm_chans := dm_chans dm1\<rparr>"
      "cs_next (dm_chans dm1) = Suc (cs_next (dm_chans dm))" "i = cs_next (dm_chans dm)"
    by (simp_all add: i dm1)
  show "i \<notin> set (readers dm1)"
    using assms(1) by (auto simp: i dm1 daemon_wf_def readers_def)
qed

lemma served_more:
  assumes "served dm sid e" and "set (dm_mux_bridges dm) \<subseteq> set (dm_mux_bridges dm')"
    and "set (dm_direct_bridges dm) \<subseteq> set (dm_direct_bridges dm')"
  shows "served dm' sid e"
  using assms by (fastforce simp: served_def split: option.splits)

lemma add_mux_bridge_wf:
  assumes "daemon_wf dm" and "mb_conn b < length (dm_conns dm)"
    and "mb_data_rx b < cs_next (dm_chans dm)" and "mb_data_rx b \<notin> set (readers dm)"
  shows "daemon_wf (dm\<lparr>dm_mux_bridges := dm_mux_bridges dm @ [b]\<rparr>)" (is "daemon_wf ?dm")
proof -
  have "entry_ok dm sid e \<Longrightarrow> entry_ok ?dm sid e" for sid e
    using served_more[of dm sid e ?dm] by (auto simp: entry_ok_def)
  then show ?thesis using assms by (auto simp: daemon_wf_def readers_def)
qed

lemma add_direct_bridge_wf:
  assumes "daemon_wf dm" and "db_recv_tx b < cs_next (dm_chans dm)"
    and "db_data_rx b < cs_next (dm_chans dm)" and "db_data_rx b \<notin> set (readers dm)"
  shows "daemon_wf (dm\<lparr>dm_direct_bridges := dm_direct_bridges dm @ [b]\<rparr>)" (is "daemon_wf ?dm")
proof -
  have "entry_ok dm sid e \<Longrightarrow> entry_ok ?dm sid e" for sid e
    using served_more[of dm sid e ?dm] by (auto simp: entry_ok_def)
  then show ?thesis using assms by (auto simp: daemon_wf_def readers_def)
qed

text \<open>A task that changes keeps what it serves.\<close>

lemma map_update_same: "f x = f (xs ! k) \<Longrightarrow> map f (xs[k := x]) = map f xs"
  by (metis list_update_beyond list_update_id map_update not_le)

lemma update_ex:
  assumes "b \<in> set xs" and "P b" and "k < length xs \<Longrightarrow> P (xs ! k) \<Longrightarrow> P x"
  shows "\<exists>b \<in> set (xs[k := x]). P b"
proof -
  obtain i where i: "i < length xs" "xs ! i = b" using assms(1) by (auto simp: in_set_conv_nth)
  show ?thesis
  proof (cases "i = k")
    case True
    then show ?thesis using i assms(2,3) by (metis set_update_memI)
  next
    case False
    then have "xs[k := x] ! i = b" "i < length (xs[k := x])" using i by simp_all
    then show ?thesis using assms(2) by (metis nth_mem)
  qed
qed

lemma set_mux_bridge_wf:
  assumes "daemon_wf dm"
  shows "daemon_wf (dm\<lparr>dm_mux_bridges := (dm_mux_bridges dm)[k := (dm_mux_bridges dm ! k)\<lparr>mb_done := True\<rparr>]\<rparr>)"
    (is "daemon_wf ?dm")
proof (cases "k < length (dm_mux_bridges dm)")
  case True
  have "served dm sid e \<Longrightarrow> served ?dm sid e" for sid e
    by (auto simp: served_def split: option.splits intro!: update_ex)
  then have "entry_ok dm sid e \<Longrightarrow> entry_ok ?dm sid e" for sid e by (auto simp: entry_ok_def)
  moreover have "readers ?dm = readers dm" by (simp add: readers_def map_update_same)
  moreover have "mb_conn b < length (dm_conns dm)" if "b \<in> set (dm_mux_bridges ?dm)" for b
    using that assms True by (auto simp: daemon_wf_def dest!: subsetD[OF set_update_subset_insert])
  ultimately show ?thesis using assms by (auto simp: daemon_wf_def)
next
  case False
  then show ?thesis using assms by (simp add: list_update_beyond)
qed

lemma set_bridge_wf:
  assumes "daemon_wf dm" and "k < length (dm_direct_bridges dm)"
    and "db_stream_id b = db_stream_id (dm_direct_bridges dm ! k)"
    and "db_data_rx b = db_data_rx (dm_direct_bridges dm ! k)"
    and "db_recv_tx b = db_recv_tx (dm_direct_bridges dm ! k)"
  shows "daemon_wf (set_bridge k b dm)"
proof -
  let ?dm = "set_bridge k b dm"
  have fields: "dm_chans ?dm = dm_chans dm" "dm_conns ?dm = dm_conns dm" "dm_mux_pool ?dm = dm_mux_pool dm"
      "dm_mux_bridges ?dm = dm_mux_bridges dm" "dm_streams ?dm = dm_streams dm"
      "dm_direct_bridges ?dm = (dm_direct_bridges dm)[k := b]"
    by (simp_all add: set_bridge_def)
  have "served dm sid e \<Longrightarrow> served ?dm sid e" for sid e
    using assms(3,4) by (auto simp: served_def fields split: option.splits intro!: update_ex)
  then have "entry_ok dm sid e \<Longrightarrow> entry_ok ?dm sid e" for sid e by (auto simp: entry_ok_def fields)
  moreover have "readers ?dm = readers dm"
    using assms(4) by (simp add: readers_def fields map_update_same)
  moreover have "db_recv_tx x < cs_next (dm_chans dm)" if "x \<in> set (dm_direct_bridges ?dm)" for x
    using that assms(1,2,5) by (auto simp: fields daemon_wf_def dest!: subsetD[OF set_update_subset_insert])
  ultimately show ?thesis using assms(1) by (auto simp: daemon_wf_def fields)
qed

section \<open>Every step keeps the invariant\<close>

lemma set_chan_wf:
  assumes "daemon_wf dm" and "mpsc_bounded q" and "cap q = cap (cs_chan (dm_chans dm) i)"
  shows "daemon_wf (set_chan i q dm)"
  unfolding set_chan_def
  by (rule daemon_wf_update[OF assms(1)]) (use assms in \<open>auto simp: daemon_wf_def chan_store_ok_def\<close>)

lemma chan_bounded: "daemon_wf dm \<Longrightarrow> mpsc_bounded (cs_chan (dm_chans dm) i)"
  by (simp add: daemon_wf_def chan_store_ok_def)

lemma set_chan_recv_wf:
  "daemon_wf dm \<Longrightarrow> mpsc_recv (cs_chan (dm_chans dm) i) = Received x q \<Longrightarrow> daemon_wf (set_chan i q dm)"
  by (rule set_chan_wf) (auto dest: mpsc_bounded_recv[OF chan_bounded] mux_recv_keeps_cap)

lemma set_chan_send_wf:
  "daemon_wf dm \<Longrightarrow> mpsc_send x (cs_chan (dm_chans dm) i) = Sent q \<Longrightarrow> daemon_wf (set_chan i q dm)"
  by (rule set_chan_wf) (auto dest: mpsc_bounded_send[OF chan_bounded] mux_send_keeps_cap)

lemma start_listener_wf: "daemon_wf dm \<Longrightarrow> daemon_wf (snd (start_listener r dm))"
  by (rule daemon_wf_same, assumption) (auto simp: start_listener_def Let_def split: sum.splits)

lemma consume_wf: "daemon_wf dm \<Longrightarrow> daemon_wf (consume ch dm)"
  by (auto simp: consume_def set_chan_recv_wf split: received.splits)

lemma daemon_send_wf: "daemon_wf dm \<Longrightarrow> daemon_wf (snd (daemon_send sid data dm))"
  by (auto simp: daemon_send_def set_chan_send_wf[unfolded set_chan_def] split: option.splits sent.splits)

lemma take_recv_rx_wf:
  assumes "daemon_wf dm"
  shows "daemon_wf (snd (take_recv_rx sid dm))"
proof (cases "dm_streams dm sid")
  case None
  then show ?thesis using assms by (simp add: take_recv_rx_def)
next
  case (Some e)
  let ?dm = "dm\<lparr>dm_streams := (dm_streams dm)(sid \<mapsto> e\<lparr>se_recv_rx := None\<rparr>)\<rparr>"
  have served: "served ?dm = served dm" "readers ?dm = readers dm"
    by (auto simp: served_def readers_def fun_eq_iff split: option.splits)
  have "served dm sid e" using assms Some by (simp add: daemon_wf_def entry_ok_def)
  then have "served dm sid (e\<lparr>se_recv_rx := None\<rparr>)"
    by (simp add: served_def split: option.splits)
  then have "daemon_wf ?dm"
    using assms served by (auto simp: daemon_wf_def entry_ok_def)
  then show ?thesis using Some by (simp add: take_recv_rx_def)
qed

text \<open>A stream with its own connection: two fresh channels, an entry and the task that serves it.\<close>

lemma direct_stream_wf:
  assumes "daemon_wf dm" and "dm_new_chan dm = (data, dm1)" and "dm_new_chan dm1 = (recv, dm2)"
    and "se_data_tx e = data" and "se_mux_conn e = None" and "se_recv_rx e \<in> {None, Some recv}"
    and "db_stream_id b = sid" and "db_data_rx b = data" and "db_recv_tx b = recv"
  shows "daemon_wf ((streams_insert sid e dm2)
    \<lparr>dm_direct_bridges := dm_direct_bridges (streams_insert sid e dm2) @ [b]\<rparr>)"
proof -
  note n1 = new_chan_wf[OF assms(1,2)]
  note n2 = new_chan_wf[OF n1(1) assms(3)]
  let ?dm = "dm2\<lparr>dm_direct_bridges := dm_direct_bridges dm2 @ [b]\<rparr>"
  have "readers dm2 = readers dm1" using n2(4) by (metis (no_types, lifting) daemon.simps daemon.surjective readers_def)
  then have wf: "daemon_wf ?dm"
    using n1 n2 assms(8,9) by (intro add_direct_bridge_wf) auto
  have "entry_ok ?dm sid e"
    using assms(4-9) n2(2) by (auto simp: entry_ok_def served_def)
  from daemon_wf_insert[OF wf this]
  show ?thesis by (rule daemon_wf_same) (simp_all add: streams_insert_def)
qed

lemma incoming_wf: "daemon_wf dm \<Longrightarrow> daemon_wf (dm\<lparr>dm_incoming := x\<rparr>)"
  by (erule daemon_wf_same) simp_all

lemma handle_inbound_relay_wf:
  assumes "daemon_wf dm"
  shows "daemon_wf (snd (handle_inbound_relay r w pay from_id dm))"
proof (cases "length pay < 5 \<or> (\<exists>e w1. write_frame FtRelayOpenAck pay w = (Inl e, w1))")
  case True
  then show ?thesis using assms by (auto simp: handle_inbound_relay_def Let_def)
next
  case False
  then obtain u w1 where w: "write_frame FtRelayOpenAck pay w = (Inr u, w1)" and len: "\<not> length pay < 5"
    by (metis prod.collapse sum.exhaust)
  obtain data dm1 where c1: "dm_new_chan dm = (data, dm1)" by (cases "dm_new_chan dm")
  obtain recv dm2 where c2: "dm_new_chan dm1 = (recv, dm2)" by (cases "dm_new_chan dm1")
  let ?sid = "u32_from_be_bytes (take 4 pay)"
  let ?e = "\<lparr>se_data_tx = data, se_recv_rx = Some recv, se_class = class_from_byte (pay ! 4), se_mux_conn = None\<rparr>"
  let ?b = "\<lparr>db_stream_id = ?sid, db_rd = r, db_wr = w1, db_data_rx = data, db_recv_tx = recv,
      db_pending = None, db_done = False\<rparr>"
  have "daemon_wf ((streams_insert ?sid ?e dm2)
      \<lparr>dm_direct_bridges := dm_direct_bridges (streams_insert ?sid ?e dm2) @ [?b]\<rparr>)"
    by (rule direct_stream_wf[OF assms c1 c2]) simp_all
  then show ?thesis
    by (rule daemon_wf_same) (use w len in \<open>simp_all add: handle_inbound_relay_def Let_def c1 c2\<close>)
qed

text \<open>A multiplexed stream: a fresh channel, the task that reads it and the entry.\<close>

lemma mux_stream_wf:
  assumes "daemon_wf dm" and "dm_new_chan dm = (data, dm1)" and "c < length (dm_conns dm)"
    and "\<And>ch. se_recv_rx e = Some ch \<Longrightarrow> ch < cs_next (dm_chans dm)"
    and "se_data_tx e = data" and "se_mux_conn e = Some c" and "se_class e = cls"
    and "b = \<lparr>mb_conn = c, mb_stream_id = sid, mb_class = cls, mb_data_rx = data, mb_done = False\<rparr>"
  shows "daemon_wf (streams_insert sid e (dm1\<lparr>dm_mux_bridges := dm_mux_bridges dm1 @ [b]\<rparr>))"
proof -
  note n1 = new_chan_wf[OF assms(1,2)]
  have "length (dm_conns dm1) = length (dm_conns dm)" by (subst n1(4)) simp
  then have wf: "daemon_wf (dm1\<lparr>dm_mux_bridges := dm_mux_bridges dm1 @ [b]\<rparr>)"
    using n1 assms(3,8) by (intro add_mux_bridge_wf) auto
  show ?thesis
    by (rule daemon_wf_insert[OF wf])
       (use assms(4-8) n1(5) in \<open>auto simp: entry_ok_def served_def less_Suc_eq\<close>)
qed

lemma register_mux_incoming_wf:
  assumes "daemon_wf dm" and "c < length (dm_conns dm)" and "ims_recv_rx ims < cs_next (dm_chans dm)"
  shows "daemon_wf (register_mux_incoming ims c dm)"
proof -
  obtain data dm1 where c1: "dm_new_chan dm = (data, dm1)" by (cases "dm_new_chan dm")
  let ?sid = "ims_stream_id ims" and ?cls = "ims_class ims"
  let ?e = "\<lparr>se_data_tx = data, se_recv_rx = Some (ims_recv_rx ims), se_class = ?cls, se_mux_conn = Some c\<rparr>"
  let ?b = "\<lparr>mb_conn = c, mb_stream_id = ?sid, mb_class = ?cls, mb_data_rx = data, mb_done = False\<rparr>"
  have "daemon_wf (streams_insert ?sid ?e (dm1\<lparr>dm_mux_bridges := dm_mux_bridges dm1 @ [?b]\<rparr>))"
    by (rule mux_stream_wf[OF assms(1) c1 assms(2)]) (use assms(3) in auto)
  from incoming_wf[OF this] show ?thesis by (simp add: register_mux_incoming_def Let_def c1)
qed

lemma forward_mux_incoming_wf:
  assumes "daemon_wf dm"
  shows "daemon_wf (forward_mux_incoming c dm)"
proof (cases "c < length (dm_conns dm)")
  case True
  let ?m = "dm_conns dm ! c"
  have ok: "conn_ok (cs_next (dm_chans dm)) ?m" by (rule daemon_wf_conn[OF assms True])
  show ?thesis
  proof (cases "mpsc_recv (mx_incoming ?m)")
    case (Received ims q)
    have its: "items (mx_incoming ?m) = ims # items q" by (rule mpsc_recv_items[OF Received])
    have "conn_ok (cs_next (dm_chans dm)) (?m\<lparr>mx_incoming := q\<rparr>)"
      using ok its mpsc_bounded_recv[OF _ Received] by (simp add: conn_ok_def)
    then have "conn_keeps (dm_chans dm) (?m\<lparr>mx_incoming := q\<rparr>, dm_chans dm)"
      using assms by (simp add: conn_keeps_def daemon_wf_def)
    from daemon_wf_conn_update[OF assms this, of c]
    have "daemon_wf (dm\<lparr>dm_conns := (dm_conns dm)[c := ?m\<lparr>mx_incoming := q\<rparr>]\<rparr>)" by simp
    then have "daemon_wf (register_mux_incoming ims c (dm\<lparr>dm_conns := (dm_conns dm)[c := ?m\<lparr>mx_incoming := q\<rparr>]\<rparr>))"
      by (rule register_mux_incoming_wf) (use True ok its in \<open>simp_all add: conn_ok_def\<close>)
    then show ?thesis using True Received by (simp add: forward_mux_incoming_def)
  qed (use assms True in \<open>simp_all add: forward_mux_incoming_def\<close>)
qed (use assms in \<open>simp add: forward_mux_incoming_def\<close>)

lemma new_conn_wf:
  assumes "daemon_wf dm" and "conn_ok (cs_next (dm_chans dm)) m"
  shows "daemon_wf (dm\<lparr>dm_conns := dm_conns dm @ [m]\<rparr>)" (is "daemon_wf ?dm")
proof -
  have "served ?dm = served dm" "readers ?dm = readers dm"
    by (auto simp: served_def readers_def fun_eq_iff split: option.splits)
  then show ?thesis using assms by (auto simp: daemon_wf_def entry_ok_def less_Suc_eq)
qed

lemma handle_inbound_mux_wf:
  assumes "daemon_wf dm"
  shows "daemon_wf (snd (handle_inbound_mux r w pay from_id dm))"
proof -
  have "conn_ok n (mux_new_responder r w from_id (mpsc_new 64) pay)" for n
    by (simp add: mux_new_responder_def conn_ok_def mux_new_inner_def pending_below_def task_below_def)
       (simp add: mpsc_new_def)
  from new_conn_wf[OF assms this] show ?thesis by (simp add: handle_inbound_mux_def dm_new_conn_def)
qed

lemma handle_inbound_wf:
  assumes "daemon_wf dm"
  shows "daemon_wf (snd (handle_inbound env nonce d dm))"
  using assms handle_inbound_relay_wf[OF assms] handle_inbound_mux_wf[OF assms]
  by (auto simp: handle_inbound_def Let_def split: prod.splits sum.splits frame_type.splits)

lemma mux_pool_get_wf:
  assumes "daemon_wf dm" and "mux_pool_get env addr dm = (r, dm1)"
  shows "daemon_wf dm1" and "r = Inr c \<Longrightarrow> c < length (dm_conns dm1)"
proof -
  have ini: "conn_ok n (mux_new_initiator rr w from_id (mpsc_new 64))" for n rr w from_id
    unfolding mux_new_initiator_def by (rule conn_ok_new) (simp_all add: mpsc_new_def mpsc_bounded_def)
  have pooled: "daemon_wf (dm'\<lparr>dm_mux_pool := (dm_mux_pool dm')(addr \<mapsto> k)\<rparr>)"
    if "daemon_wf dm'" "k < length (dm_conns dm')" for dm' k
  proof -
    have "served (dm'\<lparr>dm_mux_pool := (dm_mux_pool dm')(addr \<mapsto> k)\<rparr>) = served dm'"
        "readers (dm'\<lparr>dm_mux_pool := (dm_mux_pool dm')(addr \<mapsto> k)\<rparr>) = readers dm'"
      by (auto simp: served_def readers_def fun_eq_iff split: option.splits)
    then show ?thesis using that by (auto simp: daemon_wf_def entry_ok_def ran_def)
  qed
  have "daemon_wf dm1 \<and> (\<forall>c. r = Inr c \<longrightarrow> c < length (dm_conns dm1))"
  proof (cases "dm_mux_pool dm addr")
    case (Some k)
    then have "k < length (dm_conns dm)" using assms(1) by (auto simp: daemon_wf_def intro: ranI)
    then show ?thesis using assms Some by (auto simp: mux_pool_get_def)
  next
    case None
    have "daemon_wf (dm\<lparr>dm_conns := dm_conns dm @ [mux_new_initiator rr w a (mpsc_new 64)],
        dm_mux_pool := (dm_mux_pool dm)(addr \<mapsto> length (dm_conns dm))\<rparr>)" for rr w a
      using pooled[OF new_conn_wf[OF assms(1) ini[of _ rr w a]], of "length (dm_conns dm)"] by simp
    then show ?thesis
      using assms None
      by (auto simp: mux_pool_get_def create_mux_conn_def dm_new_conn_def split: sum.splits prod.splits)
  qed
  then show "daemon_wf dm1" "r = Inr c \<Longrightarrow> c < length (dm_conns dm1)" by auto
qed

lemma dial_mux_wf:
  assumes "daemon_wf dm"
  shows "daemon_wf (snd (dial_mux env addr cls dm))"
proof -
  obtain r dm1 where pool: "mux_pool_get env addr dm = (r, dm1)" by (cases "mux_pool_get env addr dm")
  note wf1 = mux_pool_get_wf[OF assms pool]
  show ?thesis
  proof (cases r)
    case (Inl e)
    then show ?thesis using pool wf1(1) by (simp add: dial_mux_def)
  next
    case (Inr c)
    note c = wf1(2)[OF Inr]
    obtain o' m st where op: "mux_open_stream cls (dm_conns dm1 ! c) (dm_chans dm1) = (o', m, st)"
      by (cases "mux_open_stream cls (dm_conns dm1 ! c) (dm_chans dm1)")
    have "chan_store_ok (dm_chans dm1)" using wf1(1) by (simp add: daemon_wf_def)
    from open_stream_keeps[OF this daemon_wf_conn[OF wf1(1) c], of cls]
    have "conn_keeps (dm_chans dm1) (m, st)" using op by simp
    then have wf2: "daemon_wf (dm1\<lparr>dm_conns := (dm_conns dm1)[c := m], dm_chans := st\<rparr>)"
      by (rule daemon_wf_conn_update[OF wf1(1)])
    show ?thesis
    proof (cases o')
      case (Inl e)
      then show ?thesis using pool Inr op wf2 by (simp add: dial_mux_def)
    next
      case (Inr p)
      obtain sid recv where p: "p = (sid, recv)" by (cases p)
      obtain data dm2 where ch: "dm_new_chan (dm1\<lparr>dm_conns := (dm_conns dm1)[c := m], dm_chans := st\<rparr>) = (data, dm2)"
        by (cases "dm_new_chan (dm1\<lparr>dm_conns := (dm_conns dm1)[c := m], dm_chans := st\<rparr>)")
      have "daemon_wf (streams_insert sid
          \<lparr>se_data_tx = data, se_recv_rx = None, se_class = cls, se_mux_conn = Some c\<rparr>
          (dm2\<lparr>dm_mux_bridges := dm_mux_bridges dm2 @ [\<lparr>mb_conn = c, mb_stream_id = sid, mb_class = cls,
             mb_data_rx = data, mb_done = False\<rparr>]\<rparr>))"
        by (rule mux_stream_wf[OF wf2 ch]) (use c in simp_all)
      then show ?thesis using pool \<open>r = Inr c\<close> op Inr p ch by (simp add: dial_mux_def)
    qed
  qed
qed

lemma dial_direct_wf:
  assumes "daemon_wf dm"
  shows "daemon_wf (snd (dial_direct env addr cls dm))"
proof -
  define dm0 where "dm0 = dm\<lparr>dm_next_stream_id := dm_next_stream_id dm + 1\<rparr>"
  have wf0: "daemon_wf dm0" by (rule daemon_wf_same[OF assms]) (simp_all add: dm0_def)
  obtain data dm1 where c1: "dm_new_chan dm0 = (data, dm1)" by (cases "dm_new_chan dm0")
  obtain recv dm2 where c2: "dm_new_chan dm1 = (recv, dm2)" by (cases "dm_new_chan dm1")
  let ?sid = "dm_next_stream_id dm"
  let ?e = "\<lparr>se_data_tx = data, se_recv_rx = None, se_class = cls, se_mux_conn = None\<rparr>"
  have ready: "daemon_wf ((streams_insert ?sid ?e dm2)
      \<lparr>dm_direct_bridges := dm_direct_bridges (streams_insert ?sid ?e dm2) @
        [\<lparr>db_stream_id = ?sid, db_rd = r, db_wr = w, db_data_rx = data, db_recv_tx = recv,
          db_pending = None, db_done = False\<rparr>]\<rparr>)" for r w
    by (rule direct_stream_wf[OF wf0 c1 c2]) simp_all
  show ?thesis
    unfolding dial_direct_def Let_def dm0_def[symmetric] c1 c2 prod.case
    using wf0 ready
    by (auto split: sum.splits prod.splits)
qed

lemma dial_wf:
  assumes "daemon_wf dm"
  shows "daemon_wf (snd (dial env re target cls dm))"
proof -
  have resolved: "daemon_wf dm2" if "dial_resolved env addr cls dm1 = (x, dm2)" "daemon_wf dm1" for addr dm1 x dm2
    using dial_mux_wf[OF that(2), of env addr cls] dial_direct_wf[OF that(2), of env addr cls] that(1)
    by (simp add: dial_resolved_def split: if_splits)
  have cached: "daemon_wf (dm\<lparr>dm_resolver := r\<rparr>)" for r
    by (rule daemon_wf_same[OF assms]) simp_all
  show ?thesis
    using assms cached
    by (auto simp: dial_def split: option.splits prod.splits sum.splits dest!: resolved)
qed

lemma conn_event_wf:
  assumes "daemon_wf dm" and "c < length (dm_conns dm)" and "e \<in> {MeWrite, MeRead, MeFirst}"
  shows "daemon_wf (conn_event c e dm)"
proof -
  obtain m st where eq: "mux_event_step (dm_conns dm ! c, dm_chans dm) e = (m, st)"
    by (cases "mux_event_step (dm_conns dm ! c, dm_chans dm) e")
  have "chan_store_ok (dm_chans dm)" using assms(1) by (simp add: daemon_wf_def)
  from task_event_keeps[OF this daemon_wf_conn[OF assms(1,2)] assms(3)]
  have "conn_keeps (dm_chans dm) (m, st)" using eq by simp
  from daemon_wf_conn_update[OF assms(1) this] show ?thesis by (simp add: conn_event_def eq)
qed

text \<open>The bridges.\<close>

lemma chan_drop_ok:
  "chan_store_ok st \<Longrightarrow> chan_store_ok (chan_drop_rx i st)" "cs_next (chan_drop_rx i st) = cs_next st"
  "chan_store_ok st \<Longrightarrow> chan_store_ok (chan_drop_tx i st)"
  by (auto simp: chan_drop_rx_def chan_drop_tx_def chan_store_ok_def mpsc_bounded_def split: option.splits)

lemma mux_bridge_end_wf:
  assumes "daemon_wf dm" and "k < length (dm_mux_bridges dm)"
  shows "daemon_wf (mux_bridge_end k dm)"
proof -
  let ?b = "dm_mux_bridges dm ! k"
  obtain m st where eq: "mux_close_stream (mb_stream_id ?b) (mb_class ?b) (dm_conns dm ! mb_conn ?b) (dm_chans dm) = (m, st)"
    by (cases "mux_close_stream (mb_stream_id ?b) (mb_class ?b) (dm_conns dm ! mb_conn ?b) (dm_chans dm)")
  have "mb_conn ?b < length (dm_conns dm)" and ok: "chan_store_ok (dm_chans dm)"
    using assms by (simp_all add: daemon_wf_def)
  from close_stream_keeps[OF ok daemon_wf_conn[OF assms(1) this(1)], of "mb_stream_id ?b" "mb_class ?b"]
  have keeps: "conn_keeps (dm_chans dm) (m, st)" using eq by simp
  let ?dm = "dm\<lparr>dm_conns := (dm_conns dm)[mb_conn ?b := m], dm_chans := st\<rparr>"
  have wf: "daemon_wf ?dm" by (rule daemon_wf_conn_update[OF assms(1) keeps])
  have "chan_store_ok st" using keeps by (simp add: conn_keeps_def)
  then have "daemon_wf (?dm\<lparr>dm_chans := chan_drop_rx (Some (mb_data_rx ?b)) st\<rparr>)"
    by (intro daemon_wf_update[OF wf]) (simp_all add: chan_drop_ok)
  from set_mux_bridge_wf[OF this, of k] show ?thesis
    by (simp add: mux_bridge_end_def Let_def eq)
qed

lemma mux_bridge_step_wf:
  assumes "daemon_wf dm"
  shows "daemon_wf (mux_bridge_step k dm)"
proof (cases "length (dm_mux_bridges dm) \<le> k \<or> mb_done (dm_mux_bridges dm ! k)")
  case True
  then show ?thesis using assms by (simp add: mux_bridge_step_def)
next
  case False
  let ?b = "dm_mux_bridges dm ! k"
  show ?thesis
  proof (cases "mpsc_recv (cs_chan (dm_chans dm) (mb_data_rx ?b))")
    case (Received data q)
    let ?dm = "set_chan (mb_data_rx ?b) q dm"
    have wf: "daemon_wf ?dm" by (rule set_chan_recv_wf[OF assms Received])
    have same: "dm_mux_bridges ?dm = dm_mux_bridges dm" "dm_conns ?dm = dm_conns dm"
      by (simp_all add: set_chan_def)
    obtain r m where snd: "mux_send (mb_stream_id ?b) data (mb_class ?b) (dm_conns dm ! mb_conn ?b) = (r, m)"
      by (cases "mux_send (mb_stream_id ?b) data (mb_class ?b) (dm_conns dm ! mb_conn ?b)")
    have "mb_conn ?b < length (dm_conns dm)" using assms False by (simp add: daemon_wf_def)
    then have "conn_ok (cs_next (dm_chans ?dm)) (dm_conns dm ! mb_conn ?b)"
      using daemon_wf_conn[OF wf] same by simp
    then have "conn_ok (cs_next (dm_chans ?dm)) m"
      using enqueue_ok snd by (metis mux_send_def snd_conv)
    then have "conn_keeps (dm_chans ?dm) (m, dm_chans ?dm)"
      using wf by (simp add: conn_keeps_def daemon_wf_def)
    from daemon_wf_conn_update[OF wf this, of "mb_conn ?b"]
    have "daemon_wf (?dm\<lparr>dm_conns := (dm_conns ?dm)[mb_conn ?b := m]\<rparr>)" by simp
    moreover have "daemon_wf (mux_bridge_end k ?dm)"
      by (rule mux_bridge_end_wf[OF wf]) (use False same in simp)
    ultimately show ?thesis using False Received snd by (cases r) (simp_all add: mux_bridge_step_def Let_def)
  qed (use assms False mux_bridge_end_wf[OF assms] in \<open>simp_all add: mux_bridge_step_def Let_def\<close>)
qed

lemma direct_bridge_end_wf:
  assumes "daemon_wf dm" and "k < length (dm_direct_bridges dm)"
    and "db_stream_id b = db_stream_id (dm_direct_bridges dm ! k)"
    and "db_data_rx b = db_data_rx (dm_direct_bridges dm ! k)"
    and "db_recv_tx b = db_recv_tx (dm_direct_bridges dm ! k)"
  shows "daemon_wf (direct_bridge_end k b dm)"
proof -
  let ?dm = "streams_remove (db_stream_id b) dm"
  let ?st = "chan_drop_tx (Some (db_recv_tx b)) (chan_drop_rx (Some (db_data_rx b)) (dm_chans ?dm))"
  have wf: "daemon_wf ?dm" by (rule daemon_wf_remove[OF assms(1)])
  have "daemon_wf (?dm\<lparr>dm_chans := ?st\<rparr>)"
    by (rule daemon_wf_update[OF wf]) (use wf in \<open>simp_all add: daemon_wf_def chan_drop_ok\<close>)
  then have "daemon_wf (set_bridge k (b\<lparr>db_done := True\<rparr>) (?dm\<lparr>dm_chans := ?st\<rparr>))"
    by (rule set_bridge_wf) (use assms(2-) in \<open>simp_all add: streams_remove_def\<close>)
  then show ?thesis by (simp add: direct_bridge_end_def Let_def set_bridge_def)
qed

lemma direct_bridge_step_wf:
  assumes "daemon_wf dm"
  shows "daemon_wf (direct_bridge_step k ev dm)"
proof (cases "length (dm_direct_bridges dm) \<le> k \<or> db_done (dm_direct_bridges dm ! k)")
  case True
  then show ?thesis using assms by (simp add: direct_bridge_step_def)
next
  case False
  then have k: "k < length (dm_direct_bridges dm)" by simp
  let ?b = "dm_direct_bridges dm ! k"
  have same: "dm_direct_bridges (set_chan i q dm) = dm_direct_bridges dm" for i q by (simp add: set_chan_def)
  have data: "daemon_wf (direct_bridge_data k lost ?b dm)" for lost
    using assms k direct_bridge_end_wf[OF assms k] direct_bridge_end_wf[OF set_chan_recv_wf[OF assms]]
      set_bridge_wf[OF set_chan_recv_wf[OF assms]]
    by (auto simp: direct_bridge_data_def Let_def same split: received.splits prod.splits sum.splits)
  have frame: "daemon_wf (direct_bridge_frame k ?b dm)"
    using direct_bridge_end_wf[OF assms k] set_bridge_wf[OF assms k]
    by (auto simp: direct_bridge_frame_def Let_def split: prod.splits sum.splits frame_type.splits)
  have over: "daemon_wf (direct_bridge_hand_over k ?b x dm)" for x
    using assms k direct_bridge_end_wf[OF assms k] set_bridge_wf[OF set_chan_send_wf[OF assms]]
    by (auto simp: direct_bridge_hand_over_def same split: sent.splits)
  show ?thesis
    using assms data frame over
    by (auto simp: direct_bridge_step_def Let_def split: option.splits bridge_event.splits)
qed

lemma daemon_step_wf: "daemon_step env re dm dm' \<Longrightarrow> daemon_wf dm \<Longrightarrow> daemon_wf dm'"
  by (erule daemon_stepE)
     (simp_all add: start_listener_wf handle_inbound_wf forward_mux_incoming_wf dial_wf daemon_send_wf
        daemon_close_stream_def daemon_wf_remove take_recv_rx_wf conn_event_wf mux_bridge_step_wf
        direct_bridge_step_wf consume_wf)

lemma daemon_reachable_wf: "daemon_reachable env re config dm \<Longrightarrow> daemon_wf dm"
  by (induction rule: daemon_reachable.induct) (simp_all add: daemon_wf_new daemon_step_wf)

section \<open>What the invariant gives\<close>

lemma served_unique:
  assumes "distinct (readers dm)" and "served dm sid e" and "served dm sid' e'"
    and "se_data_tx e' = se_data_tx e"
  shows "sid' = sid"
proof -
  have mux: "b = b'" if "b \<in> set (dm_mux_bridges dm)" "b' \<in> set (dm_mux_bridges dm)" "mb_data_rx b = mb_data_rx b'" for b b'
    using assms(1) that by (auto simp: readers_def distinct_map inj_on_def)
  have direct: "b = b'" if "b \<in> set (dm_direct_bridges dm)" "b' \<in> set (dm_direct_bridges dm)" "db_data_rx b = db_data_rx b'" for b b'
    using assms(1) that by (auto simp: readers_def distinct_map inj_on_def)
  have apart: "mb_data_rx b \<noteq> db_data_rx b'" if "b \<in> set (dm_mux_bridges dm)" "b' \<in> set (dm_direct_bridges dm)" for b b'
    using assms(1) that by (auto simp: readers_def disjoint_iff)
  show ?thesis
  proof (cases "se_mux_conn e")
    case None
    then obtain b where b: "b \<in> set (dm_direct_bridges dm)" "db_data_rx b = se_data_tx e" "db_stream_id b = sid"
      using assms(2) by (auto simp: served_def)
    show ?thesis
    proof (cases "se_mux_conn e'")
      case None
      then obtain b' where b': "b' \<in> set (dm_direct_bridges dm)" "db_data_rx b' = se_data_tx e'" "db_stream_id b' = sid'"
        using assms(3) by (auto simp: served_def)
      then show ?thesis using direct[OF b(1) b'(1)] b assms(4) by simp
    next
      case (Some c)
      then obtain b' where "b' \<in> set (dm_mux_bridges dm)" "mb_data_rx b' = se_data_tx e'"
        using assms(3) by (auto simp: served_def)
      then show ?thesis using apart[OF _ b(1)] b assms(4) by metis
    qed
  next
    case (Some c)
    then obtain b where b: "b \<in> set (dm_mux_bridges dm)" "mb_data_rx b = se_data_tx e" "mb_stream_id b = sid"
      using assms(2) by (auto simp: served_def)
    show ?thesis
    proof (cases "se_mux_conn e'")
      case None
      then obtain b' where "b' \<in> set (dm_direct_bridges dm)" "db_data_rx b' = se_data_tx e'"
        using assms(3) by (auto simp: served_def)
      then show ?thesis using apart[OF b(1)] b assms(4) by metis
    next
      case (Some c')
      then obtain b' where b': "b' \<in> set (dm_mux_bridges dm)" "mb_data_rx b' = se_data_tx e'" "mb_stream_id b' = sid'"
        using assms(3) by (auto simp: served_def)
      then show ?thesis using mux[OF b(1) b'(1)] b assms(4) by simp
    qed
  qed
qed


definition demo_registry_env :: registry_env where
  "demo_registry_env =
     \<lparr>re_get = (\<lambda>_. Inl (RqSend ''unreachable'')), re_decode = (\<lambda>_. None), re_text = (\<lambda>_. ''error''),
      re_now = 0, re_later = 0\<rparr>"


end
