(* ===== verification/Server.thy ===== *)
theory Server
  imports Manager_Laws
begin

text \<open>
  The daemon's local socket, \<open>rust/crates/roboat-daemon/src/server.rs\<close>, and the start-up of
  \<open>rust/bin/roboatd/src/main.rs\<close>: the handler of each message an agent process sends, the loop that
  reads them, and the tasks that forward received data and announcements of streams to the agent.
  JSON and base64 are parameters.
\<close>

section \<open>Clients\<close>

record ipc_codec =
  ic_from_slice :: "bytes \<Rightarrow> string + agent_msg"
  ic_to_vec :: "daemon_msg \<Rightarrow> string + bytes"
  ic_b64_decode :: "string \<Rightarrow> string + bytes"
  ic_b64_encode :: "bytes \<Rightarrow> string"

text \<open>A task that forwards one stream's data, and one that announces incoming streams from a position
  in the broadcast on.\<close>

record forwarder =
  fw_stream_id :: u32
  fw_recv_rx :: nat
  fw_done :: bool

record ipc_client =
  cl_rd :: reader
  cl_wr :: writer
  cl_forwarders :: "forwarder list"
  cl_listeners :: "nat list"
  cl_heartbeats :: "(registrar \<times> string) list"

definition ipc_client_new :: "reader \<Rightarrow> writer \<Rightarrow> ipc_client" where
  "ipc_client_new r w =
     \<lparr>cl_rd = r, cl_wr = w, cl_forwarders = [], cl_listeners = [], cl_heartbeats = []\<rparr>"

definition reply :: "ipc_codec \<Rightarrow> daemon_msg \<Rightarrow> ipc_client \<Rightarrow> (ipc_error + unit) \<times> ipc_client" where
  "reply ic msg c = (case write_daemon_msg (ic_to_vec ic) msg (cl_wr c) of (res, w) \<Rightarrow> (res, c\<lparr>cl_wr := w\<rparr>))"

definition forward_recv_to_ipc :: "u32 \<Rightarrow> nat \<Rightarrow> ipc_client \<Rightarrow> ipc_client" where
  "forward_recv_to_ipc sid ch c =
     c\<lparr>cl_forwarders := cl_forwarders c @ [\<lparr>fw_stream_id = sid, fw_recv_rx = ch, fw_done = False\<rparr>]\<rparr>"

section \<open>The message handlers\<close>

text \<open>A handler ends the connection with an error, goes on, waits for room in a stream's queue, or
  panics with the resolver.\<close>

datatype handled = Handled "ipc_error + unit" | HandlerWaits | HandlerPanics

record host_env =
  he_net :: net_env
  he_registry :: registry_env
  he_hex :: hex_codec
  he_bind :: "io_error + unit"
  he_local_ip :: "string option"

definition handle_listen ::
  "ipc_codec \<Rightarrow> host_env \<Rightarrow> string \<Rightarrow> string option \<Rightarrow> string option \<Rightarrow> ipc_client \<times> daemon \<Rightarrow>
   handled \<times> ipc_client \<times> daemon" where
  "handle_listen ic he agent_id token endpt s =
     (case s of (c, dm) \<Rightarrow>
      case start_listener (he_bind he) dm of
        (Inl e, dm1) \<Rightarrow>
          (case reply ic (Error ''listen_failed'' (daemon_error_text e) None) c of
             (res, c1) \<Rightarrow> (Handled res, c1, dm1))
      | (Inr _, dm1) \<Rightarrow>
          let hb = (case token of
                      None \<Rightarrow> None
                    | Some t \<Rightarrow> start_registry_heartbeat (he_hex he) (he_local_ip he) agent_id t endpt dm1);
              c1 = c\<lparr>cl_heartbeats := cl_heartbeats c @ (case hb of None \<Rightarrow> [] | Some h \<Rightarrow> [h]),
                     cl_listeners := cl_listeners c @ [length (dm_incoming dm1)]\<rparr> in
          case reply ic (Listening agent_id) c1 of (res, c2) \<Rightarrow> (Handled res, c2, dm1))"

definition handle_dial ::
  "ipc_codec \<Rightarrow> host_env \<Rightarrow> string \<Rightarrow> stream_class \<Rightarrow> string option \<Rightarrow> ipc_client \<times> daemon \<Rightarrow>
   handled \<times> ipc_client \<times> daemon" where
  "handle_dial ic he target cls req s =
     (case s of (c, dm) \<Rightarrow>
      case dial (he_net he) (he_registry he) target cls dm of
        (None, dm1) \<Rightarrow> (HandlerPanics, c, dm1)
      | (Some (Inr (sid, recv)), dm1) \<Rightarrow>
          (case reply ic (Connected sid target req) (forward_recv_to_ipc sid recv c) of
             (res, c1) \<Rightarrow> (Handled res, c1, dm1))
      | (Some (Inl e), dm1) \<Rightarrow>
          (case reply ic (Error ''dial_failed'' (daemon_error_text e) req) c of
             (res, c1) \<Rightarrow> (Handled res, c1, dm1)))"

definition handle_send ::
  "ipc_codec \<Rightarrow> u32 \<Rightarrow> string \<Rightarrow> ipc_client \<times> daemon \<Rightarrow> handled \<times> ipc_client \<times> daemon" where
  "handle_send ic sid data s =
     (case s of (c, dm) \<Rightarrow>
      case ic_b64_decode ic data of
        Inl e \<Rightarrow>
          (case reply ic (Error ''invalid_data'' (''base64 decode failed: '' @ e) None) c of
             (res, c1) \<Rightarrow> (Handled res, c1, dm))
      | Inr bs \<Rightarrow>
          (case daemon_send sid bs dm of
             (None, dm1) \<Rightarrow> (HandlerWaits, c, dm1)
           | (Some (Inr _), dm1) \<Rightarrow> (Handled (Inr ()), c, dm1)
           | (Some (Inl e), dm1) \<Rightarrow>
               (case reply ic (Error ''send_failed'' (daemon_error_text e) None) c of
                  (res, c1) \<Rightarrow> (Handled res, c1, dm1))))"

definition handle_agent_msg ::
  "ipc_codec \<Rightarrow> host_env \<Rightarrow> agent_msg \<Rightarrow> ipc_client \<times> daemon \<Rightarrow> handled \<times> ipc_client \<times> daemon" where
  "handle_agent_msg ic he msg s =
     (case msg of
        Ping \<Rightarrow> (case reply ic Pong (fst s) of (res, c1) \<Rightarrow> (Handled res, c1, snd s))
      | Listen agent_id token endpt \<Rightarrow> handle_listen ic he agent_id token endpt s
      | Unlisten \<Rightarrow> (Handled (Inr ()), s)
      | Dial target cls req \<Rightarrow> handle_dial ic he target cls req s
      | Send sid data \<Rightarrow> handle_send ic sid data s
      | Close sid \<Rightarrow> (Handled (Inr ()), fst s, daemon_close_stream sid (snd s)))"

section \<open>The read loop\<close>

lemma ipc_read_consumes:
  assumes "ipc_read fs r = (Inr m, r')"
  shows "length (rbytes r') < length (rbytes r)"
proof -
  obtain len r1 where l: "read_u32 r = (Inr len, r1)"
    using assms by (auto simp: ipc_read_def io_bind_eq_Inr io_map_err_eq_Inr)
  then have one: "length (rbytes r) = 4 + length (rbytes r1)" by (auto dest!: read_u32_InrD)
  have "io_map_err eof_is_closed read_u32 r = (Inr len, r1)" using l by (simp add: io_map_err_eq_Inr)
  then obtain buf where "read_exact (unat len) r1 = (Inr buf, r')"
    using assms
    by (auto simp: ipc_read_def io_bind_def io_fail_def io_return_def io_map_err_def
        split: if_splits sum.splits prod.splits)
  then have "length (rbytes r') \<le> length (rbytes r1)" by (auto dest!: read_exact_InrD)
  with one show ?thesis by simp
qed

lemma reply_rd [simp]: "cl_rd (snd (reply ic m c)) = cl_rd c"
  by (simp add: reply_def split: prod.split)

lemma reply_rd_eq: "reply ic m c = (res, c1) \<Longrightarrow> cl_rd c1 = cl_rd c"
  using reply_rd[of ic m c] by simp

lemma handle_agent_msg_rd:
  assumes "handle_agent_msg ic he msg s = (h, c1, dm1)"
  shows "cl_rd c1 = cl_rd (fst s)"
  using assms
  by (cases s; cases msg)
    (auto simp: handle_agent_msg_def handle_listen_def handle_dial_def handle_send_def
      forward_recv_to_ipc_def Let_def dest!: reply_rd_eq
      split: prod.splits sum.splits option.splits)

lemma handle_client_progress:
  assumes "(Inr msg, r) = read_agent_msg fs (cl_rd c)"
    and "(h, c1, dm1) = handle_agent_msg ic he msg (c\<lparr>cl_rd := r\<rparr>, dm)"
  shows "length (rbytes (cl_rd c1)) < length (rbytes (cl_rd c))"
  using handle_agent_msg_rd[OF assms(2)[symmetric]] ipc_read_consumes[of fs "cl_rd c" msg r] assms(1)
  by (simp add: read_agent_msg_def)

text \<open>How a connection's handler stands when it has handled what it could: ended by an error, waiting
  for room in a queue, or dead with a panic.\<close>

datatype client_end = ClientEnds ipc_error | ClientWaits | ClientPanics

function handle_client ::
  "ipc_codec \<Rightarrow> host_env \<Rightarrow> ipc_client \<Rightarrow> daemon \<Rightarrow> client_end \<times> ipc_client \<times> daemon" where
  "handle_client ic he c dm =
     (case read_agent_msg (ic_from_slice ic) (cl_rd c) of
        (Inl e, r) \<Rightarrow> (ClientEnds e, c\<lparr>cl_rd := r\<rparr>, dm)
      | (Inr msg, r) \<Rightarrow>
          (case handle_agent_msg ic he msg (c\<lparr>cl_rd := r\<rparr>, dm) of
             (Handled (Inr _), c1, dm1) \<Rightarrow> handle_client ic he c1 dm1
           | (Handled (Inl e), c1, dm1) \<Rightarrow> (ClientEnds e, c1, dm1)
           | (HandlerWaits, c1, dm1) \<Rightarrow> (ClientWaits, c1, dm1)
           | (HandlerPanics, c1, dm1) \<Rightarrow> (ClientPanics, c1, dm1)))"
  by pat_completeness auto
termination
  by (relation "measure (\<lambda>(ic, he, c, dm). length (rbytes (cl_rd c)))") (auto dest: handle_client_progress)

declare handle_client.simps [simp del]

section \<open>The tasks of a client\<close>

text \<open>One turn of the forwarding task: it waits, forwards a message, or reports the end.\<close>

definition forwarder_step :: "ipc_codec \<Rightarrow> nat \<Rightarrow> ipc_client \<times> daemon \<Rightarrow> ipc_client \<times> daemon" where
  "forwarder_step ic k s =
     (case s of (c, dm) \<Rightarrow>
      let f = cl_forwarders c ! k;
          end_task = (\<lambda>c. c\<lparr>cl_forwarders := (cl_forwarders c)[k := f\<lparr>fw_done := True\<rparr>]\<rparr>);
          drop_rx = (\<lambda>dm. dm\<lparr>dm_chans := chan_drop_rx (Some (fw_recv_rx f)) (dm_chans dm)\<rparr>) in
      if length (cl_forwarders c) \<le> k \<or> fw_done f then (c, dm)
      else
        case mpsc_recv (cs_chan (dm_chans dm) (fw_recv_rx f)) of
          WaitsForItem \<Rightarrow> (c, dm)
        | Received data q \<Rightarrow>
            (let dm1 = set_chan (fw_recv_rx f) q dm in
             case reply ic (Recv (fw_stream_id f) (ic_b64_encode ic data)) c of
               (Inl _, c1) \<Rightarrow> (end_task c1, drop_rx dm1)
             | (Inr _, c1) \<Rightarrow> (c1, dm1))
        | NoSender \<Rightarrow>
            (case reply ic (Closed (fw_stream_id f) (Some ''remote closed'')) c of
               (_, c1) \<Rightarrow> (end_task c1, drop_rx dm)))"

text \<open>One turn of the announcing task. The broadcast keeps its last 64 announcements: a task further
  behind skips to the oldest kept.\<close>

definition listener_step :: "ipc_codec \<Rightarrow> nat \<Rightarrow> ipc_client \<times> daemon \<Rightarrow> ipc_client \<times> daemon" where
  "listener_step ic k s =
     (case s of (c, dm) \<Rightarrow>
      let pos = cl_listeners c ! k; n = length (dm_incoming dm);
          move = (\<lambda>p c. c\<lparr>cl_listeners := (cl_listeners c)[k := p]\<rparr>) in
      if length (cl_listeners c) \<le> k \<or> n \<le> pos then (c, dm)
      else if 64 < n - pos then (move (n - 64) c, dm)
      else
        let info = dm_incoming dm ! pos in
        case take_recv_rx (isi_stream_id info) dm of (recv, dm1) \<Rightarrow>
          let c1 = (case recv of None \<Rightarrow> c | Some ch \<Rightarrow> forward_recv_to_ipc (isi_stream_id info) ch c) in
          (move (pos + 1)
             (snd (reply ic (Incoming (isi_stream_id info) (isi_from_agent_id info) (isi_class info)) c1)), dm1))"

section \<open>The server\<close>

text \<open>Accepting clients until an accept fails: the clients served and the error that ends the server.\<close>

fun ipc_accept :: "(io_error + 'c) list \<Rightarrow> 'c list \<times> io_error option" where
  "ipc_accept [] = ([], None)"
| "ipc_accept (Inl e # rest) = ([], Some e)"
| "ipc_accept (Inr c # rest) = (case ipc_accept rest of (cs, e) \<Rightarrow> (c # cs, e))"

definition ipc_server_run ::
  "(io_error + unit) option \<Rightarrow> io_error + unit \<Rightarrow> (io_error + 'c) list \<Rightarrow> 'c list \<times> io_error option" where
  "ipc_server_run create_parent bind_result accepts =
     (case create_parent of
        Some (Inl e) \<Rightarrow> ([], Some e)
      | _ \<Rightarrow> (case bind_result of Inl e \<Rightarrow> ([], Some e) | Inr _ \<Rightarrow> ipc_accept accepts))"

section \<open>Start-up\<close>

text \<open>The daemon's configuration from its environment variables.\<close>

definition truthy :: "(string \<Rightarrow> string) \<Rightarrow> string list \<Rightarrow> string \<Rightarrow> bool" where
  "truthy ulow words v \<longleftrightarrow> to_lowercase ulow v \<in> set words"

definition roboatd_config :: "(string \<Rightarrow> string) \<Rightarrow> (string \<Rightarrow> string option) \<Rightarrow> daemon_config" where
  "roboatd_config ulow var =
     \<lparr>dc_listen_port =
        (case Option.bind (var ''ROBOAT_LISTEN_PORT'') (parse_uint (2 ^ 16)) of
           Some n \<Rightarrow> word_of_nat n | None \<Rightarrow> 11411),
      dc_socket_path =
        (case var ''ROBOAT_SOCKET'' of Some p \<Rightarrow> p | None \<Rightarrow> ''/var/run/roboat/roboatd.sock''),
      dc_insecure_allow_any_client =
        (case var ''ROBOAT_INSECURE'' of Some v \<Rightarrow> truthy ulow [''1'', ''true'', ''yes''] v | None \<Rightarrow> True),
      dc_auth_seed = replicate 32 0,
      dc_registry_url = var ''ROBOAT_REGISTRY_URL'',
      dc_use_mux =
        (case var ''ROBOAT_USE_MUX'' of Some v \<Rightarrow> \<not> truthy ulow [''0'', ''false'', ''no''] v | None \<Rightarrow> True),
      dc_heartbeat_interval_secs =
        (case Option.bind (var ''ROBOAT_HEARTBEAT_INTERVAL_SECS'') (parse_uint (2 ^ 64)) of
           Some n \<Rightarrow> word_of_nat n | None \<Rightarrow> 30)\<rparr>"

text \<open>The program: the daemon it builds, and the exit status once the socket server fails.\<close>

definition roboatd_main ::
  "(string \<Rightarrow> string) \<Rightarrow> (string \<Rightarrow> string option) \<Rightarrow> (io_error + unit) option \<Rightarrow> io_error + unit \<Rightarrow>
   (io_error + 'c) list \<Rightarrow> daemon \<times> 'c list \<times> nat option" where
  "roboatd_main ulow var create_parent bind_result accepts =
     (case ipc_server_run create_parent bind_result accepts of
        (clients, fatal) \<Rightarrow>
          (daemon_new (roboatd_config ulow var), clients, map_option (\<lambda>_. 1) fatal))"

end
