(* ===== verification/Bridges.thy ===== *)
theory Bridges
  imports Manager_Laws
begin

text \<open>
  The tasks that carry a stream's data: what is queued on a stream reaches the wire in order and
  closing follows it, over a shared connection and over one of the stream's own; both ends of a
  direct stream together; and what a cancelled read costs.
\<close>

section \<open>Streams on a shared connection\<close>

definition conn_queue :: "stream_class \<Rightarrow> mux_conn \<Rightarrow> frame list" where
  "conn_queue cls m = (if cls = Bulk then mx_bulk m else mx_ctrl m)"

definition close_frame :: "u32 \<Rightarrow> frame" where
  "close_frame sid = (FtStreamClose, u32_to_be_bytes sid)"

definition queue_push :: "stream_class \<Rightarrow> frame \<Rightarrow> mux_conn \<Rightarrow> mux_conn" where
  "queue_push cls i m = (if cls = Bulk then m\<lparr>mx_bulk := mx_bulk m @ [i]\<rparr> else m\<lparr>mx_ctrl := mx_ctrl m @ [i]\<rparr>)"

lemma queue_push_simps [simp]:
  "conn_queue cls (queue_push cls i m) = conn_queue cls m @ [i]"
  "mx_wpc (queue_push cls i m) = mx_wpc m"
  by (simp_all add: conn_queue_def queue_push_def)

lemma mux_enqueue_push: "mx_wpc m \<noteq> WDone \<Longrightarrow> mux_enqueue cls i m = (Inr (), queue_push cls i m)"
  by (cases cls) (simp_all add: mux_enqueue_def queue_push_def)

text \<open>A bridge that has messages moves one per turn.\<close>

lemma mux_bridge_moves:
  assumes "k < length (dm_mux_bridges dm)" and "b = dm_mux_bridges dm ! k" and "\<not> mb_done b"
    and "items (cs_chan (dm_chans dm) (mb_data_rx b)) = d # ds"
    and "mx_wpc (dm_conns dm ! mb_conn b) \<noteq> WDone"
  shows "dm_mux_bridges (mux_bridge_step k dm) = dm_mux_bridges dm"
    and "dm_conns (mux_bridge_step k dm) = (dm_conns dm)[mb_conn b :=
      queue_push (mb_class b) (data_frame (mb_stream_id b) d) (dm_conns dm ! mb_conn b)]"
    and "cs_chan (dm_chans (mux_bridge_step k dm)) (mb_data_rx b)
      = (cs_chan (dm_chans dm) (mb_data_rx b))\<lparr>items := ds\<rparr>"
  using assms
  by (simp_all add: mux_bridge_step_def mpsc_recv_def Let_def mux_send_def mux_enqueue_push set_chan_def
      data_frame_def)



section \<open>Streams with a connection of their own\<close>

definition relay_frame :: "bytes \<Rightarrow> frame" where
  "relay_frame d = (FtRelayData, d)"

lemma read_waits_at_once: "read_waits_after 0 r"
  using read_frame_eof by (simp add: read_waits_after_def reader_of_def)

lemma items_drop [simp]:
  "items (cs_chan (chan_drop_tx o1 st) i) = items (cs_chan st i)"
  "items (cs_chan (chan_drop_rx o2 st) i) = items (cs_chan st i)"
  "items (cs_chan (drop_entry e st) i) = items (cs_chan st i)"
  by (simp_all add: chan_drop_tx_def chan_drop_rx_def drop_entry_def split: option.split)

text \<open>One turn of a bridge that has something to send.\<close>

lemma direct_bridge_sends:
  assumes "k < length (dm_direct_bridges dm)" and "b = dm_direct_bridges dm ! k" and "\<not> db_done b"
    and "db_pending b = None" and "open_writer (db_wr b)"
    and "items (cs_chan (dm_chans dm) (db_data_rx b)) = d # ds"
  shows "direct_bridge_step k (BrData 0) dm =
    set_bridge k (b\<lparr>db_wr := (db_wr b)\<lparr>wbytes := wbytes (db_wr b) @ frame_bytes (relay_frame d)\<rparr>\<rparr>)
      (set_chan (db_data_rx b) ((cs_chan (dm_chans dm) (db_data_rx b))\<lparr>items := ds\<rparr>) dm)"
  using assms
  by (simp add: direct_bridge_step_def direct_bridge_data_def read_waits_at_once mpsc_recv_def
      write_frame_open relay_frame_def Let_def)

text \<open>The messages accepted on a stream reach the wire in order; the closing frame follows them.\<close>

lemma direct_bridge_drains:
  assumes "k < length (dm_direct_bridges dm)" and "b = dm_direct_bridges dm ! k" and "\<not> db_done b"
    and "db_pending b = None" and "open_writer (db_wr b)"
    and "items (cs_chan (dm_chans dm) (db_data_rx b)) = ds"
    and "\<not> tx_open (cs_chan (dm_chans dm) (db_data_rx b))"
    and "dm' = (direct_bridge_step k (BrData 0) ^^ Suc (length ds)) dm"
  shows "wbytes (db_wr (dm_direct_bridges dm' ! k)) = wbytes (db_wr b)
      @ concat (map (\<lambda>d. frame_bytes (relay_frame d)) ds) @ frame_bytes (FtRelayClose, [])
    \<and> db_done (dm_direct_bridges dm' ! k) \<and> dm_streams dm' (db_stream_id b) = None"
  using assms
proof (induction ds arbitrary: dm b)
  case Nil
  then show ?case
    by (simp add: direct_bridge_step_def direct_bridge_data_def read_waits_at_once mpsc_recv_def
        write_frame_open direct_bridge_end_def streams_remove_def Let_def)
next
  case (Cons d ds)
  let ?b = "b\<lparr>db_wr := (db_wr b)\<lparr>wbytes := wbytes (db_wr b) @ frame_bytes (relay_frame d)\<rparr>\<rparr>"
  let ?dm = "set_bridge k ?b (set_chan (db_data_rx b) ((cs_chan (dm_chans dm) (db_data_rx b))\<lparr>items := ds\<rparr>) dm)"
  have "direct_bridge_step k (BrData 0) dm = ?dm" by (rule direct_bridge_sends[OF Cons.prems(1-6)])
  then have "dm' = (direct_bridge_step k (BrData 0) ^^ Suc (length ds)) ?dm"
    unfolding Cons.prems(8) by (simp add: funpow_swap1)
  from Cons.IH[of ?dm ?b, OF _ _ _ _ _ _ _ this] show ?case
    using Cons.prems by (simp add: set_bridge_def set_chan_def)
qed

text \<open>The other end hands them over in order and ends with the closing frame.\<close>

lemma direct_bridge_receives:
  assumes "k < length (dm_direct_bridges dm)" and "b = dm_direct_bridges dm ! k" and "\<not> db_done b"
    and "db_pending b = None" and "list_all (\<lambda>d. frame_okay (relay_frame d)) ds"
    and "rbytes (db_rd b) = concat (map (\<lambda>d. frame_bytes (relay_frame d)) ds) @ frame_bytes (FtRelayClose, []) @ rest"
    and "rx_open (cs_chan (dm_chans dm) (db_recv_tx b))"
    and "length (items (cs_chan (dm_chans dm) (db_recv_tx b))) + length ds \<le> cap (cs_chan (dm_chans dm) (db_recv_tx b))"
    and "dm' = run_steps (\<lambda>dm e. direct_bridge_step k e dm) dm (concat (map (\<lambda>_. [BrFrame, BrHandOver]) ds) @ [BrFrame])"
  shows "items (cs_chan (dm_chans dm') (db_recv_tx b)) = items (cs_chan (dm_chans dm) (db_recv_tx b)) @ ds
    \<and> \<not> tx_open (cs_chan (dm_chans dm') (db_recv_tx b))
    \<and> db_done (dm_direct_bridges dm' ! k) \<and> dm_streams dm' (db_stream_id b) = None"
  using assms
proof (induction ds arbitrary: dm b)
  case Nil
  have "db_rd b = (db_rd b)\<lparr>rbytes := frame_bytes (FtRelayClose, []) @ rest\<rparr>" using Nil.prems(6) by simp
  moreover have "frame_okay (FtRelayClose, [])" by (simp add: frame_okay_def)
  ultimately have "read_frame (db_rd b) = (Inr (FtRelayClose, []), (db_rd b)\<lparr>rbytes := rest\<rparr>)"
    using read_frame_frame_bytes by metis
  then show ?case
    using Nil.prems
    by (simp add: direct_bridge_step_def direct_bridge_frame_def direct_bridge_end_def streams_remove_def
        Let_def chan_drop_tx_def)
next
  case (Cons d ds)
  let ?rest = "concat (map (\<lambda>d. frame_bytes (relay_frame d)) ds) @ frame_bytes (FtRelayClose, []) @ rest"
  let ?q = "cs_chan (dm_chans dm) (db_recv_tx b)"
  let ?b = "b\<lparr>db_rd := (db_rd b)\<lparr>rbytes := ?rest\<rparr>\<rparr>"
  let ?dm = "set_bridge k ?b (set_chan (db_recv_tx b) (?q\<lparr>items := items ?q @ [d]\<rparr>) dm)"
  have "db_rd b = (db_rd b)\<lparr>rbytes := frame_bytes (relay_frame d) @ ?rest\<rparr>" using Cons.prems(6) by simp
  moreover have "frame_okay (relay_frame d)" using Cons.prems(5) by simp
  ultimately have "read_frame (db_rd b) = (Inr (FtRelayData, d), (db_rd b)\<lparr>rbytes := ?rest\<rparr>)"
    using read_frame_frame_bytes unfolding relay_frame_def by metis
  then have "direct_bridge_step k BrFrame dm = set_bridge k (?b\<lparr>db_pending := Some d\<rparr>) dm"
    using Cons.prems(1-4) by (simp add: direct_bridge_step_def direct_bridge_frame_def Let_def)
  moreover have "direct_bridge_step k BrHandOver (set_bridge k (?b\<lparr>db_pending := Some d\<rparr>) dm)
      = set_bridge k (?b\<lparr>db_pending := None\<rparr>) (set_chan (db_recv_tx b) (?q\<lparr>items := items ?q @ [d]\<rparr>) dm)"
    using Cons.prems(1-3,7,8)
    by (simp add: direct_bridge_step_def set_bridge_def direct_bridge_hand_over_def mpsc_send_def
        set_chan_def Let_def)
  moreover have "?b\<lparr>db_pending := None\<rparr> = ?b" using Cons.prems(4) by (cases b) simp
  ultimately have "dm' = run_steps (\<lambda>dm e. direct_bridge_step k e dm) ?dm
      (concat (map (\<lambda>_. [BrFrame, BrHandOver]) ds) @ [BrFrame])"
    unfolding Cons.prems(9) by simp
  from Cons.IH[of ?dm ?b, OF _ _ _ _ _ _ _ _ this] show ?case
    using Cons.prems(1-8) by (simp add: set_bridge_def set_chan_def)
qed

section \<open>A direct stream from end to end\<close>

text \<open>The dialling daemon: after the handshake and the peer's acknowledgement it has a stream whose
  bridge writes behind the opening frame.\<close>

definition relay_open_payload :: "u32 \<Rightarrow> stream_class \<Rightarrow> bytes" where
  "relay_open_payload sid cls = u32_to_be_bytes sid @ [class_as_byte cls]"

lemma dial_direct_ok:
  assumes "length nonce = 32" and "ne_elapsed env = (\<lambda>_. False)"
    and "ne_connect env addr = Inr (endpoint (nonce @ [1] @ frame_bytes (FtRelayOpenAck, p)))"
    and "frame_okay (FtRelayOpenAck, p)"
    and "sid = dm_next_stream_id dm" and "i = cs_next (dm_chans dm)" and "seed = dc_auth_seed (dm_config dm)"
    and "dial_direct env addr cls dm = (res, dm')"
  shows "res = Inr (sid, i + 1)
    \<and> dm_streams dm' sid = Some \<lparr>se_data_tx = i, se_recv_rx = None, se_class = cls, se_mux_conn = None\<rparr>
    \<and> dm_direct_bridges dm' = dm_direct_bridges dm @ [\<lparr>db_stream_id = sid, db_rd = reader_of [],
        db_wr = fresh_writer\<lparr>wbytes := pub_of (ne_ed env) seed @ sign_of (ne_ed env) seed nonce
          @ frame_bytes (FtRelayOpen, relay_open_payload sid cls)\<rparr>,
        db_data_rx = i, db_recv_tx = i + 1, db_pending = None, db_done = False\<rparr>]
    \<and> (dm_streams dm sid = None \<longrightarrow> cs_chan (dm_chans dm') i = mpsc_new 64)"
proof -
  have "read_frame (reader_of (frame_bytes (FtRelayOpenAck, p))) = (Inr (FtRelayOpenAck, p), reader_of [])"
    using read_frame_frame_bytes[OF assms(4), where r = "reader_of []" and bs = "[]"] by simp
  moreover have "client_authenticate (ne_ed env) (\<lambda>_. False) seed (endpoint (nonce @ [1] @ frame_bytes (FtRelayOpenAck, p)))
    = (Inr (), \<lparr>rd = reader_of (frame_bytes (FtRelayOpenAck, p)),
        wr = fresh_writer\<lparr>wbytes := pub_of (ne_ed env) seed @ sign_of (ne_ed env) seed nonce\<rparr>\<rparr>)"
    using client_on_nonce[OF assms(1), of "ne_ed env" seed "[1] @ frame_bytes (FtRelayOpenAck, p)"] by simp
  ultimately show ?thesis
    using assms
    by (auto simp: dial_direct_def write_frame_open dm_new_chan_def chan_new_def streams_insert_def
        relay_open_payload_def drop_entry_def Let_def)
qed

text \<open>The accepting daemon, on the bytes such a dialler sends.\<close>

lemma inbound_relay_ok:
  assumes "length pk = 32" and "length sig = 64" and "key_ok (ne_ed env) pk" and "verify_ok (ne_ed env) pk nonce sig"
    and "ne_elapsed env = (\<lambda>_. False)" and "p = relay_open_payload sid cls" and "i = cs_next (dm_chans dm)"
    and "handle_inbound env nonce (endpoint (pk @ sig @ frame_bytes (FtRelayOpen, p) @ bs)) dm = (res, dm')"
  shows "res = Inr ()
    \<and> dm_incoming dm' = dm_incoming dm @ [\<lparr>isi_stream_id = sid, isi_from_agent_id = take 16 (hex_encode pk), isi_class = cls\<rparr>]
    \<and> dm_direct_bridges dm' = dm_direct_bridges dm @ [\<lparr>db_stream_id = sid, db_rd = reader_of bs,
        db_wr = fresh_writer\<lparr>wbytes := nonce @ [1] @ frame_bytes (FtRelayOpenAck, p)\<rparr>,
        db_data_rx = i, db_recv_tx = i + 1, db_pending = None, db_done = False\<rparr>]
    \<and> dm_streams dm' = (dm_streams dm)(sid \<mapsto> \<lparr>se_data_tx = i, se_recv_rx = Some (i + 1), se_class = cls, se_mux_conn = None\<rparr>)
    \<and> dm_chans dm' = drop_entry (dm_streams dm sid) (snd (chan_new 64 (snd (chan_new 64 (dm_chans dm)))))"
proof -
  have "frame_okay (FtRelayOpen, p)"
    using assms(6) by (simp add: frame_okay_def relay_open_payload_def max_frame_def)
  from read_frame_frame_bytes[OF this, where r = "reader_of []" and bs = bs]
  have rd: "read_frame (reader_of (frame_bytes (FtRelayOpen, p) @ bs)) = (Inr (FtRelayOpen, p), reader_of bs)" by simp
  have p: "\<not> length p < 5" "u32_from_be_bytes (take 4 p) = sid" "class_from_byte (p ! 4) = cls"
    using assms(6) by (simp_all add: relay_open_payload_def nth_append)
  show ?thesis
    using server_on_answer[OF assms(1,2), of "ne_ed env" nonce "server_auth_new (ne_ulow env) []"] assms(3,4,5,7,8) rd p
    by (auto simp: handle_inbound_def endpoint_def handle_inbound_relay_def write_frame_open dm_new_chan_def
        chan_new_def streams_insert_def Let_def)
qed

text \<open>What an agent sends on a stream queues up behind what is waiting.\<close>

definition sends :: "u32 \<Rightarrow> bytes list \<Rightarrow> daemon \<Rightarrow> daemon" where
  "sends sid ds dm = fold (\<lambda>d dm. snd (daemon_send sid d dm)) ds dm"

lemma sends_queue:
  assumes "dm_streams dm sid = Some en" and "i = se_data_tx en" and "rx_open (cs_chan (dm_chans dm) i)"
    and "length (items (cs_chan (dm_chans dm) i)) + length ds \<le> cap (cs_chan (dm_chans dm) i)"
  shows "dm_streams (sends sid ds dm) = dm_streams dm
    \<and> dm_direct_bridges (sends sid ds dm) = dm_direct_bridges dm
    \<and> items (cs_chan (dm_chans (sends sid ds dm)) i) = items (cs_chan (dm_chans dm) i) @ ds"
  using assms
proof (induction ds arbitrary: dm)
  case Nil
  then show ?case by (simp add: sends_def)
next
  case (Cons d ds)
  let ?q = "(cs_chan (dm_chans dm) i)\<lparr>items := items (cs_chan (dm_chans dm) i) @ [d]\<rparr>"
  let ?dm = "dm\<lparr>dm_chans := (dm_chans dm)\<lparr>cs_chan := (cs_chan (dm_chans dm))(i := ?q)\<rparr>\<rparr>"
  have "snd (daemon_send sid d dm) = ?dm" using Cons.prems by (simp add: daemon_send_def mpsc_send_def)
  then have "sends sid (d # ds) dm = sends sid ds ?dm" by (simp add: sends_def)
  then show ?case using Cons.IH[of ?dm] Cons.prems by simp
qed

lemma close_keeps_queue:
  assumes "dm_streams dm sid = Some en"
  shows "items (cs_chan (dm_chans (daemon_close_stream sid dm)) (se_data_tx en))
      = items (cs_chan (dm_chans dm) (se_data_tx en))
    \<and> \<not> tx_open (cs_chan (dm_chans (daemon_close_stream sid dm)) (se_data_tx en))
    \<and> dm_direct_bridges (daemon_close_stream sid dm) = dm_direct_bridges dm"
  using assms
  by (simp add: daemon_close_stream_def streams_remove_def)
    (simp add: drop_entry_def chan_drop_tx_def chan_drop_rx_def split: option.split)



section \<open>A cancelled read\<close>

text \<open>Sending can destroy what is being received: if one byte of a data frame has arrived when
  the bridge turns to a message of its own agent, that byte is lost with the abandoned read, the
  rest of the frame is no frame, and the bridge ends: the frame is not delivered, and the stream
  leaves the table.\<close>

lemma cancelled_read_breaks_stream:
  assumes "k < length (dm_direct_bridges dm)" and "b = dm_direct_bridges dm ! k" and "\<not> db_done b"
    and "db_pending b = None" and "open_writer (db_wr b)"
    and "items (cs_chan (dm_chans dm) (db_data_rx b)) = d # ds" and "db_data_rx b \<noteq> db_recv_tx b"
    and "rbytes (db_rd b) = frame_bytes (relay_frame e)" and "length e < 2 ^ 24"
    and "dm' = direct_bridge_step k BrFrame (direct_bridge_step k (BrData 1) dm)"
  shows "db_done (dm_direct_bridges dm' ! k) \<and> dm_streams dm' (db_stream_id b) = None
    \<and> items (cs_chan (dm_chans dm') (db_recv_tx b)) = items (cs_chan (dm_chans dm) (db_recv_tx b))"
proof -
  let ?rest = "u32_to_be_bytes (word_of_nat (length e)) @ e"
  let ?b = "b\<lparr>db_rd := (db_rd b)\<lparr>rbytes := ?rest\<rparr>,
      db_wr := (db_wr b)\<lparr>wbytes := wbytes (db_wr b) @ frame_bytes (relay_frame d)\<rparr>\<rparr>"
  have bytes: "rbytes (db_rd b) = 0x32 # ?rest" using assms(8) by (simp add: frame_bytes_def relay_frame_def)
  then have "read_waits_after 1 (db_rd b)"
    by (simp add: read_waits_after_def read_frame_def read_u8_def read_u32_def read_exact_def io_bind_def
        io_map_err_def io_return_def frame_type_try_from_def rend_error_def protocol_error_from_def)
  then have one: "direct_bridge_step k (BrData 1) dm = set_bridge k ?b
      (set_chan (db_data_rx b) ((cs_chan (dm_chans dm) (db_data_rx b))\<lparr>items := ds\<rparr>) dm)"
    using assms(1-6) bytes
    by (simp add: direct_bridge_step_def direct_bridge_data_def mpsc_recv_def write_frame_open
        relay_frame_def Let_def)
  have "unat (word_of_nat (length e) :: u32) div 256 ^ 3 = 0"
    using assms(9) by (simp add: unat_u32_of_nat)
  then have "u32_to_be_bytes (word_of_nat (length e)) = 0 # be_bytes 3 (unat (word_of_nat (length e) :: u32))"
    using be_bytes.simps(2)[of 3 "unat (word_of_nat (length e) :: u32)"] by (simp add: u32_to_be_bytes_def)
  then have "?rest = 0 # be_bytes 3 (unat (word_of_nat (length e) :: u32)) @ e" by simp
  then have "\<exists>er r. read_frame (db_rd ?b) = (Inl er, r)"
    by (simp add: read_frame_def read_u8_def read_exact_def io_bind_def io_map_err_def io_return_def io_fail_def
        frame_type_try_from_def)
  then obtain er r where "read_frame (db_rd ?b) = (Inl er, r)" by blast
  then show ?thesis
    unfolding assms(10) one
    using assms(1-4,7)
    by (simp add: direct_bridge_step_def set_bridge_def set_chan_def direct_bridge_frame_def
        direct_bridge_end_def streams_remove_def Let_def)
qed

lemma cancelled_read_breaks_stream_example:
  "let b = \<lparr>db_stream_id = 1, db_rd = reader_of (frame_bytes (relay_frame [5])), db_wr = fresh_writer,
         db_data_rx = 0, db_recv_tx = 1, db_pending = None, db_done = False\<rparr>;
       dm = (daemon_new daemon_config_default)\<lparr>dm_direct_bridges := [b],
         dm_chans := \<lparr>cs_next = 2, cs_chan = (\<lambda>_. mpsc_new 64)(0 := (mpsc_new 64)\<lparr>items := [[9]]\<rparr>)\<rparr>\<rparr>;
       dm' = direct_bridge_step 0 BrFrame (direct_bridge_step 0 (BrData 1) dm)
   in db_done (dm_direct_bridges dm' ! 0) \<and> items (cs_chan (dm_chans dm') 1) = []"
proof -
  let ?b = "\<lparr>db_stream_id = 1, db_rd = reader_of (frame_bytes (relay_frame [5])), db_wr = fresh_writer,
         db_data_rx = 0, db_recv_tx = 1, db_pending = None, db_done = False\<rparr>"
  let ?dm = "(daemon_new daemon_config_default)\<lparr>dm_direct_bridges := [?b],
         dm_chans := \<lparr>cs_next = 2, cs_chan = (\<lambda>_. mpsc_new 64)(0 := (mpsc_new 64)\<lparr>items := [[9]]\<rparr>)\<rparr>\<rparr>"
  have "0 < length (dm_direct_bridges ?dm)" "?b = dm_direct_bridges ?dm ! 0" "\<not> db_done ?b"
    "db_pending ?b = None" "open_writer (db_wr ?b)" "items (cs_chan (dm_chans ?dm) (db_data_rx ?b)) = [9] # []"
    "db_data_rx ?b \<noteq> db_recv_tx ?b" "rbytes (db_rd ?b) = frame_bytes (relay_frame [5])" "length [5 :: byte] < 2 ^ 24"
    by simp_all
  from cancelled_read_breaks_stream[OF this refl] show ?thesis by (simp add: Let_def mpsc_new_def)
qed

end
