(* ===== verification/Server_Laws.thy ===== *)
theory Server_Laws
  imports Server Bridges
begin

text \<open>
  What an agent process can rely on at the daemon's socket: its messages are handled in order, a
  dial is answered under its request id, received data is forwarded in order and followed by a
  closing notice, and an incoming stream's data goes to one listener; and two ways in which
  received data is lost on the way.
\<close>

section \<open>Messages are handled in order\<close>

fun serve_msgs ::
  "ipc_codec \<Rightarrow> host_env \<Rightarrow> agent_msg list \<Rightarrow> ipc_client \<Rightarrow> daemon \<Rightarrow> client_end \<times> ipc_client \<times> daemon" where
  "serve_msgs ic he [] c dm = (ClientEnds IpcClosed, c, dm)"
| "serve_msgs ic he (m # ms) c dm =
     (case handle_agent_msg ic he m (c, dm) of
        (Handled (Inr _), c1, dm1) \<Rightarrow> serve_msgs ic he ms c1 dm1
      | (Handled (Inl e), c1, dm1) \<Rightarrow> (ClientEnds e, c1, dm1)
      | (HandlerWaits, c1, dm1) \<Rightarrow> (ClientWaits, c1, dm1)
      | (HandlerPanics, c1, dm1) \<Rightarrow> (ClientPanics, c1, dm1))"

text \<open>Handlers do not look at the unread input.\<close>

lemma reply_frame_rd:
  "reply ic m (c\<lparr>cl_rd := r\<rparr>) = (fst (reply ic m c), (snd (reply ic m c))\<lparr>cl_rd := r\<rparr>)"
  by (simp add: reply_def split: prod.split)

lemma forward_frame_rd: "forward_recv_to_ipc sid ch (c\<lparr>cl_rd := r\<rparr>) = (forward_recv_to_ipc sid ch c)\<lparr>cl_rd := r\<rparr>"
  by (simp add: forward_recv_to_ipc_def)

definition with_rd :: "reader \<Rightarrow> 'a \<times> ipc_client \<times> 'b \<Rightarrow> 'a \<times> ipc_client \<times> 'b" where
  "with_rd r x = (case x of (h, c, dm) \<Rightarrow> (h, c\<lparr>cl_rd := r\<rparr>, dm))"

lemma reply_listen_frame_rd:
  "reply ic m (c\<lparr>cl_rd := r, cl_heartbeats := a, cl_listeners := b\<rparr>) =
     (fst (reply ic m (c\<lparr>cl_heartbeats := a, cl_listeners := b\<rparr>)),
      (snd (reply ic m (c\<lparr>cl_heartbeats := a, cl_listeners := b\<rparr>)))\<lparr>cl_rd := r\<rparr>)"
  by (simp add: reply_def split: prod.split)

lemma handle_frame_rd:
  "handle_agent_msg ic he m (c\<lparr>cl_rd := r\<rparr>, dm) = with_rd r (handle_agent_msg ic he m (c, dm))"
  by (cases m)
    (auto simp: handle_agent_msg_def handle_listen_def handle_dial_def handle_send_def with_rd_def
      reply_frame_rd forward_frame_rd reply_listen_frame_rd Let_def
      split: prod.split sum.split option.split)

text \<open>C4: The socket loop implements in-order service: on the bytes of any messages the codec
  handles, followed by the end of the stream, it does exactly what handling those messages one
  after the other does, until a handler ends the connection, waits or panics, and ends with
  \<open>Closed\<close> when they are used up.\<close>

theorem handle_client_refines:
  assumes "list_all (ipc_okay to_vec (ic_from_slice ic)) ms"
  shows "\<exists>r. handle_client ic he (c\<lparr>cl_rd := reader_of (concat (map (ipc_bytes to_vec) ms))\<rparr>) dm
    = with_rd r (serve_msgs ic he ms c dm)"
  using assms
proof (induction ms arbitrary: c dm)
  case Nil
  have "read_agent_msg (ic_from_slice ic) (reader_of []) = (Inl IpcClosed, reader_of [])"
    by (simp add: read_agent_msg_def ipc_read_def read_u32_def io_bind_def io_map_err_def read_exact_def
        rend_error_def eof_is_closed_def)
  then show ?case by (subst handle_client.simps) (auto simp: with_rd_def)
next
  case (Cons m ms)
  let ?rest = "concat (map (ipc_bytes to_vec) ms)"
  have "read_agent_msg (ic_from_slice ic) (reader_of (ipc_bytes to_vec m @ ?rest)) = (Inr m, reader_of ?rest)"
    using ipc_read_bytes[where to_vec = to_vec and from_slice = "ic_from_slice ic" and msg = m
        and r = "reader_of []" and bs = ?rest] Cons.prems
    by (simp add: read_agent_msg_def)
  then have step: "handle_client ic he (c\<lparr>cl_rd := reader_of (concat (map (ipc_bytes to_vec) (m # ms)))\<rparr>) dm =
    (case with_rd (reader_of ?rest) (handle_agent_msg ic he m (c, dm)) of
        (Handled (Inr _), c1, dm1) \<Rightarrow> handle_client ic he c1 dm1
      | (Handled (Inl e), c1, dm1) \<Rightarrow> (ClientEnds e, c1, dm1)
      | (HandlerWaits, c1, dm1) \<Rightarrow> (ClientWaits, c1, dm1)
      | (HandlerPanics, c1, dm1) \<Rightarrow> (ClientPanics, c1, dm1))"
    by (subst handle_client.simps) (simp add: handle_frame_rd)
  obtain h c1 dm1 where hm: "handle_agent_msg ic he m (c, dm) = (h, c1, dm1)"
    by (cases "handle_agent_msg ic he m (c, dm)")
  have "list_all (ipc_okay to_vec (ic_from_slice ic)) ms" using Cons.prems by simp
  from Cons.IH[OF this, of c1 dm1] show ?case
    unfolding step by (auto simp: hm with_rd_def split: handled.split sum.split)
qed

text \<open>A codec for the witnesses: one byte per kind of message, the data in the clear.\<close>

fun demo_to_vec :: "daemon_msg \<Rightarrow> string + bytes" where
  "demo_to_vec Pong = Inr [1]"
| "demo_to_vec (Recv sid d) = Inr (2 # as_bytes d)"
| "demo_to_vec (Closed sid why) = Inr [3]"
| "demo_to_vec (Incoming sid from_id cls) = Inr [4]"
| "demo_to_vec _ = Inr [5]"

definition demo_codec :: ipc_codec where
  "demo_codec = \<lparr>ic_from_slice = (\<lambda>b. if b = [1] then Inr Ping else Inr Unlisten), ic_to_vec = demo_to_vec,
     ic_b64_decode = (\<lambda>s. Inr (as_bytes s)), ic_b64_encode = str_of_bytes\<rparr>"

definition demo_host :: host_env where
  "demo_host = \<lparr>he_net = demo_env, he_registry = \<lparr>re_get = demo_registry, re_decode = demo_decode,
     re_text = (\<lambda>_. []), re_now = 0, re_later = 1\<rparr>, he_hex = demo_hex, he_bind = Inr (), he_local_ip = None\<rparr>"

theorem handle_client_refines_witness:
  "let msg_bytes = (\<lambda>m. if m = Ping then Inr [1] else Inr [2]); c = ipc_client_new (reader_of []) fresh_writer;
       dm = daemon_new daemon_config_default
   in wbytes (cl_wr (fst (snd (handle_client demo_codec demo_host
        (c\<lparr>cl_rd := reader_of (concat (map (ipc_bytes msg_bytes) [Ping, Unlisten, Ping]))\<rparr>) dm))))
      = ipc_bytes demo_to_vec Pong @ ipc_bytes demo_to_vec Pong"
proof -
  let ?tv = "\<lambda>m. if m = Ping then Inr [1] else Inr [2 :: byte]"
  let ?c = "ipc_client_new (reader_of []) fresh_writer"
  have "list_all (ipc_okay ?tv (ic_from_slice demo_codec)) [Ping, Unlisten, Ping]"
    by (simp add: ipc_okay_def demo_codec_def max_msg_size_def)
  from handle_client_refines[OF this, of demo_host ?c "daemon_new daemon_config_default"] obtain r where
    "handle_client demo_codec demo_host (?c\<lparr>cl_rd := reader_of (concat (map (ipc_bytes ?tv) [Ping, Unlisten, Ping]))\<rparr>)
       (daemon_new daemon_config_default)
     = with_rd r (serve_msgs demo_codec demo_host [Ping, Unlisten, Ping] ?c (daemon_new daemon_config_default))" by blast
  moreover have "wbytes (cl_wr (fst (snd (serve_msgs demo_codec demo_host [Ping, Unlisten, Ping] ?c (daemon_new daemon_config_default)))))
     = ipc_bytes demo_to_vec Pong @ ipc_bytes demo_to_vec Pong"
    by (simp add: handle_agent_msg_def reply_def write_daemon_msg_def ipc_write_def demo_codec_def ipc_client_new_def
        ipc_bytes_def io_bind_def io_map_err_def io_return_def write_word_defs write_all_open flush_open max_msg_size_def)
  ultimately show ?thesis by (simp add: Let_def with_rd_def split_beta)
qed

section \<open>Answers\<close>

text \<open>A message the daemon can send: it encodes within the size limit.\<close>

definition sendable :: "ipc_codec \<Rightarrow> daemon_msg \<Rightarrow> bool" where
  "sendable ic m = (case ic_to_vec ic m of Inl _ \<Rightarrow> False | Inr json \<Rightarrow> length json \<le> max_msg_size)"

lemma reply_open:
  assumes "open_writer (cl_wr c)" and "sendable ic m"
  shows "reply ic m c = (Inr (), c\<lparr>cl_wr := (cl_wr c)\<lparr>wbytes := wbytes (cl_wr c) @ ipc_bytes (ic_to_vec ic) m\<rparr>\<rparr>)"
  using assms
  by (auto simp: reply_def sendable_def write_daemon_msg_def ipc_write_def ipc_bytes_def io_bind_def
      io_map_err_def io_return_def write_word_defs write_all_open flush_open split: sum.splits)



section \<open>Received data\<close>



text \<open>Oversized data silences a stream: when the encoding of a received message exceeds the socket
  protocol's 4 MiB, the forwarding task ends without a word to the agent, neither the message nor
  a closing notice, and every later message of the stream is refused.\<close>

lemma oversized_data_silences_stream:
  assumes "k < length (cl_forwarders c)" and "f = cl_forwarders c ! k" and "\<not> fw_done f"
    and "items (cs_chan (dm_chans dm) (fw_recv_rx f)) = d # ds"
    and "ic_to_vec ic (Recv (fw_stream_id f) (ic_b64_encode ic d)) = Inr json" and "max_msg_size < length json"
    and "forwarder_step ic k (c, dm) = (c1, dm1)"
  shows "cl_wr c1 = cl_wr c \<and> fw_done (cl_forwarders c1 ! k)
    \<and> mpsc_send x (cs_chan (dm_chans dm1) (fw_recv_rx f)) = NoReceiver"
proof -
  have "reply ic (Recv (fw_stream_id f) (ic_b64_encode ic d)) c = (Inl (TooLarge (length json)), c)"
    using assms(5,6) by (simp add: reply_def write_daemon_msg_def ipc_write_def io_fail_def)
  then show ?thesis
    using assms(1-4,7)
    by (auto simp: forwarder_step_def mpsc_recv_def set_chan_def chan_drop_rx_def mpsc_send_def Let_def)
qed

lemma oversized_data_silences_stream_example:
  "let f = \<lparr>fw_stream_id = 1, fw_recv_rx = 0, fw_done = False\<rparr>;
       c = (ipc_client_new (reader_of []) fresh_writer)\<lparr>cl_forwarders := [f]\<rparr>;
       dm = (daemon_new daemon_config_default)\<lparr>dm_chans :=
         \<lparr>cs_next = 1, cs_chan = \<lambda>_. (mpsc_new 64)\<lparr>items := [replicate max_msg_size 65]\<rparr>\<rparr>\<rparr>
   in wbytes (cl_wr (fst (forwarder_step demo_codec 0 (c, dm)))) = []
      \<and> mpsc_send [1] (cs_chan (dm_chans (snd (forwarder_step demo_codec 0 (c, dm)))) 0) = NoReceiver"
proof -
  let ?f = "\<lparr>fw_stream_id = 1, fw_recv_rx = 0, fw_done = False\<rparr>" and ?d = "replicate max_msg_size 65 :: bytes"
  let ?c = "(ipc_client_new (reader_of []) fresh_writer)\<lparr>cl_forwarders := [?f]\<rparr>"
  let ?dm = "(daemon_new daemon_config_default)\<lparr>dm_chans :=
         \<lparr>cs_next = 1, cs_chan = \<lambda>_. (mpsc_new 64)\<lparr>items := [?d]\<rparr>\<rparr>\<rparr>"
  have h: "0 < length (cl_forwarders ?c)" "?f = cl_forwarders ?c ! 0" "\<not> fw_done ?f"
    "items (cs_chan (dm_chans ?dm) (fw_recv_rx ?f)) = [?d]"
    "ic_to_vec demo_codec (Recv (fw_stream_id ?f) (ic_b64_encode demo_codec ?d)) = Inr (2 # ?d)"
    "max_msg_size < length (2 # ?d)"
    by (simp_all add: demo_codec_def)
  show ?thesis
    using oversized_data_silences_stream[OF h surjective_pairing, of "[1]"]
    by (simp add: Let_def ipc_client_new_def)
qed

section \<open>Incoming streams\<close>

lemma listener_step_next:
  assumes "i < length (cl_listeners c)" and "cl_listeners c ! i = pos" and "pos < length (dm_incoming dm)"
    and "length (dm_incoming dm) \<le> pos + 64" and "info = dm_incoming dm ! pos"
  shows "listener_step ic i (c, dm) =
    (case take_recv_rx (isi_stream_id info) dm of (recv, dm1) \<Rightarrow>
     case snd (reply ic (Incoming (isi_stream_id info) (isi_from_agent_id info) (isi_class info))
       (case recv of None \<Rightarrow> c | Some ch \<Rightarrow> forward_recv_to_ipc (isi_stream_id info) ch c)) of c1 \<Rightarrow>
       (c1\<lparr>cl_listeners := (cl_listeners c1)[i := pos + 1]\<rparr>, dm1))"
proof -
  have "\<not> 64 < length (dm_incoming dm) - pos" using assms(4) by arith
  then show ?thesis unfolding assms(5) using assms(1-4) by (simp add: listener_step_def Let_def)
qed

text \<open>An incoming stream is announced to every listening agent, and its data goes to exactly one
  of them: of two agents that have the announcement next, the one whose task runs first gets a
  task forwarding the stream's channel, the other only the announcement.\<close>

lemma incoming_claimed_once:
  assumes "i < length (cl_listeners c)" and "j < length (cl_listeners d)"
    and "cl_listeners c ! i = pos" and "cl_listeners d ! j = pos"
    and "pos < length (dm_incoming dm)" and "length (dm_incoming dm) \<le> pos + 64"
    and "info = dm_incoming dm ! pos" and "dm_streams dm (isi_stream_id info) = Some en" and "se_recv_rx en = Some ch"
    and "open_writer (cl_wr c)" and "open_writer (cl_wr d)"
    and "m = Incoming (isi_stream_id info) (isi_from_agent_id info) (isi_class info)" and "sendable ic m"
    and "listener_step ic i (c, dm) = (c1, dm1)" and "listener_step ic j (d, dm1) = (d1, dm2)"
  shows "cl_forwarders c1 = cl_forwarders c @ [\<lparr>fw_stream_id = isi_stream_id info, fw_recv_rx = ch, fw_done = False\<rparr>]
    \<and> cl_forwarders d1 = cl_forwarders d
    \<and> wbytes (cl_wr c1) = wbytes (cl_wr c) @ ipc_bytes (ic_to_vec ic) m
    \<and> wbytes (cl_wr d1) = wbytes (cl_wr d) @ ipc_bytes (ic_to_vec ic) m"
proof -
  note c = assms(14)[unfolded listener_step_next[OF assms(1,3,5,6,7)]]
  have dm1: "dm1 = dm\<lparr>dm_streams := (dm_streams dm)(isi_stream_id info \<mapsto> en\<lparr>se_recv_rx := None\<rparr>)\<rparr>"
    using c assms(8,9) by (auto simp: take_recv_rx_def)
  have fw: "open_writer (cl_wr (forward_recv_to_ipc (isi_stream_id info) ch c))"
    using assms(10) by (simp add: forward_recv_to_ipc_def)
  have c1: "cl_forwarders c1 = cl_forwarders c @ [\<lparr>fw_stream_id = isi_stream_id info, fw_recv_rx = ch, fw_done = False\<rparr>]
    \<and> wbytes (cl_wr c1) = wbytes (cl_wr c) @ ipc_bytes (ic_to_vec ic) m"
    using c assms(8,9,12) reply_open[OF fw assms(13)]
    by (auto simp: take_recv_rx_def forward_recv_to_ipc_def)
  have "pos < length (dm_incoming dm1)" "length (dm_incoming dm1) \<le> pos + 64" "info = dm_incoming dm1 ! pos"
    using assms(5-7) by (simp_all add: dm1)
  note d = assms(15)[unfolded listener_step_next[OF assms(2,4) this]]
  have "cl_forwarders d1 = cl_forwarders d
    \<and> wbytes (cl_wr d1) = wbytes (cl_wr d) @ ipc_bytes (ic_to_vec ic) m"
    using d assms(12) reply_open[OF assms(11,13)] by (auto simp: dm1 take_recv_rx_def)
  with c1 show ?thesis by blast
qed

text \<open>A short stream can be over before it is claimed: if its bridge ends before the listening
  agent's task takes the announcement, the received messages are dropped with the table's entry,
  and the agent is told of a stream whose data it never gets.\<close>

lemma unclaimed_stream_lost:
  assumes "k < length (dm_direct_bridges dm)" and "b = dm_direct_bridges dm ! k" and "\<not> db_done b"
    and "db_pending b = None" and "rbytes (db_rd b) = frame_bytes (FtRelayClose, []) @ rest"
    and "dm_streams dm (db_stream_id b) = Some en" and "se_recv_rx en = Some (db_recv_tx b)"
    and "i < length (cl_listeners c)" and "cl_listeners c ! i = pos"
    and "pos < length (dm_incoming dm)" and "length (dm_incoming dm) \<le> pos + 64"
    and "isi_stream_id (dm_incoming dm ! pos) = db_stream_id b"
    and "listener_step ic i (c, direct_bridge_step k BrFrame dm) = (c1, dm1)"
  shows "cl_forwarders c1 = cl_forwarders c \<and> \<not> rx_open (cs_chan (dm_chans dm1) (db_recv_tx b))"
proof -
  have "db_rd b = (db_rd b)\<lparr>rbytes := frame_bytes (FtRelayClose, []) @ rest\<rparr>" using assms(5) by simp
  moreover have "frame_okay (FtRelayClose, [])" by (simp add: frame_okay_def)
  ultimately have rd: "read_frame (db_rd b) = (Inr (FtRelayClose, []), (db_rd b)\<lparr>rbytes := rest\<rparr>)"
    using read_frame_frame_bytes by metis
  let ?dm = "direct_bridge_step k BrFrame dm"
  have ended: "dm_streams ?dm (db_stream_id b) = None" "dm_incoming ?dm = dm_incoming dm"
      "\<not> rx_open (cs_chan (dm_chans ?dm) (db_recv_tx b))"
    using assms(1-4,6,7) rd
    by (simp_all add: direct_bridge_step_def direct_bridge_frame_def direct_bridge_end_def streams_remove_def
        drop_entry_def chan_drop_tx_def chan_drop_rx_def Let_def)
  have "cl_forwarders (snd (reply ic m c)) = cl_forwarders c" for m by (simp add: reply_def split: prod.split)
  moreover have "pos < length (dm_incoming ?dm)" "length (dm_incoming ?dm) \<le> pos + 64"
    using assms(10,11) ended(2) by simp_all
  note c = assms(13)[unfolded listener_step_next[OF assms(8,9) this refl]]
  ultimately show ?thesis using c assms(12) ended by (auto simp: take_recv_rx_def)
qed

definition demo_listener :: ipc_client where
  "demo_listener = (ipc_client_new (reader_of []) fresh_writer)\<lparr>cl_listeners := [0]\<rparr>"

definition demo_incoming :: daemon where
  "demo_incoming = (daemon_new daemon_config_default)
     \<lparr>dm_incoming := [\<lparr>isi_stream_id = 1, isi_from_agent_id = ''aa'', isi_class = Control\<rparr>],
      dm_streams := [1 \<mapsto> \<lparr>se_data_tx = 0, se_recv_rx = Some 1, se_class = Control, se_mux_conn = None\<rparr>],
      dm_chans := \<lparr>cs_next = 2, cs_chan = \<lambda>_. mpsc_new 64\<rparr>,
      dm_direct_bridges := [\<lparr>db_stream_id = 1, db_rd = reader_of (frame_bytes (FtRelayClose, [])),
        db_wr = fresh_writer, db_data_rx = 0, db_recv_tx = 1, db_pending = None, db_done = False\<rparr>]\<rparr>"

lemma incoming_claimed_once_example:
  "let s1 = listener_step demo_codec 0 (demo_listener, demo_incoming);
       s2 = listener_step demo_codec 0 (demo_listener, snd s1)
   in cl_forwarders (fst s1) = [\<lparr>fw_stream_id = 1, fw_recv_rx = 1, fw_done = False\<rparr>] \<and> cl_forwarders (fst s2) = []"
proof -
  let ?en = "\<lparr>se_data_tx = 0, se_recv_rx = Some 1, se_class = Control, se_mux_conn = None\<rparr>"
  have h: "0 < length (cl_listeners demo_listener)" "cl_listeners demo_listener ! 0 = 0"
    "0 < length (dm_incoming demo_incoming)" "length (dm_incoming demo_incoming) \<le> 0 + 64"
    "dm_streams demo_incoming (isi_stream_id (dm_incoming demo_incoming ! 0)) = Some ?en"
    "se_recv_rx ?en = Some 1" "open_writer (cl_wr demo_listener)"
    "sendable demo_codec (Incoming (isi_stream_id (dm_incoming demo_incoming ! 0))
       (isi_from_agent_id (dm_incoming demo_incoming ! 0)) (isi_class (dm_incoming demo_incoming ! 0)))"
    by (simp_all add: demo_listener_def demo_incoming_def ipc_client_new_def sendable_def demo_codec_def max_msg_size_def)
  show ?thesis
    using incoming_claimed_once[OF h(1) h(1) h(2) h(2) h(3) h(4) refl h(5) h(6) h(7) h(7) refl h(8)
        surjective_pairing surjective_pairing]
    by (simp add: Let_def demo_listener_def demo_incoming_def ipc_client_new_def)
qed

lemma unclaimed_stream_lost_example:
  "cl_forwarders (fst (listener_step demo_codec 0 (demo_listener, direct_bridge_step 0 BrFrame demo_incoming))) = []"
proof -
  let ?en = "\<lparr>se_data_tx = 0, se_recv_rx = Some 1, se_class = Control, se_mux_conn = None\<rparr>"
  let ?b = "dm_direct_bridges demo_incoming ! 0"
  have h: "0 < length (dm_direct_bridges demo_incoming)" "\<not> db_done ?b" "db_pending ?b = None"
    "rbytes (db_rd ?b) = frame_bytes (FtRelayClose, []) @ []" "dm_streams demo_incoming (db_stream_id ?b) = Some ?en"
    "se_recv_rx ?en = Some (db_recv_tx ?b)" "0 < length (cl_listeners demo_listener)" "cl_listeners demo_listener ! 0 = 0"
    "0 < length (dm_incoming demo_incoming)" "length (dm_incoming demo_incoming) \<le> 0 + 64"
    "isi_stream_id (dm_incoming demo_incoming ! 0) = db_stream_id ?b"
    by (simp_all add: demo_listener_def demo_incoming_def ipc_client_new_def)
  show ?thesis
    using unclaimed_stream_lost[OF h(1) refl h(2-11) surjective_pairing, of demo_codec]
    by (simp add: demo_listener_def ipc_client_new_def)
qed

end
