(* ===== verification/Webrtc.thy ===== *)
theory Webrtc
  imports Http
begin

text \<open>
  The types and the configuration of the WebRTC client
  (\<open>rust/crates/roboat-webrtc/src/types.rs\<close> and \<open>src/lib.rs\<close>) and the pure part of
  \<open>src/client.rs\<close>: what the environment switches mean, the time limits, and the functions that
  decide which TURN URLs and network types an attempt uses. The environment is the function
  \<open>var\<close>, \<open>None\<close> where \<open>std::env::var\<close> fails.
\<close>

section \<open>Signalling messages and phases\<close>

record 'v signal_message =
  sm_type :: string
  sm_payload :: "'v option"
  sm_robot_id :: string
  sm_bootstrap_id :: "string option"

datatype bootstrap_phase =
    StunStart
  | StunTimeout
  | StunConnected
  | TurnFetchStart
  | TurnFetchOk
  | TurnFetchFail
  | SignalWsConnectStart
  | SignalWsConnectOk
  | SignalWsConnectFail
  | OfferSent
  | AnswerReceived
  | DataChannelOpen

fun phase_as_str :: "bootstrap_phase \<Rightarrow> string" where
  "phase_as_str StunStart = ''STUN_START''"
| "phase_as_str StunTimeout = ''STUN_TIMEOUT''"
| "phase_as_str StunConnected = ''STUN_CONNECTED''"
| "phase_as_str TurnFetchStart = ''TURN_FETCH_START''"
| "phase_as_str TurnFetchOk = ''TURN_FETCH_OK''"
| "phase_as_str TurnFetchFail = ''TURN_FETCH_FAIL''"
| "phase_as_str SignalWsConnectStart = ''SIGNAL_WS_CONNECT_START''"
| "phase_as_str SignalWsConnectOk = ''SIGNAL_WS_CONNECT_OK''"
| "phase_as_str SignalWsConnectFail = ''SIGNAL_WS_CONNECT_FAIL''"
| "phase_as_str OfferSent = ''OFFER_SENT''"
| "phase_as_str AnswerReceived = ''ANSWER_RECEIVED''"
| "phase_as_str DataChannelOpen = ''DATACHANNEL_OPEN''"

record turn_credentials =
  tc_urls :: "string list"
  tc_username :: string
  tc_credential :: string
  tc_ttl_seconds :: u32

record turn_credential_response =
  tr_turn_available :: bool
  tr_stun_urls :: "string list"
  tr_turn :: "turn_credentials option"

section \<open>Configuration\<close>

datatype connection_type = Stun | Turn | TcpTunnel

fun connection_type_display :: "connection_type \<Rightarrow> string" where
  "connection_type_display Stun = ''STUN/P2P (direct)''"
| "connection_type_display Turn = ''TURN (relayed)''"
| "connection_type_display TcpTunnel = ''TCP tunnel (fallback)''"

record webrtc_config =
  wc_platform_url :: string
  wc_robot_id :: string
  wc_api_key :: string
  wc_stun_timeout_secs :: u64
  wc_bootstrap_id :: "string option"
  wc_route_type :: "string option"

definition signaling_base_url :: "webrtc_config \<Rightarrow> string" where
  "signaling_base_url cfg =
     (let trimmed = trim_end_matches CHR ''/'' (wc_platform_url cfg) in
      case strip_prefix_str trimmed ''https://'' of
        Some rest \<Rightarrow> ''wss://'' @ rest
      | None \<Rightarrow>
          (case strip_prefix_str trimmed ''http://'' of
             Some rest \<Rightarrow> ''ws://'' @ rest
           | None \<Rightarrow> trimmed))"

definition http_base_url :: "webrtc_config \<Rightarrow> string" where
  "http_base_url cfg =
     (let trimmed = trim_end_matches CHR ''/'' (wc_platform_url cfg) in
      case strip_prefix_str trimmed ''wss://'' of
        Some rest \<Rightarrow> ''https://'' @ rest
      | None \<Rightarrow>
          (case strip_prefix_str trimmed ''ws://'' of
             Some rest \<Rightarrow> ''http://'' @ rest
           | None \<Rightarrow> trimmed))"

definition bootstrap_suffix :: "webrtc_config \<Rightarrow> string" where
  "bootstrap_suffix cfg =
     (case wc_bootstrap_id cfg of Some i \<Rightarrow> ''&bootstrap_id='' @ i | None \<Rightarrow> [])"

definition signaling_url :: "webrtc_config \<Rightarrow> string" where
  "signaling_url cfg =
     signaling_base_url cfg @ ''/api/signal/'' @ wc_robot_id cfg @ ''?role=agent'' @
     bootstrap_suffix cfg"

definition turn_credentials_url :: "webrtc_config \<Rightarrow> string" where
  "turn_credentials_url cfg =
     http_base_url cfg @ ''/api/turn-credentials?robot_id='' @ wc_robot_id cfg @
     bootstrap_suffix cfg"

section \<open>Log lines\<close>

datatype log_level = LogInfo | LogWarn

type_synonym log_line = "log_level \<times> string"

definition bootstrap_tag :: "webrtc_config \<Rightarrow> string" where
  "bootstrap_tag cfg =
     ''[BOOTSTRAP:'' @ (case wc_bootstrap_id cfg of Some i \<Rightarrow> i | None \<Rightarrow> ''none'') @ ''] ''"

definition log_phase :: "webrtc_config \<Rightarrow> bootstrap_phase \<Rightarrow> string option \<Rightarrow> log_line" where
  "log_phase cfg phase detail =
     (case detail of
        Some d \<Rightarrow> (LogWarn, bootstrap_tag cfg @ phase_as_str phase @ '' - '' @ d)
      | None \<Rightarrow> (LogInfo, bootstrap_tag cfg @ phase_as_str phase))"

definition log_stun_success :: log_line where
  "log_stun_success =
     (LogInfo, ''WebRTC: connected via STUN (direct P2P) '' @ [CHR 0xE2, CHR 0x80, CHR 0x94] @
               '' no relay bandwidth used'')"

definition log_connection_type :: "connection_type \<Rightarrow> log_line" where
  "log_connection_type conn_type =
     (LogInfo, ''WebRTC connection established via '' @ connection_type_display conn_type)"

section \<open>Environment switches and time limits\<close>

definition parse_bool_like :: "string \<Rightarrow> bool" where
  "parse_bool_like v \<longleftrightarrow>
     to_ascii_lowercase (trim v) \<in> set [''1'', ''true'', ''yes'', ''on'']"

definition env_flag_enabled_with_default ::
  "(string \<Rightarrow> string option) \<Rightarrow> string \<Rightarrow> bool \<Rightarrow> bool" where
  "env_flag_enabled_with_default var name dflt =
     (case map_option parse_bool_like (var name) of Some b \<Rightarrow> b | None \<Rightarrow> dflt)"

definition env_flag_enabled :: "(string \<Rightarrow> string option) \<Rightarrow> string \<Rightarrow> bool" where
  "env_flag_enabled var name = env_flag_enabled_with_default var name False"

definition route_requires_relay :: "(string \<Rightarrow> string option) \<Rightarrow> webrtc_config \<Rightarrow> bool" where
  "route_requires_relay var cfg =
     ((case wc_route_type cfg of
         Some route_type \<Rightarrow> eq_ignore_ascii_case (trim route_type) ''turn_relay''
       | None \<Rightarrow> False) \<or>
      env_flag_enabled_with_default var ''ROBOAT_WEBRTC_FORCE_RELAY'' False)"

definition env_secs :: "(string \<Rightarrow> string option) \<Rightarrow> string \<Rightarrow> u64 \<Rightarrow> u64" where
  "env_secs var name secs =
     (case var name of
        Some raw \<Rightarrow>
          (case parse_uint (2 ^ 64) (trim raw) of Some n \<Rightarrow> word_of_nat n | None \<Rightarrow> secs)
      | None \<Rightarrow> secs)"

definition resolve_parallel_connect_timeout ::
  "(string \<Rightarrow> string option) \<Rightarrow> webrtc_config \<Rightarrow> u64" where
  "resolve_parallel_connect_timeout var cfg =
     (let total_window = 2 + 2;
          secs = env_secs var ''ROBOAT_WEBRTC_CONNECT_TIMEOUT_SECS'' (wc_stun_timeout_secs cfg);
          secs = (if secs = 0 then total_window else secs);
          secs = (if secs < 2 then 2 else secs)
      in if secs > total_window then total_window else secs)"

definition resolve_datachannel_open_grace :: "(string \<Rightarrow> string option) \<Rightarrow> u64" where
  "resolve_datachannel_open_grace var =
     (let secs = env_secs var ''ROBOAT_WEBRTC_DC_OPEN_GRACE_SECS'' 8;
          secs = (if secs = 0 then 8 else secs)
      in if secs > 12 then 12 else secs)"

section \<open>TURN URLs\<close>

datatype turn_url_kind = TurnUdp | TurnTcp

definition parse_turn_transport_query :: "string \<Rightarrow> string option" where
  "parse_turn_transport_query query =
     find_map (\<lambda>kv. case split_once CHR ''='' kv of
                      None \<Rightarrow> None
                    | Some (key, v) \<Rightarrow> if key = ''transport'' then Some v else None)
       (split_on CHR ''&'' query)"

text \<open>The base of a normalised URL and the transport its query asks for.\<close>

definition split_turn_url :: "string \<Rightarrow> string \<times> string option" where
  "split_turn_url url =
     (let normalized = to_ascii_lowercase (trim url) in
      case split_once CHR ''?'' normalized of
        Some (lhs, rhs) \<Rightarrow> (lhs, parse_turn_transport_query rhs)
      | None \<Rightarrow> (normalized, None))"

definition turn_url_transport :: "string \<Rightarrow> turn_url_kind option" where
  "turn_url_transport url =
     (let (base, query_transport) = split_turn_url url in
      if starts_with base ''turns:'' then
        (case query_transport of
           None \<Rightarrow> Some TurnTcp
         | Some t \<Rightarrow> if t = ''udp'' then None else if t = ''tcp'' then Some TurnTcp else None)
      else if \<not> starts_with base ''turn:'' then None
      else
        case query_transport of
          None \<Rightarrow> Some TurnUdp
        | Some t \<Rightarrow>
            if t = ''udp'' then Some TurnUdp else if t = ''tcp'' then Some TurnTcp else None)"

definition is_supported_turn_url :: "string \<Rightarrow> bool \<Rightarrow> bool" where
  "is_supported_turn_url url tcp_enabled =
     (case turn_url_transport url of
        Some TurnUdp \<Rightarrow> True
      | Some TurnTcp \<Rightarrow> tcp_enabled
      | None \<Rightarrow> False)"

definition turn_udp_url :: "string \<Rightarrow> string" where
  "turn_udp_url host = ''turn:'' @ host @ ''?transport=udp''"

definition turn_tcp_url :: "string \<Rightarrow> string" where
  "turn_tcp_url host = ''turn:'' @ host @ ''?transport=tcp''"

definition expand_turn_urls :: "string \<Rightarrow> bool \<Rightarrow> string list" where
  "expand_turn_urls url tcp_enabled =
     (let (base, query_transport) = split_turn_url url in
      if starts_with base ''turns:'' then
        if \<not> tcp_enabled \<or> query_transport = Some ''udp'' then []
        else [turn_tcp_url (trim_start_matches ''turns:'' base)]
      else if \<not> starts_with base ''turn:'' then []
      else
        let host = trim_start_matches ''turn:'' base in
        case query_transport of
          Some t \<Rightarrow>
            if t = ''udp'' then [turn_udp_url host]
            else if t = ''tcp'' \<and> tcp_enabled then [turn_tcp_url host]
            else []
        | None \<Rightarrow>
            if tcp_enabled then [turn_udp_url host, turn_tcp_url host] else [turn_udp_url host])"

text \<open>The loops that push a URL unless it is already there.\<close>

fun push_new :: "string list \<Rightarrow> string list \<Rightarrow> string list" where
  "push_new out [] = out"
| "push_new out (u # us) =
     (if list_ex (\<lambda>existing. existing = u) out then push_new out us else push_new (out @ [u]) us)"

definition expand_all :: "bool \<Rightarrow> string list \<Rightarrow> (string \<times> bool) list" where
  "expand_all tcp_enabled urls =
     concat (map (\<lambda>raw.
       let turns_origin = starts_with (to_ascii_lowercase (trim raw)) ''turns:'' in
       map (\<lambda>u. (u, turns_origin \<and> turn_url_transport u = Some TurnTcp))
         (expand_turn_urls raw tcp_enabled)) urls)"

definition filter_supported_turn_urls :: "(string \<Rightarrow> string option) \<Rightarrow> string list \<Rightarrow> string list" where
  "filter_supported_turn_urls var urls =
     (let tcp_enabled = env_flag_enabled_with_default var ''ROBOAT_WEBRTC_TCP_ENABLED'' False;
          tls_only = (tcp_enabled \<and>
                      env_flag_enabled_with_default var ''ROBOAT_WEBRTC_TURN_TLS_ONLY'' False);
          expanded = expand_all tcp_enabled urls;
          out = (if tls_only then push_new [] (map fst (filter snd expanded)) else [])
      in if tls_only \<and> out \<noteq> [] then out else push_new out (map fst expanded))"

section \<open>Network types\<close>

datatype network_type = NetUnspecified | NetUdp4 | NetUdp6 | NetTcp4 | NetTcp6

fun network_type_display :: "network_type \<Rightarrow> string" where
  "network_type_display NetUdp4 = ''udp4''"
| "network_type_display NetUdp6 = ''udp6''"
| "network_type_display NetTcp4 = ''tcp4''"
| "network_type_display NetTcp6 = ''tcp6''"
| "network_type_display NetUnspecified = ''unspecified''"

definition render_network_types :: "network_type list \<Rightarrow> string" where
  "render_network_types network_types = join '','' (map network_type_display network_types)"

record ice_server =
  is_urls :: "string list"
  is_username :: string
  is_credential :: string

definition ice_network_types_for_servers ::
  "(string \<Rightarrow> string option) \<Rightarrow> ice_server list \<Rightarrow> network_type list" where
  "ice_network_types_for_servers var ice_servers =
     (let ipv6_enabled = env_flag_enabled var ''ROBOAT_WEBRTC_IPV6_ENABLED'';
          tcp_enabled = env_flag_enabled_with_default var ''ROBOAT_WEBRTC_TCP_ENABLED'' False;
          needs_tcp = (tcp_enabled \<and>
            list_ex (\<lambda>url. turn_url_transport url = Some TurnTcp) (concat (map is_urls ice_servers)))
      in [NetUdp4] @ (if ipv6_enabled then [NetUdp6] else []) @
         (if needs_tcp then [NetTcp4] @ (if ipv6_enabled then [NetTcp6] else []) else []))"

section \<open>Laws\<close>

text \<open>Pushing what is not yet there computes the first occurrences, in order.\<close>

fun first_occurrences :: "'a list \<Rightarrow> 'a list" where
  "first_occurrences [] = []"
| "first_occurrences (x # xs) = x # filter (\<lambda>y. y \<noteq> x) (first_occurrences xs)"

lemma push_new_first_occurrences:
  "push_new out us = out @ filter (\<lambda>u. u \<notin> set out) (first_occurrences us)"
proof (induction us arbitrary: out)
  case Nil
  then show ?case by simp
next
  case (Cons u us)
  have drop: "filter (\<lambda>x. x \<notin> set out) (first_occurrences us) =
      filter (\<lambda>x. x \<noteq> u \<and> x \<notin> set out) (first_occurrences us)" if "u \<in> set out"
    using that by (intro filter_cong) auto
  show ?case
  proof (cases "u \<in> set out")
    case True
    then show ?thesis using drop by (simp add: Cons.IH list_ex_iff conj_commute)
  next
    case False
    then show ?thesis by (simp add: Cons.IH list_ex_iff conj_commute)
  qed
qed

lemma set_first_occurrences [simp]: "set (first_occurrences xs) = set xs"
  by (induction xs) auto

lemma distinct_first_occurrences [simp]: "distinct (first_occurrences xs)"
  by (induction xs) auto

lemma push_new_Nil: "push_new [] us = first_occurrences us"
  by (simp add: push_new_first_occurrences)

end
