(* ===== verification/Webrtc_Client.thy ===== *)
theory Webrtc_Client
  imports Webrtc Channels
begin

text \<open>
  The connection attempt of \<open>rust/crates/roboat-webrtc/src/client.rs\<close>: fetching TURN credentials,
  building the ICE servers, the setup up to the offer, the wait for ICE and for the data channel,
  and the signalling task beside it. The WebRTC stack, the WebSocket and the HTTP client are
  parameters; what they report while an attempt waits is a list of events. An error is the chain
  of its contexts, outermost first, as \<open>anyhow\<close> keeps it. The log lines of the phases and of the
  decisions \<open>connect\<close> takes are part of the results; further diagnostics are left out.
\<close>

type_synonym anyhow = "string list"

section \<open>Fetching TURN credentials\<close>

definition fetch_turn_credentials ::
  "(string \<Rightarrow> header list \<Rightarrow> string + http_response) \<Rightarrow> (nat \<Rightarrow> string) \<Rightarrow>
   (http_response \<Rightarrow> string option) \<Rightarrow> (bytes \<Rightarrow> string + turn_credential_response) \<Rightarrow>
   webrtc_config \<Rightarrow> log_line list \<times> (anyhow + turn_credential_response)" where
  "fetch_turn_credentials http_get show_status text_of decode cfg =
     (let start = log_phase cfg TurnFetchStart None;
          fail = (\<lambda>err_msg. log_phase cfg TurnFetchFail (Some err_msg));
          url = turn_credentials_url cfg
      in case http_get url [(''X-Robot-API-Key'', wc_api_key cfg)] of
           Inl e \<Rightarrow>
             let err_msg = ''HTTP transport error fetching TURN credentials from '' @ url in
             ([start, fail err_msg], Inl [err_msg, e])
         | Inr resp \<Rightarrow>
             if \<not> is_success (status resp) then
               let txt = (case text_of resp of Some t \<Rightarrow> t | None \<Rightarrow> ''no body'');
                   err_msg = ''TURN credentials API returned '' @ show_status (status resp) @
                             '': '' @ txt
               in ([start, fail err_msg], Inl [err_msg])
             else
               case decode (body resp) of
                 Inl e \<Rightarrow>
                   let err_msg = ''failed to parse TURN credentials JSON'' in
                   ([start, fail err_msg], Inl [err_msg, e])
               | Inr creds \<Rightarrow> ([start, log_phase cfg TurnFetchOk None], Inr creds))"

section \<open>The ICE servers of an attempt\<close>

definition stun_server :: "string \<Rightarrow> ice_server" where
  "stun_server url = \<lparr>is_urls = [url], is_username = [], is_credential = []\<rparr>"

text \<open>The warnings about the URLs the stack cannot use.\<close>

definition turn_url_warnings :: "bool \<Rightarrow> string list \<Rightarrow> log_line list" where
  "turn_url_warnings tcp_enabled urls =
     map (\<lambda>raw.
       (LogWarn,
        (if turn_url_transport raw = Some TurnTcp
         then ''WebRTC: dropping TCP TURN URL because ROBOAT_WEBRTC_TCP_ENABLED=false: '' @ raw
         else ''WebRTC: skipping unsupported TURN URL for current ICE stack: '' @ raw)))
       (filter (\<lambda>raw. \<not> is_supported_turn_url raw tcp_enabled) urls)"

text \<open>The servers of \<open>connect\<close> and whether TURN is among them, from the outcome of the fetch.\<close>

definition relay_or_warn ::
  "bool \<Rightarrow> ice_server list \<Rightarrow> string \<Rightarrow> string \<Rightarrow> log_line list \<times> (anyhow + ice_server list \<times> bool)" where
  "relay_or_warn relay_required servers err warning =
     (if relay_required then ([], Inl [err]) else ([(LogWarn, warning)], Inr (servers, False)))"

definition build_ice_servers ::
  "(string \<Rightarrow> string option) \<Rightarrow> bool \<Rightarrow> anyhow + turn_credential_response \<Rightarrow>
   log_line list \<times> (anyhow + ice_server list \<times> bool)" where
  "build_ice_servers var relay_required fetched =
     (let servers = (if relay_required then [] else [stun_server ''stun:stun.l.google.com:19302'']) in
      case fetched of
        Inl err \<Rightarrow>
          if relay_required
          then ([], Inl (''relay-only mode requested but TURN credential fetch failed'' # err))
          else ([(LogWarn, ''WebRTC: failed to fetch TURN credentials ('' @ join '': '' err @
                           ''); continuing with STUN only'')], Inr (servers, False))
      | Inr creds \<Rightarrow>
          let servers =
                servers @ (if relay_required then [] else map stun_server (tr_stun_urls creds)) in
          if \<not> tr_turn_available creds then
            relay_or_warn relay_required servers
              ''relay-only mode requested but TURN not available''
              ''WebRTC: TURN not available from platform; continuing with STUN only''
          else
            case tr_turn creds of
              None \<Rightarrow>
                relay_or_warn relay_required servers
                  ''relay-only mode requested but TURN credentials missing''
                  ''WebRTC: TURN marked available but credentials missing; continuing with STUN only''
            | Some turn \<Rightarrow>
                let urls = filter_supported_turn_urls var (tc_urls turn);
                    tcp_enabled =
                      env_flag_enabled_with_default var ''ROBOAT_WEBRTC_TCP_ENABLED'' False;
                    warns = turn_url_warnings tcp_enabled (tc_urls turn)
                in if urls \<noteq> [] then
                     (warns @ [(LogInfo, ''WebRTC: TURN relay candidates enabled ('' @
                                         join '', '' urls @ '')'')],
                      Inr (servers @ [\<lparr>is_urls = urls, is_username = tc_username turn,
                                       is_credential = tc_credential turn\<rparr>], True))
                   else
                     let (l, r) = relay_or_warn relay_required servers
                           ''relay-only mode requested but no supported TURN URL remained''
                           (''WebRTC: TURN credentials fetched but no supported TURN URL remained; '' @
                            ''continuing with STUN only'')
                     in (warns @ l, r))"

section \<open>Setting up an attempt\<close>

datatype ice_transport_policy = PolicyDefault | PolicyRelay

record rtc_configuration =
  rc_ice_servers :: "ice_server list"
  rc_ice_transport_policy :: ice_transport_policy

record ('v, 'd, 'c) signal_json =
  sj_null :: 'v
  sj_of_description :: "'d \<Rightarrow> string + 'v"
  sj_of_candidate :: "'c \<Rightarrow> string + 'v"
  sj_to_description :: "'v \<Rightarrow> 'd option"
  sj_to_candidate :: "'v \<Rightarrow> 'c option"
  sj_to_string :: "'v signal_message \<Rightarrow> string + string"
  sj_from_str :: "string \<Rightarrow> 'v signal_message option"

text \<open>What the stack and the WebSocket answer during the setup.\<close>

record 'd rtc_stack =
  rt_register_codecs :: "string + unit"
  rt_register_interceptors :: "string + unit"
  rt_new_peer_connection :: "network_type list \<Rightarrow> rtc_configuration \<Rightarrow> string + unit"
  rt_create_data_channel :: "string \<Rightarrow> string + unit"
  rt_client_request :: "string \<Rightarrow> string + unit"
  rt_header_value :: "string \<Rightarrow> string + unit"
  rt_connect_async :: "string \<Rightarrow> header list \<Rightarrow> string + unit"
  rt_create_offer :: "string + 'd"
  rt_set_local_description :: "'d \<Rightarrow> string + unit"
  rt_ws_send :: "string \<Rightarrow> string + unit"

definition signal_of :: "webrtc_config \<Rightarrow> string \<Rightarrow> 'v \<Rightarrow> 'v signal_message" where
  "signal_of cfg t v =
     \<lparr>sm_type = t, sm_payload = Some v, sm_robot_id = wc_robot_id cfg,
      sm_bootstrap_id = wc_bootstrap_id cfg\<rparr>"

definition peer_setup ::
  "'d rtc_stack \<Rightarrow> (string \<Rightarrow> string option) \<Rightarrow> webrtc_config \<Rightarrow> ice_server list \<Rightarrow> anyhow + unit" where
  "peer_setup st var cfg servers =
     (let network_types = ice_network_types_for_servers var servers;
          config = \<lparr>rc_ice_servers = servers,
                    rc_ice_transport_policy =
                      (if route_requires_relay var cfg then PolicyRelay else PolicyDefault)\<rparr>
      in case rt_register_codecs st of Inl e \<Rightarrow> Inl [e] | Inr _ \<Rightarrow>
         (case rt_register_interceptors st of Inl e \<Rightarrow> Inl [e] | Inr _ \<Rightarrow>
         (case rt_new_peer_connection st network_types config of Inl e \<Rightarrow> Inl [e] | Inr _ \<Rightarrow>
         (case rt_create_data_channel st ''rt-data'' of Inl e \<Rightarrow> Inl [e] | Inr _ \<Rightarrow> Inr ()))))"

definition signaling_setup ::
  "'d rtc_stack \<Rightarrow> webrtc_config \<Rightarrow> log_line list \<times> (anyhow + unit)" where
  "signaling_setup st cfg =
     (let url = signaling_url cfg;
          start = log_phase cfg SignalWsConnectStart None;
          fail = (\<lambda>err_msg e. ([start, log_phase cfg SignalWsConnectFail (Some err_msg)],
                               Inl [err_msg, e]))
      in case rt_client_request st url of
           Inl e \<Rightarrow> fail (''invalid signaling WebSocket URL (url='' @ url @ '')'') e
         | Inr _ \<Rightarrow>
         (case rt_header_value st (wc_api_key cfg) of
            Inl e \<Rightarrow> fail ''invalid robot API key for signaling header'' e
          | Inr _ \<Rightarrow>
          (case rt_connect_async st url [(''X-Robot-API-Key'', wc_api_key cfg)] of
             Inl e \<Rightarrow> fail (''signaling WebSocket connect failed (url='' @ url @ '')'') e
           | Inr _ \<Rightarrow> ([start, log_phase cfg SignalWsConnectOk None], Inr ()))))"

text \<open>The offer: the text that was sent.\<close>

definition send_offer ::
  "('v, 'd, 'c) signal_json \<Rightarrow> 'd rtc_stack \<Rightarrow> webrtc_config \<Rightarrow> log_line list \<times> (anyhow + string)" where
  "send_offer js st cfg =
     (case rt_create_offer st of Inl e \<Rightarrow> ([], Inl [e]) | Inr offer \<Rightarrow>
      (case rt_set_local_description st offer of Inl e \<Rightarrow> ([], Inl [e]) | Inr _ \<Rightarrow>
      (case sj_of_description js offer of Inl e \<Rightarrow> ([], Inl [e]) | Inr v \<Rightarrow>
      (case sj_to_string js (signal_of cfg ''offer'' v) of Inl e \<Rightarrow> ([], Inl [e]) | Inr txt \<Rightarrow>
      (case rt_ws_send st txt of Inl e \<Rightarrow> ([], Inl [e]) | Inr _ \<Rightarrow>
         ([log_phase cfg OfferSent None], Inr txt))))))"

section \<open>Waiting for the connection\<close>

datatype peer_state =
  PcUnspecified | PcNew | PcConnecting | PcConnected | PcDisconnected | PcFailed | PcClosed

datatype ice_state =
    IceUnspecified | IceNew | IceChecking | IceConnected | IceCompleted | IceDisconnected
  | IceFailed | IceClosed

datatype rtc_event =
  PeerState peer_state | IceState ice_state | DcOpened | ConnectTimer | GraceTimer

datatype attempt_stage = WaitIce | WaitDc | Finished "anyhow + unit"

text \<open>The two one-shot channels, the place the attempt waits at, and its log. The senders of both
  channels live as long as the attempt waits, so a receive ends with a value or with the timer.\<close>

record attempt =
  at_connected :: "(string + unit) option"
  at_dc_open :: bool
  at_stage :: attempt_stage
  at_log :: "log_line list"

definition attempt_new :: attempt where
  "attempt_new = \<lparr>at_connected = None, at_dc_open = False, at_stage = WaitIce, at_log = []\<rparr>"

definition report_connected :: "string + unit \<Rightarrow> attempt \<Rightarrow> attempt" where
  "report_connected r a = (case at_connected a of None \<Rightarrow> a\<lparr>at_connected := Some r\<rparr> | Some _ \<Rightarrow> a)"

definition on_peer_connection_state_change :: "peer_state \<Rightarrow> attempt \<Rightarrow> attempt" where
  "on_peer_connection_state_change s a =
     (case s of
        PcFailed \<Rightarrow> report_connected (Inl ''Connection state: Failed'') a
      | PcDisconnected \<Rightarrow> report_connected (Inl ''Connection state: Disconnected'') a
      | _ \<Rightarrow> a)"

definition on_ice_connection_state_change ::
  "webrtc_config \<Rightarrow> ice_state \<Rightarrow> attempt \<Rightarrow> attempt" where
  "on_ice_connection_state_change cfg s a =
     (let up = report_connected (Inr ()) (a\<lparr>at_log := at_log a @ [log_phase cfg StunConnected None]\<rparr>)
      in case s of
           IceConnected \<Rightarrow> up
         | IceCompleted \<Rightarrow> up
         | IceFailed \<Rightarrow> report_connected (Inl ''ICE state: Failed'') a
         | _ \<Rightarrow> a)"

text \<open>The wait itself, once something has arrived: phase 1, then phase 2.\<close>

definition await_dc_open :: "webrtc_config \<Rightarrow> attempt \<Rightarrow> attempt" where
  "await_dc_open cfg a =
     (if at_stage a = WaitDc \<and> at_dc_open a
      then a\<lparr>at_stage := Finished (Inr ()), at_log := at_log a @ [log_phase cfg DataChannelOpen None]\<rparr>
      else a)"

definition await_connected :: "attempt \<Rightarrow> attempt" where
  "await_connected a =
     (if at_stage a = WaitIce then
        (case at_connected a of
           None \<Rightarrow> a
         | Some (Inr _) \<Rightarrow> a\<lparr>at_stage := WaitDc\<rparr>
         | Some (Inl e) \<Rightarrow> a\<lparr>at_stage := Finished (Inl [''WebRTC connection failed: '' @ e])\<rparr>)
      else a)"

definition on_connect_timer ::
  "(string \<Rightarrow> string option) \<Rightarrow> webrtc_config \<Rightarrow> attempt \<Rightarrow> attempt" where
  "on_connect_timer var cfg a =
     (if at_stage a = WaitIce
      then a\<lparr>at_log := at_log a @ [log_phase cfg StunTimeout None],
             at_stage := Finished (Inl [''WebRTC ICE timeout ('' @
               show_nat (unat (resolve_parallel_connect_timeout var cfg)) @ ''s)''])\<rparr>
      else a)"

definition on_grace_timer :: "(string \<Rightarrow> string option) \<Rightarrow> attempt \<Rightarrow> attempt" where
  "on_grace_timer var a =
     (if at_stage a = WaitDc
      then a\<lparr>at_stage := Finished (Inl [''WebRTC DataChannel open timeout ('' @
               show_nat (unat (resolve_datachannel_open_grace var)) @ ''s) after ICE connected''])\<rparr>
      else a)"

definition attempt_step ::
  "(string \<Rightarrow> string option) \<Rightarrow> webrtc_config \<Rightarrow> attempt \<Rightarrow> rtc_event \<Rightarrow> attempt" where
  "attempt_step var cfg a e =
     await_dc_open cfg (await_connected
       (case e of
          PeerState s \<Rightarrow> on_peer_connection_state_change s a
        | IceState s \<Rightarrow> on_ice_connection_state_change cfg s a
        | DcOpened \<Rightarrow> a\<lparr>at_dc_open := True\<rparr>
        | ConnectTimer \<Rightarrow> on_connect_timer var cfg a
        | GraceTimer \<Rightarrow> on_grace_timer var a))"

text \<open>The whole attempt over the events that arrive while it waits; \<open>None\<close> is an attempt that is
  still waiting after the last of them.\<close>

definition attempt_webrtc ::
  "('v, 'd, 'c) signal_json \<Rightarrow> 'd rtc_stack \<Rightarrow> (string \<Rightarrow> string option) \<Rightarrow> rtc_event list \<Rightarrow>
   webrtc_config \<Rightarrow> ice_server list \<Rightarrow> log_line list \<times> (anyhow + string) option" where
  "attempt_webrtc js st var es cfg servers =
     (let nets = (LogInfo, ''WebRTC: ICE network types = '' @
                           render_network_types (ice_network_types_for_servers var servers))
      in case peer_setup st var cfg servers of
           Inl e \<Rightarrow> ([nets], Some (Inl e))
         | Inr _ \<Rightarrow>
         (case signaling_setup st cfg of
            (l1, Inl e) \<Rightarrow> (nets # l1, Some (Inl e))
          | (l1, Inr _) \<Rightarrow>
          (case send_offer js st cfg of
             (l2, Inl e) \<Rightarrow> (nets # l1 @ l2, Some (Inl e))
           | (l2, Inr _) \<Rightarrow>
               let a = run_steps (attempt_step var cfg) attempt_new es in
               (nets # l1 @ l2 @ at_log a,
                (case at_stage a of
                   Finished (Inl e) \<Rightarrow> Some (Inl e)
                 | Finished (Inr _) \<Rightarrow> Some (Inr ''rt-data'')
                 | _ \<Rightarrow> None)))))"

section \<open>Connecting\<close>

definition connect_preamble ::
  "(string \<Rightarrow> string option) \<Rightarrow> webrtc_config \<Rightarrow> log_line list" where
  "connect_preamble var cfg =
     [(LogInfo, bootstrap_tag cfg @ ''WebRTC: preparing parallel ICE (STUN+TURN)...'')] @
     (if route_requires_relay var cfg
      then [(LogInfo, bootstrap_tag cfg @ ''route_type=turn_relay -> enforcing relay-only ICE policy'')]
      else []) @ [log_phase cfg StunStart None]"

text \<open>\<open>attempt\<close> is \<open>attempt_webrtc\<close> at the stack and the events of the run.\<close>

definition connect ::
  "(webrtc_config \<Rightarrow> log_line list \<times> (anyhow + turn_credential_response)) \<Rightarrow>
   (webrtc_config \<Rightarrow> ice_server list \<Rightarrow> log_line list \<times> (anyhow + string) option) \<Rightarrow>
   (string \<Rightarrow> string option) \<Rightarrow> webrtc_config \<Rightarrow>
   log_line list \<times> (anyhow + string \<times> connection_type) option" where
  "connect fetch try_ice var cfg =
     (let (fetch_log, fetched) = fetch cfg;
          (server_log, built) = build_ice_servers var (route_requires_relay var cfg) fetched;
          l = connect_preamble var cfg @ fetch_log @ server_log
      in case built of
           Inl e \<Rightarrow> (l, Some (Inl e))
         | Inr (servers, turn_enabled) \<Rightarrow>
             (case try_ice cfg servers of
                (l', None) \<Rightarrow> (l @ l', None)
              | (l', Some (Inl e)) \<Rightarrow>
                  (l @ l', Some (Inl (''WebRTC failed during parallel ICE attempt'' # e)))
              | (l', Some (Inr dc)) \<Rightarrow>
                  if turn_enabled then
                    (l @ l' @ [(LogInfo, bootstrap_tag cfg @
                       ''WebRTC: connected (parallel ICE with TURN relay enabled)'')],
                     Some (Inr (dc, Turn)))
                  else (l @ l' @ [log_stun_success], Some (Inr (dc, Stun)))))"

section \<open>The signalling task\<close>

datatype ws_message = WsText string | WsBinary bytes

datatype 'c signal_event = LocalCandidate "'c option" | ForwardCandidate | WsReceived ws_message

text \<open>The task beside the attempt: the queue of local candidates, what it sent, and what it gave
  the peer connection. A WebSocket that ends only disables its branch, so the task goes on.\<close>

record ('d, 'c) signal_task =
  sg_running :: bool
  sg_ice :: "'c mpsc"
  sg_sent :: "string list"
  sg_remote :: "'d list"
  sg_added :: "'c list"
  sg_log :: "log_line list"

definition signal_task_new :: "('d, 'c) signal_task" where
  "signal_task_new =
     \<lparr>sg_running = True, sg_ice = mpsc_new 32, sg_sent = [], sg_remote = [], sg_added = [],
      sg_log = []\<rparr>"

definition on_ice_candidate :: "'c option \<Rightarrow> ('d, 'c) signal_task \<Rightarrow> ('d, 'c) signal_task" where
  "on_ice_candidate c t =
     (case c of
        None \<Rightarrow> t
      | Some init \<Rightarrow>
          (case mpsc_send init (sg_ice t) of Sent q \<Rightarrow> t\<lparr>sg_ice := q\<rparr> | _ \<Rightarrow> t))"

definition candidate_text ::
  "('v, 'd, 'c) signal_json \<Rightarrow> webrtc_config \<Rightarrow> 'c \<Rightarrow> string list" where
  "candidate_text js cfg candidate =
     (let v = (case sj_of_candidate js candidate of Inr v \<Rightarrow> v | Inl _ \<Rightarrow> sj_null js) in
      case sj_to_string js (signal_of cfg ''ice-candidate'' v) of Inr json \<Rightarrow> [json] | Inl _ \<Rightarrow> [])"

definition forward_candidate ::
  "('v, 'd, 'c) signal_json \<Rightarrow> webrtc_config \<Rightarrow> ('d, 'c) signal_task \<Rightarrow> ('d, 'c) signal_task" where
  "forward_candidate js cfg t =
     (case mpsc_recv (sg_ice t) of
        Received candidate q \<Rightarrow>
          t\<lparr>sg_ice := q, sg_sent := sg_sent t @ candidate_text js cfg candidate\<rparr>
      | _ \<Rightarrow> t)"

definition handle_signal ::
  "('v, 'd, 'c) signal_json \<Rightarrow> webrtc_config \<Rightarrow> 'v signal_message \<Rightarrow> ('d, 'c) signal_task \<Rightarrow>
   ('d, 'c) signal_task" where
  "handle_signal js cfg sig t =
     (if sm_type sig = ''answer'' then
        (case Option.bind (sm_payload sig) (sj_to_description js) of
           Some answer \<Rightarrow>
             t\<lparr>sg_remote := sg_remote t @ [answer],
               sg_log := sg_log t @ [log_phase cfg AnswerReceived None]\<rparr>
         | None \<Rightarrow> t)
      else if sm_type sig = ''ice-candidate'' then
        (case Option.bind (sm_payload sig) (sj_to_candidate js) of
           Some init \<Rightarrow> t\<lparr>sg_added := sg_added t @ [init]\<rparr>
         | None \<Rightarrow> t)
      else if sm_type sig = ''bye'' then
        t\<lparr>sg_running := False, sg_ice := (sg_ice t)\<lparr>rx_open := False\<rparr>\<rparr>
      else t)"

definition signal_step ::
  "('v, 'd, 'c) signal_json \<Rightarrow> webrtc_config \<Rightarrow> ('d, 'c) signal_task \<Rightarrow> 'c signal_event \<Rightarrow>
   ('d, 'c) signal_task" where
  "signal_step js cfg t e =
     (case e of
        LocalCandidate c \<Rightarrow> on_ice_candidate c t
      | ForwardCandidate \<Rightarrow> if sg_running t then forward_candidate js cfg t else t
      | WsReceived m \<Rightarrow>
          if \<not> sg_running t then t
          else
            (case m of
               WsText txt \<Rightarrow>
                 (case sj_from_str js txt of Some sig \<Rightarrow> handle_signal js cfg sig t | None \<Rightarrow> t)
             | _ \<Rightarrow> t))"

end
