(* ===== verification/Webrtc_Laws.thy ===== *)
theory Webrtc_Laws
  imports Webrtc_Client "HOL-Library.Sublist"
begin

text \<open>
  What the WebRTC client promises: the URLs it builds keep the security of the platform's URL, its
  time limits are bounded, relay-only mode never leaves the relay, an attempt ends and succeeds
  exactly when ICE and then the data channel come up in time, and the signalling task relays
  candidates and answers in order.
\<close>

section \<open>Normalised TURN URLs\<close>

lemma starts_with_append [simp]: "starts_with (p @ s) p"
  by (simp add: starts_with_def)

lemma takeWhile_neq_append: "c \<notin> set s \<Longrightarrow> takeWhile (\<lambda>d. d \<noteq> c) (s @ c # t) = s"
  by (induction s) auto

lemma dropWhile_neq_append: "c \<notin> set s \<Longrightarrow> dropWhile (\<lambda>d. d \<noteq> c) (s @ c # t) = c # t"
  by (induction s) auto

lemma split_once_append: "c \<notin> set s \<Longrightarrow> split_once c (s @ c # t) = Some (s, t)"
  by (simp add: split_once_def takeWhile_neq_append dropWhile_neq_append)

lemma split_once_fst: "split_once c s = Some (a, b) \<Longrightarrow> c \<notin> set a \<and> set a \<subseteq> set s"
  by (auto simp: split_once_def dest: set_takeWhileD split: if_splits)

text \<open>The base of a URL is lower case and has no query mark.\<close>

lemma split_turn_url_base:
  assumes "split_turn_url url = (base, q)"
  shows "CHR ''?'' \<notin> set base \<and> to_ascii_lowercase base = base"
proof -
  have low: "to_ascii_lowercase x = x" if "set x \<subseteq> set (to_ascii_lowercase (trim url))" for x
  proof -
    have "\<forall>c \<in> set x. ascii_lower c = c" using that by (auto simp: to_ascii_lowercase_def)
    then show ?thesis by (simp add: to_ascii_lowercase_def map_idI)
  qed
  show ?thesis
  proof (cases "split_once CHR ''?'' (to_ascii_lowercase (trim url))")
    case None
    then have "base = to_ascii_lowercase (trim url)" "CHR ''?'' \<notin> set base"
      using assms by (auto simp: split_turn_url_def Let_def split_once_def split: if_splits)
    then show ?thesis by simp
  next
    case (Some p)
    then obtain b where b: "split_once CHR ''?'' (to_ascii_lowercase (trim url)) = Some (base, b)"
      using assms by (cases p) (auto simp: split_turn_url_def Let_def)
    then show ?thesis using split_once_fst[OF b] low by blast
  qed
qed

text \<open>What the expansion writes is read back with its transport.\<close>

lemma transport_query [simp]:
  "parse_turn_transport_query ''transport=udp'' = Some ''udp''"
  "parse_turn_transport_query ''transport=tcp'' = Some ''tcp''"
  by code_simp+

lemma turn_url_split:
  assumes "CHR ''?'' \<notin> set host" "to_ascii_lowercase host = host"
  shows "split_turn_url (turn_udp_url host) = (''turn:'' @ host, Some ''udp'')"
    and "split_turn_url (turn_tcp_url host) = (''turn:'' @ host, Some ''tcp'')"
proof -
  have norm: "to_ascii_lowercase (trim (''turn:'' @ host @ q)) = ''turn:'' @ host @ q"
    if "q = ''?transport=udp'' \<or> q = ''?transport=tcp''" for q
  proof -
    have "visible (hd (''turn:'' @ host @ q))" by (simp, code_simp)
    moreover have "visible (last (''turn:'' @ host @ q))" using that by (auto, code_simp+)
    ultimately have "trim (''turn:'' @ host @ q) = ''turn:'' @ host @ q" by (rule trim_visible)
    moreover have "to_ascii_lowercase q = q" using that by (auto, code_simp+)
    moreover have "to_ascii_lowercase ''turn:'' = ''turn:''" by code_simp
    ultimately show ?thesis using assms(2) by (simp add: to_ascii_lowercase_def)
  qed
  have free: "CHR ''?'' \<notin> set (''turn:'' @ host)" using assms(1) by simp
  have "split_once CHR ''?'' (''turn:'' @ host @ ''?transport=udp'') = Some (''turn:'' @ host, ''transport=udp'')"
    using split_once_append[OF free, of "''transport=udp''"] by simp
  then show "split_turn_url (turn_udp_url host) = (''turn:'' @ host, Some ''udp'')"
    using norm[of "''?transport=udp''"] by (simp add: split_turn_url_def turn_udp_url_def Let_def)
  have "split_once CHR ''?'' (''turn:'' @ host @ ''?transport=tcp'') = Some (''turn:'' @ host, ''transport=tcp'')"
    using split_once_append[OF free, of "''transport=tcp''"] by simp
  then show "split_turn_url (turn_tcp_url host) = (''turn:'' @ host, Some ''tcp'')"
    using norm[of "''?transport=tcp''"] by (simp add: split_turn_url_def turn_tcp_url_def Let_def)
qed


text \<open>The two URL forms, and the parts of a URL they come from.\<close>

lemma strip_base:
  assumes "split_turn_url url = (base, q)"
  shows "CHR ''?'' \<notin> set (trim_start_matches p base) \<and>
         to_ascii_lowercase (trim_start_matches p base) = trim_start_matches p base"
proof -
  obtain pre where pre: "base = pre @ trim_start_matches p base"
    unfolding trim_start_matches_def using strip_pats_suffix by blast
  have base: "CHR ''?'' \<notin> set base" "to_ascii_lowercase base = base"
    using split_turn_url_base[OF assms] by simp_all
  have "\<forall>c \<in> set base. ascii_lower c = c"
    using base(2) by (metis map_eq_conv to_ascii_lowercase_def list.map_ident)
  moreover have "set (trim_start_matches p base) \<subseteq> set base"
    by (subst (2) pre) simp
  ultimately show ?thesis using base(1) by (auto simp: to_ascii_lowercase_def intro!: map_idI)
qed

lemma expand_turn_urls_form:
  assumes "u \<in> set (expand_turn_urls raw tcp_enabled)"
  obtains host where "CHR ''?'' \<notin> set host" "to_ascii_lowercase host = host"
    "u = turn_udp_url host \<or> tcp_enabled \<and> u = turn_tcp_url host"
proof -
  obtain base q where bq: "split_turn_url raw = (base, q)" by (cases "split_turn_url raw")
  have "\<exists>p. u = turn_udp_url (trim_start_matches p base) \<or>
             tcp_enabled \<and> u = turn_tcp_url (trim_start_matches p base)"
    using assms by (auto simp: expand_turn_urls_def bq Let_def split: if_splits option.splits)
  then show thesis using that strip_base[OF bq] by blast
qed

lemma turn_url_transport_form:
  assumes "CHR ''?'' \<notin> set host" "to_ascii_lowercase host = host"
  shows "turn_url_transport (turn_udp_url host) = Some TurnUdp"
    and "turn_url_transport (turn_tcp_url host) = Some TurnTcp"
  by (simp_all add: turn_url_transport_def turn_url_split[OF assms] starts_with_def)

lemma expand_supported:
  "u \<in> set (expand_turn_urls raw tcp_enabled) \<Longrightarrow> is_supported_turn_url u tcp_enabled"
  by (erule expand_turn_urls_form)
     (auto simp: is_supported_turn_url_def turn_url_transport_form)

lemma set_filter_supported:
  "set (filter_supported_turn_urls var urls) \<subseteq>
     (\<Union>raw \<in> set urls. set (expand_turn_urls raw
        (env_flag_enabled_with_default var ''ROBOAT_WEBRTC_TCP_ENABLED'' False)))"
  by (auto simp: filter_supported_turn_urls_def push_new_first_occurrences expand_all_def Let_def
        split: if_splits)

lemma distinct_filter_supported: "distinct (filter_supported_turn_urls var urls)"
  by (auto simp: filter_supported_turn_urls_def push_new_first_occurrences Let_def)

lemma turns_base:
  assumes "split_turn_url raw = (base, q)"
  shows "starts_with (to_ascii_lowercase (trim raw)) ''turns:'' \<Longrightarrow> starts_with base ''turns:''"
proof -
  define n where "n = to_ascii_lowercase (trim raw)"
  assume "starts_with (to_ascii_lowercase (trim raw)) ''turns:''"
  then obtain r where r: "n = ''turns:'' @ r"
    unfolding n_def starts_with_def by (metis append_take_drop_id)
  have "base = n \<or> base = takeWhile (\<lambda>d. d \<noteq> CHR ''?'') n"
    using assms by (auto simp: split_turn_url_def Let_def split_once_def n_def[symmetric] split: if_splits)
  then show "starts_with base ''turns:''" by (auto simp: r starts_with_def)
qed

lemma expand_turns_tcp:
  assumes "starts_with (to_ascii_lowercase (trim raw)) ''turns:''"
    and "u \<in> set (expand_turn_urls raw tcp_enabled)"
  shows "turn_url_transport u = Some TurnTcp"
proof -
  obtain base q where bq: "split_turn_url raw = (base, q)" by (cases "split_turn_url raw")
  have "u = turn_tcp_url (trim_start_matches ''turns:'' base)"
    using assms turns_base[OF bq] by (auto simp: expand_turn_urls_def bq split: if_splits)
  then show ?thesis using strip_base[OF bq] by (simp add: turn_url_transport_form)
qed

lemma expand_all_urls: "map fst (expand_all tcp urls) = concat (map (\<lambda>raw. expand_turn_urls raw tcp) urls)"
  by (induction urls) (simp_all add: expand_all_def Let_def comp_def)

lemma expand_all_tls:
  "map fst (filter snd (expand_all tcp urls)) =
     concat (map (\<lambda>raw. expand_turn_urls raw tcp)
       (filter (\<lambda>raw. starts_with (to_ascii_lowercase (trim raw)) ''turns:'') urls))"
proof (induction urls)
  case Nil
  then show ?case by (simp add: expand_all_def)
next
  case (Cons raw urls)
  let ?t = "starts_with (to_ascii_lowercase (trim raw)) ''turns:''"
  have "filter (\<lambda>u. ?t \<and> turn_url_transport u = Some TurnTcp) (expand_turn_urls raw tcp) =
      (if ?t then expand_turn_urls raw tcp else [])"
    by (auto simp: filter_id_conv expand_turns_tcp)
  then have "map fst (filter snd (map (\<lambda>u. (u, ?t \<and> turn_url_transport u = Some TurnTcp))
      (expand_turn_urls raw tcp))) = (if ?t then expand_turn_urls raw tcp else [])"
    by (simp add: filter_map comp_def)
  then show ?case using Cons.IH by (simp add: expand_all_def Let_def)
qed

lemma first_occurrences_Nil_iff [simp]: "first_occurrences xs = [] \<longleftrightarrow> xs = []"
  by (cases xs) auto

lemma expand_plain: "u \<in> set (expand_turn_urls raw tcp) \<Longrightarrow> starts_with u ''turn:''"
  by (erule expand_turn_urls_form) (auto simp: turn_udp_url_def turn_tcp_url_def starts_with_def)

lemma filter_supported_plain:
  assumes "u \<in> set (filter_supported_turn_urls var urls)"
  shows "starts_with u ''turn:''"
    and "is_supported_turn_url u (env_flag_enabled_with_default var ''ROBOAT_WEBRTC_TCP_ENABLED'' False)"
  using assms set_filter_supported[of var urls] by (auto intro: expand_supported expand_plain)

text \<open>C16: The TURN URLs an attempt is given are the first occurrences of the expansions, in order,
  of every URL the platform sent, or only of its \<open>turns:\<close> URLs when TLS is demanded and there is
  one; every one of them is plain \<open>turn:\<close> with an explicit transport, the transport is one the
  stack is configured for, and no URL occurs twice.\<close>

theorem filter_supported_turn_urls_spec:
  "filter_supported_turn_urls var urls =
     (let tcp = env_flag_enabled_with_default var ''ROBOAT_WEBRTC_TCP_ENABLED'' False;
          tls_only = (tcp \<and> env_flag_enabled_with_default var ''ROBOAT_WEBRTC_TURN_TLS_ONLY'' False);
          of_urls = (\<lambda>us. concat (map (\<lambda>raw. expand_turn_urls raw tcp) us));
          tls_urls = filter (\<lambda>raw. starts_with (to_ascii_lowercase (trim raw)) ''turns:'') urls
      in first_occurrences
           (if tls_only \<and> of_urls tls_urls \<noteq> [] then of_urls tls_urls else of_urls urls)) \<and>
   distinct (filter_supported_turn_urls var urls) \<and>
   (\<forall>u \<in> set (filter_supported_turn_urls var urls).
      starts_with u ''turn:'' \<and>
      is_supported_turn_url u (env_flag_enabled_with_default var ''ROBOAT_WEBRTC_TCP_ENABLED'' False))"
proof (intro conjI ballI)
  let ?tcp = "env_flag_enabled_with_default var ''ROBOAT_WEBRTC_TCP_ENABLED'' False"
  let ?tls = "concat (map (\<lambda>raw. expand_turn_urls raw ?tcp)
    (filter (\<lambda>raw. starts_with (to_ascii_lowercase (trim raw)) ''turns:'') urls))"
  show "filter_supported_turn_urls var urls =
     (let tcp = ?tcp;
          tls_only = (tcp \<and> env_flag_enabled_with_default var ''ROBOAT_WEBRTC_TURN_TLS_ONLY'' False);
          of_urls = (\<lambda>us. concat (map (\<lambda>raw. expand_turn_urls raw tcp) us));
          tls_urls = filter (\<lambda>raw. starts_with (to_ascii_lowercase (trim raw)) ''turns:'') urls
      in first_occurrences
           (if tls_only \<and> of_urls tls_urls \<noteq> [] then of_urls tls_urls else of_urls urls))"
    by (cases "?tcp \<and> env_flag_enabled_with_default var ''ROBOAT_WEBRTC_TURN_TLS_ONLY'' False";
        cases "?tls = []")
       (simp_all only: filter_supported_turn_urls_def Let_def push_new_Nil expand_all_tls
          expand_all_urls first_occurrences_Nil_iff simp_thms if_True if_False first_occurrences.simps)
qed (simp_all add: distinct_filter_supported filter_supported_plain)

definition demo_var :: "string \<Rightarrow> string option" where
  "demo_var name =
     (if name = ''ROBOAT_WEBRTC_TCP_ENABLED'' then Some ''1''
      else if name = ''ROBOAT_WEBRTC_TURN_TLS_ONLY'' then Some ''YES '' else None)"

lemma demo_urls:
  "expand_turn_urls ''turn:h'' True = [''turn:h?transport=udp'', ''turn:h?transport=tcp'']"
  "expand_turn_urls ''TURNS:h'' True = [''turn:h?transport=tcp'']"
  "env_flag_enabled_with_default demo_var ''ROBOAT_WEBRTC_TCP_ENABLED'' False = True"
  "env_flag_enabled_with_default demo_var ''ROBOAT_WEBRTC_TURN_TLS_ONLY'' False = True"
  "starts_with (to_ascii_lowercase (trim ''TURNS:h'')) ''turns:'' = True"
  "starts_with (to_ascii_lowercase (trim ''turn:h'')) ''turns:'' = False"
  by code_simp+

theorem filter_supported_turn_urls_spec_witness:
  "filter_supported_turn_urls demo_var [''turn:h'', ''TURNS:h''] = [''turn:h?transport=tcp''] \<and>
   is_supported_turn_url ''turn:h?transport=tcp'' True"
proof -
  note spec = filter_supported_turn_urls_spec[of demo_var "[''turn:h'', ''TURNS:h'']", unfolded Let_def demo_urls]
  have eq: "filter_supported_turn_urls demo_var [''turn:h'', ''TURNS:h''] = [''turn:h?transport=tcp'']"
    using conjunct1[OF spec] by (simp add: demo_urls)
  moreover have "is_supported_turn_url ''turn:h?transport=tcp'' True"
    using conjunct2[OF conjunct2[OF spec]] unfolding eq by simp
  ultimately show ?thesis by (rule conjI)
qed

text \<open>A TURN URL yields a candidate URL exactly when the client calls it supported, with one
  exception: a \<open>turns:\<close> URL whose query names a transport other than UDP and TCP is called
  unsupported (and warned about) and used over TCP all the same.\<close>

lemma expand_matches_supported:
  "expand_turn_urls url tcp_enabled \<noteq> [] \<longleftrightarrow>
     is_supported_turn_url url tcp_enabled \<or>
     tcp_enabled \<and> starts_with (fst (split_turn_url url)) ''turns:'' \<and>
     (\<exists>t. snd (split_turn_url url) = Some t \<and> t \<noteq> ''udp'' \<and> t \<noteq> ''tcp'')"
  by (auto simp: expand_turn_urls_def is_supported_turn_url_def turn_url_transport_def Let_def
        split: prod.splits option.splits if_splits)

section \<open>URLs and time limits\<close>

lemma trim_end_matches_replicate:
  assumes "s \<noteq> []" "last s \<noteq> c"
  shows "trim_end_matches c (s @ replicate n c) = s"
proof -
  have "dropWhile (\<lambda>d. d = c) (replicate n c @ rev s) = rev s"
    using assms by (induction n) (auto simp: dropWhile_eq_self_iff hd_rev)
  then show ?thesis by (simp add: trim_end_matches_def)
qed

text \<open>Whatever scheme the platform's URL is written with and however many slashes end it, the
  signalling and the credential URL address the same host, and both are encrypted exactly when the
  platform's URL is: \<open>https\<close> and \<open>wss\<close> give \<open>wss\<close> and \<open>https\<close>, \<open>http\<close> and \<open>ws\<close> give \<open>ws\<close> and \<open>http\<close>.\<close>

lemma platform_urls_keep_security:
  assumes "h \<noteq> []" and "last h \<noteq> CHR ''/''"
    and "wc_platform_url cfg = scheme @ ''://'' @ h @ replicate n CHR ''/''"
    and "scheme \<in> (if secure then {''https'', ''wss''} else {''http'', ''ws''})"
  shows "signaling_url cfg =
      (if secure then ''wss'' else ''ws'') @ ''://'' @ h @ ''/api/signal/'' @ wc_robot_id cfg @
      ''?role=agent'' @ bootstrap_suffix cfg \<and>
    turn_credentials_url cfg =
      (if secure then ''https'' else ''http'') @ ''://'' @ h @ ''/api/turn-credentials?robot_id='' @
      wc_robot_id cfg @ bootstrap_suffix cfg"
proof -
  have "trim_end_matches CHR ''/'' (wc_platform_url cfg) = scheme @ ''://'' @ h"
    using trim_end_matches_replicate[of "scheme @ ''://'' @ h" "CHR ''/''" n] assms(1-3) by simp
  then show ?thesis
    using assms(4)
    by (auto simp: signaling_url_def turn_credentials_url_def signaling_base_url_def http_base_url_def
          strip_prefix_str_def starts_with_def split: if_splits)
qed

definition demo_cfg :: webrtc_config where
  "demo_cfg =
     \<lparr>wc_platform_url = ''wss://api.robotunnel.io//'', wc_robot_id = ''r1'', wc_api_key = ''k'',
      wc_stun_timeout_secs = 8, wc_bootstrap_id = Some ''b'', wc_route_type = Some '' TURN_relay''\<rparr>"

lemma platform_urls_keep_security_example:
  "turn_credentials_url demo_cfg =
     ''https://api.robotunnel.io/api/turn-credentials?robot_id=r1&bootstrap_id=b''"
  using platform_urls_keep_security[of "''api.robotunnel.io''" demo_cfg "''wss''" 2 True]
  by (simp add: demo_cfg_def bootstrap_suffix_def numeral_2_eq_2)

text \<open>Whatever the configuration and the environment say, an attempt waits two to four seconds
  for ICE and one to twelve seconds for the data channel.\<close>

lemma wait_limits_bounded:
  "2 \<le> resolve_parallel_connect_timeout var cfg \<and> resolve_parallel_connect_timeout var cfg \<le> 4 \<and>
   1 \<le> resolve_datachannel_open_grace var \<and> resolve_datachannel_open_grace var \<le> 12"
proof -
  have pos: "1 \<le> x" if "x \<noteq> 0" for x :: u64
    using that by (simp add: word_le_nat_alt) (metis Suc_leI unat_gt_0)
  show ?thesis
    by (auto simp: resolve_parallel_connect_timeout_def resolve_datachannel_open_grace_def Let_def
          not_less pos)
qed

section \<open>The wait for a connection\<close>

fun ice_up :: "rtc_event \<Rightarrow> bool" where
  "ice_up (IceState IceConnected) = True"
| "ice_up (IceState IceCompleted) = True"
| "ice_up _ = False"

fun ice_down :: "rtc_event \<Rightarrow> bool" where
  "ice_down (PeerState PcFailed) = True"
| "ice_down (PeerState PcDisconnected) = True"
| "ice_down (IceState IceFailed) = True"
| "ice_down _ = False"

definition decides_ice :: "rtc_event \<Rightarrow> bool" where
  "decides_ice e \<longleftrightarrow> ice_up e \<or> ice_down e \<or> e = ConnectTimer"

lemmas attempt_defs = attempt_step_def await_dc_open_def await_connected_def report_connected_def
  on_peer_connection_state_change_def on_ice_connection_state_change_def on_connect_timer_def
  on_grace_timer_def Let_def

lemma attempt_finished: "at_stage a = Finished r \<Longrightarrow> at_stage (attempt_step var cfg a e) = Finished r"
  by (cases e) (auto simp: attempt_defs split: peer_state.splits ice_state.splits option.splits)

lemma attempt_finished_run:
  "at_stage a = Finished r \<Longrightarrow> at_stage (run_steps (attempt_step var cfg) a es) = Finished r"
  by (induction es arbitrary: a) (simp_all add: attempt_finished)

text \<open>Waiting for ICE.\<close>

definition waits_ice :: "bool \<Rightarrow> attempt \<Rightarrow> bool" where
  "waits_ice opened a \<longleftrightarrow> at_stage a = WaitIce \<and> at_connected a = None \<and> at_dc_open a = opened"

lemma waits_ice_quiet:
  assumes "waits_ice opened a" "\<not> decides_ice e"
  shows "waits_ice (opened \<or> e = DcOpened) (attempt_step var cfg a e)"
proof (cases e)
  case (PeerState s)
  then show ?thesis using assms by (cases s) (auto simp: waits_ice_def decides_ice_def attempt_defs)
next
  case (IceState s)
  then show ?thesis using assms by (cases s) (auto simp: waits_ice_def decides_ice_def attempt_defs)
qed (use assms in \<open>auto simp: waits_ice_def decides_ice_def attempt_defs\<close>)

lemma waits_ice_run:
  "waits_ice opened a \<Longrightarrow> \<forall>e \<in> set es. \<not> decides_ice e \<Longrightarrow>
   waits_ice (opened \<or> DcOpened \<in> set es) (run_steps (attempt_step var cfg) a es)"
proof (induction es arbitrary: a opened)
  case Nil
  then show ?case by simp
next
  case (Cons e es)
  have "waits_ice (opened \<or> e = DcOpened) (attempt_step var cfg a e)"
    using Cons.prems by (intro waits_ice_quiet) auto
  from Cons.IH[OF this] show ?case using Cons.prems(2) by (simp add: disj_assoc eq_commute[of DcOpened])
qed

lemma ice_up_step:
  assumes "waits_ice opened a" "ice_up e"
  shows "at_stage (attempt_step var cfg a e) = (if opened then Finished (Inr ()) else WaitDc)"
    and "at_dc_open (attempt_step var cfg a e) = opened"
    and "at_connected (attempt_step var cfg a e) = Some (Inr ())"
  using assms by (cases e rule: ice_up.cases; auto simp: waits_ice_def attempt_defs)+

lemma ice_not_up_step:
  assumes "waits_ice opened a" "ice_down e \<or> e = ConnectTimer"
  shows "\<exists>err. at_stage (attempt_step var cfg a e) = Finished (Inl err)"
  using assms by (cases e rule: ice_down.cases) (auto simp: waits_ice_def attempt_defs)

text \<open>Waiting for the data channel.\<close>

definition waits_dc :: "attempt \<Rightarrow> bool" where
  "waits_dc a \<longleftrightarrow> at_stage a = WaitDc \<and> \<not> at_dc_open a"

lemma waits_dc_step:
  assumes "waits_dc a"
  shows "e \<noteq> DcOpened \<Longrightarrow> e \<noteq> GraceTimer \<Longrightarrow> waits_dc (attempt_step var cfg a e)"
    and "at_stage (attempt_step var cfg a DcOpened) = Finished (Inr ())"
    and "\<exists>err. at_stage (attempt_step var cfg a GraceTimer) = Finished (Inl err)"
  using assms
  by (cases e; auto simp: waits_dc_def attempt_defs split: peer_state.splits ice_state.splits option.splits)+

lemma waits_dc_run:
  "waits_dc a \<Longrightarrow> DcOpened \<notin> set es \<Longrightarrow> GraceTimer \<notin> set es \<Longrightarrow>
   waits_dc (run_steps (attempt_step var cfg) a es)"
  by (induction es arbitrary: a) (simp_all add: waits_dc_step(1) eq_commute[of DcOpened] eq_commute[of GraceTimer])

lemma waits_dc_success:
  assumes "waits_dc a"
  shows "at_stage (run_steps (attempt_step var cfg) a es) = Finished (Inr ()) \<longleftrightarrow>
         (\<exists>mid post. es = mid @ DcOpened # post \<and> GraceTimer \<notin> set mid)"
  using assms
proof (induction es arbitrary: a)
  case Nil
  then show ?case by (simp add: waits_dc_def)
next
  case (Cons e es)
  consider "e = DcOpened" | "e = GraceTimer" | "e \<noteq> DcOpened" "e \<noteq> GraceTimer" by blast
  then show ?case
  proof cases
    case 1
    then have "at_stage (run_steps (attempt_step var cfg) a (e # es)) = Finished (Inr ())"
      using waits_dc_step(2)[OF Cons.prems] by (simp add: attempt_finished_run)
    moreover have "e # es = [] @ DcOpened # es" using 1 by simp
    ultimately show ?thesis by (metis empty_iff empty_set)
  next
    case 2
    then obtain err where "at_stage (attempt_step var cfg a e) = Finished (Inl err)"
      using waits_dc_step(3)[OF Cons.prems] by blast
    then have "at_stage (run_steps (attempt_step var cfg) a (e # es)) = Finished (Inl err)"
      by (simp add: attempt_finished_run)
    then show ?thesis using 2 by (auto simp: Cons_eq_append_conv)
  next
    case 3
    then have "waits_dc (attempt_step var cfg a e)" by (rule waits_dc_step(1)[OF Cons.prems])
    from Cons.IH[OF this] show ?thesis
      using 3 by (auto simp: Cons_eq_append_conv) (metis append_Cons set_ConsD)
  qed
qed

lemma attempt_new_waits: "waits_ice False attempt_new"
  by (simp add: waits_ice_def attempt_new_def)

lemma first_split_unique:
  "xs @ x # ys = xs' @ x' # ys' \<Longrightarrow> P x \<Longrightarrow> P x' \<Longrightarrow> \<forall>z \<in> set xs. \<not> P z \<Longrightarrow> \<forall>z \<in> set xs'. \<not> P z \<Longrightarrow>
   xs = xs' \<and> x = x' \<and> ys = ys'"
proof (induction xs arbitrary: xs')
  case Nil
  then show ?case by (cases xs') auto
next
  case (Cons z xs)
  then show ?case by (cases xs') auto
qed

text \<open>The outcome from the first event that decides about ICE.\<close>

lemma attempt_succeeds_decided:
  assumes "\<forall>x \<in> set pre. \<not> decides_ice x" "decides_ice e"
  shows "at_stage (run_steps (attempt_step var cfg) attempt_new (pre @ e # post)) = Finished (Inr ()) \<longleftrightarrow>
         ice_up e \<and> (DcOpened \<in> set pre \<or>
           (\<exists>mid rest. post = mid @ DcOpened # rest \<and> GraceTimer \<notin> set mid))"
proof -
  let ?a = "run_steps (attempt_step var cfg) attempt_new pre"
  have w: "waits_ice (DcOpened \<in> set pre) ?a"
    using waits_ice_run[OF attempt_new_waits assms(1), of var cfg] by simp
  show ?thesis
  proof (cases "ice_up e")
    case up: True
    show ?thesis
    proof (cases "DcOpened \<in> set pre")
      case True
      then have "at_stage (attempt_step var cfg ?a e) = Finished (Inr ())"
        using ice_up_step(1)[OF w up] by simp
      then show ?thesis using True up by (simp add: run_steps_append attempt_finished_run)
    next
      case False
      then have "waits_dc (attempt_step var cfg ?a e)"
        using ice_up_step[OF w up] by (simp add: waits_dc_def)
      then show ?thesis using False up by (simp add: run_steps_append waits_dc_success)
    qed
  next
    case False
    then have "ice_down e \<or> e = ConnectTimer" using assms(2) by (auto simp: decides_ice_def)
    then obtain err where "at_stage (attempt_step var cfg ?a e) = Finished (Inl err)"
      using ice_not_up_step[OF w] by blast
    then show ?thesis using False by (simp add: run_steps_append attempt_finished_run)
  qed
qed

text \<open>C13: An attempt succeeds exactly when ICE connects before the peer connection fails,
  disconnects or runs out of its time limit, and the data channel opens, before ICE connects or
  after it but within the grace period.\<close>

theorem attempt_succeeds_iff:
  "at_stage (run_steps (attempt_step var cfg) attempt_new es) = Finished (Inr ()) \<longleftrightarrow>
   (\<exists>pre e post. es = pre @ e # post \<and> ice_up e \<and>
      list_all (\<lambda>x. \<not> ice_up x \<and> \<not> ice_down x \<and> x \<noteq> ConnectTimer) pre \<and>
      (DcOpened \<in> set pre \<or>
       (\<exists>mid rest. post = mid @ DcOpened # rest \<and> GraceTimer \<notin> set mid)))"
  (is "?ok es \<longleftrightarrow> ?spec es")
proof (cases "\<exists>x \<in> set es. decides_ice x")
  case False
  have "\<not> ?ok es"
    using waits_ice_run[OF attempt_new_waits, of es var cfg] False by (auto simp: waits_ice_def)
  then show ?thesis using False by (auto simp: decides_ice_def)
next
  case True
  then obtain pre e post where es: "es = pre @ e # post" "decides_ice e"
      "\<forall>x \<in> set pre. \<not> decides_ice x"
    using split_list_first_prop[of es decides_ice] by auto
  have unique: "pre' = pre \<and> e' = e \<and> post' = post"
    if split: "es = pre' @ e' # post'" and up: "ice_up e'"
      and quiet: "list_all (\<lambda>x. \<not> ice_up x \<and> \<not> ice_down x \<and> x \<noteq> ConnectTimer) pre'"
    for pre' e' post'
    using first_split_unique[of pre' e' post' pre e post decides_ice] split es up quiet
    by (auto simp: decides_ice_def list_all_iff)
  have "list_all (\<lambda>x. \<not> ice_up x \<and> \<not> ice_down x \<and> x \<noteq> ConnectTimer) pre"
    using es(3) by (auto simp: decides_ice_def list_all_iff)
  then show ?thesis
    using attempt_succeeds_decided[OF es(3,2)] unique es(1) by (metis (no_types, lifting))
qed

text \<open>C14: An attempt ends: once its time limit for ICE and then its grace period for the data
  channel have run out, it has returned, with a channel or with an error, whatever else happened
  before, between and after.\<close>

theorem attempt_terminates:
  "\<exists>r. at_stage (run_steps (attempt_step var cfg) attempt_new
     (es1 @ ConnectTimer # es2 @ GraceTimer # es3)) = Finished r"
proof -
  have timer: "at_stage (attempt_step var cfg a ConnectTimer) \<noteq> WaitIce" for a
    by (auto simp: attempt_defs)
  have keep: "at_stage (attempt_step var cfg a e) \<noteq> WaitIce" if "at_stage a \<noteq> WaitIce" for a e
    using that by (cases e) (auto simp: attempt_defs split: peer_state.splits ice_state.splits option.splits)
  have keeps: "at_stage (run_steps (attempt_step var cfg) a es) \<noteq> WaitIce" if "at_stage a \<noteq> WaitIce" for a es
    using that by (induction es arbitrary: a) (simp_all add: keep)
  have grace: "\<exists>r. at_stage (attempt_step var cfg a GraceTimer) = Finished r" if "at_stage a \<noteq> WaitIce" for a
    using that by (cases "at_stage a") (auto simp: attempt_defs)
  define b where "b = run_steps (attempt_step var cfg) attempt_new (es1 @ ConnectTimer # es2)"
  have "at_stage b \<noteq> WaitIce" by (simp add: b_def run_steps_append keeps timer)
  then obtain r where "at_stage (attempt_step var cfg b GraceTimer) = Finished r" using grace by blast
  then have "at_stage (run_steps (attempt_step var cfg) b (GraceTimer # es3)) = Finished r"
    by (simp add: attempt_finished_run)
  moreover have "run_steps (attempt_step var cfg) attempt_new (es1 @ ConnectTimer # es2 @ GraceTimer # es3) =
      run_steps (attempt_step var cfg) b (GraceTimer # es3)"
    by (simp add: b_def run_steps_append)
  ultimately show ?thesis by simp
qed

section \<open>Relay-only mode\<close>

lemma build_ice_servers_relay:
  assumes "build_ice_servers var True fetched = (l, Inr (servers, turn_enabled))"
  obtains turn :: turn_credentials where "turn_enabled" "filter_supported_turn_urls var (tc_urls turn) \<noteq> []"
    "servers = [\<lparr>is_urls = filter_supported_turn_urls var (tc_urls turn),
                 is_username = tc_username turn, is_credential = tc_credential turn\<rparr>]"
proof (cases fetched)
  case (Inl e)
  then show thesis using assms by (simp add: build_ice_servers_def)
next
  case (Inr creds)
  then obtain turn where turn: "tr_turn_available creds" "tr_turn creds = Some turn"
    using assms by (auto simp: build_ice_servers_def relay_or_warn_def split: if_splits option.splits)
  show thesis
    using assms that[of turn]
    by (cases "filter_supported_turn_urls var (tc_urls turn) = []")
       (simp_all add: build_ice_servers_def relay_or_warn_def Inr turn Let_def)
qed

lemma attempt_webrtc_success:
  assumes "attempt_webrtc js st var es cfg servers = (l, Some (Inr dc))"
  shows "peer_setup st var cfg servers = Inr ()"
proof (cases "peer_setup st var cfg servers")
  case (Inl e)
  then show ?thesis using assms by (simp add: attempt_webrtc_def Let_def)
qed simp

lemma connect_turn:
  assumes "snd (build_ice_servers var (route_requires_relay var cfg) (snd (fetch cfg))) = Inr (servers, True)"
    and "snd (connect fetch try_ice var cfg) = Some (Inr (dc, ct))"
  shows "ct = Turn \<and> snd (try_ice cfg servers) = Some (Inr dc)"
proof -
  obtain fl fetched where f: "fetch cfg = (fl, fetched)" by (cases "fetch cfg")
  obtain bl where b: "build_ice_servers var (route_requires_relay var cfg) fetched = (bl, Inr (servers, True))"
    using assms(1) f by (metis prod.collapse snd_conv)
  obtain tl r where t: "try_ice cfg servers = (tl, r)" by (cases "try_ice cfg servers")
  show ?thesis
  proof (cases r)
    case None
    then show ?thesis using assms(2) by (simp add: connect_def f b t)
  next
    case (Some x)
    then show ?thesis using assms(2) by (cases x) (simp_all add: connect_def f b t)
  qed
qed

lemma peer_setup_connection:
  "peer_setup st var cfg servers = Inr () \<Longrightarrow>
   rt_new_peer_connection st (ice_network_types_for_servers var servers)
     \<lparr>rc_ice_servers = servers,
      rc_ice_transport_policy = (if route_requires_relay var cfg then PolicyRelay else PolicyDefault)\<rparr> =
   Inr ()"
  by (auto simp: peer_setup_def Let_def split: sum.splits)

text \<open>C15: When the route demands a relay, connecting either fails before any attempt, or makes its
  attempt with a single server that has only TURN URLs: the outcome depends on no other attempt,
  the peer connection of a successful attempt was created with that server alone under the
  relay-only policy, and it is reported as relayed.\<close>

theorem relay_only_stays_on_relay:
  assumes "route_requires_relay var cfg"
  shows "(\<exists>l e. \<forall>try_ice. connect fetch try_ice var cfg = (l, Some (Inl e))) \<or>
    (\<exists>srv. is_urls srv \<noteq> [] \<and> (\<forall>u \<in> set (is_urls srv). starts_with u ''turn:'') \<and>
       (\<forall>try1 try2. try1 cfg [srv] = try2 cfg [srv] \<longrightarrow>
          connect fetch try1 var cfg = connect fetch try2 var cfg) \<and>
       (\<forall>dc ct. snd (connect fetch (attempt_webrtc js st var es) var cfg) = Some (Inr (dc, ct)) \<longrightarrow>
          ct = Turn \<and>
          rt_new_peer_connection st (ice_network_types_for_servers var [srv])
            \<lparr>rc_ice_servers = [srv], rc_ice_transport_policy = PolicyRelay\<rparr> = Inr ()))"
proof -
  obtain fl fetched where f: "fetch cfg = (fl, fetched)" by (cases "fetch cfg")
  obtain bl built where b: "build_ice_servers var True fetched = (bl, built)"
    by (cases "build_ice_servers var True fetched")
  show ?thesis
  proof (cases built)
    case (Inl e)
    then show ?thesis using assms by (auto simp: connect_def f b)
  next
    case (Inr p)
    then obtain servers te where p: "built = Inr (servers, te)" by (cases p) auto
    obtain turn :: turn_credentials where te: "te" and urls: "filter_supported_turn_urls var (tc_urls turn) \<noteq> []"
      and servers: "servers = [\<lparr>is_urls = filter_supported_turn_urls var (tc_urls turn),
                   is_username = tc_username turn, is_credential = tc_credential turn\<rparr>]"
      using b p build_ice_servers_relay by metis
    let ?srv = "hd servers"
    have srv: "servers = [?srv]" "is_urls ?srv = filter_supported_turn_urls var (tc_urls turn)"
      by (simp_all add: servers)
    have same: "connect fetch try1 var cfg = connect fetch try2 var cfg"
      if "try1 cfg [?srv] = try2 cfg [?srv]" for try1 try2
      using that assms by (simp add: connect_def f b p servers)
    have built: "snd (build_ice_servers var (route_requires_relay var cfg) (snd (fetch cfg))) = Inr ([?srv], True)"
      using assms te srv(1) by (simp add: f b p)
    have ok: "ct = Turn \<and> rt_new_peer_connection st (ice_network_types_for_servers var [?srv])
        \<lparr>rc_ice_servers = [?srv], rc_ice_transport_policy = PolicyRelay\<rparr> = Inr ()"
      if "snd (connect fetch (attempt_webrtc js st var es) var cfg) = Some (Inr (dc, ct))" for dc ct
    proof -
      have ct: "ct = Turn" and a: "snd (attempt_webrtc js st var es cfg [?srv]) = Some (Inr dc)"
        using connect_turn[OF built that] by simp_all
      have "peer_setup st var cfg [?srv] = Inr ()"
        using a by (intro attempt_webrtc_success[of js st var es cfg _ _ dc]) (rule prod_eqI, simp_all)
      from peer_setup_connection[OF this] ct show ?thesis using assms by simp
    qed
    have "is_urls ?srv \<noteq> []" "\<forall>u \<in> set (is_urls ?srv). starts_with u ''turn:''"
      unfolding srv(2) using urls filter_supported_plain(1) by blast+
    then show ?thesis using same ok by (intro disjI2 exI[of _ ?srv]) blast
  qed
qed

definition demo_fetch :: "webrtc_config \<Rightarrow> log_line list \<times> (anyhow + turn_credential_response)" where
  "demo_fetch cfg =
     ([], Inr \<lparr>tr_turn_available = True, tr_stun_urls = [''stun:s''],
               tr_turn = Some \<lparr>tc_urls = [''turn:h'', ''TURNS:h''], tc_username = ''u'', tc_credential = ''p'',
                               tc_ttl_seconds = 60\<rparr>\<rparr>)"

definition demo_stack :: "unit rtc_stack" where
  "demo_stack =
     \<lparr>rt_register_codecs = Inr (), rt_register_interceptors = Inr (),
      rt_new_peer_connection = (\<lambda>_ _. Inr ()), rt_create_data_channel = (\<lambda>_. Inr ()),
      rt_client_request = (\<lambda>_. Inr ()), rt_header_value = (\<lambda>_. Inr ()),
      rt_connect_async = (\<lambda>_ _. Inr ()), rt_create_offer = Inr (),
      rt_set_local_description = (\<lambda>_. Inr ()), rt_ws_send = (\<lambda>_. Inr ())\<rparr>"

definition demo_json :: "(string, unit, string) signal_json" where
  "demo_json =
     \<lparr>sj_null = ''null'', sj_of_description = (\<lambda>_. Inr ''sdp''), sj_of_candidate = Inr,
      sj_to_description = (\<lambda>v. if v = ''sdp'' then Some () else None), sj_to_candidate = Some,
      sj_to_string = (\<lambda>m. Inr (sm_type m @ '' '' @ (case sm_payload m of Some v \<Rightarrow> v | None \<Rightarrow> []))),
      sj_from_str = (\<lambda>s. case split_once CHR '' '' s of
         Some (t, v) \<Rightarrow> Some \<lparr>sm_type = t, sm_payload = Some v, sm_robot_id = ''r1'', sm_bootstrap_id = None\<rparr>
       | None \<Rightarrow> None)\<rparr>"

lemma connect_success:
  assumes "snd (build_ice_servers var (route_requires_relay var cfg) (snd (fetch cfg))) = Inr (servers, turn_enabled)"
    and "snd (try_ice cfg servers) = Some (Inr dc)"
  shows "snd (connect fetch try_ice var cfg) = Some (Inr (dc, if turn_enabled then Turn else Stun))"
proof -
  obtain fl fetched where f: "fetch cfg = (fl, fetched)" by (cases "fetch cfg")
  obtain bl where b: "build_ice_servers var (route_requires_relay var cfg) fetched = (bl, Inr (servers, turn_enabled))"
    using assms(1) f by (metis prod.collapse snd_conv)
  obtain tl where t: "try_ice cfg servers = (tl, Some (Inr dc))"
    using assms(2) by (metis prod.collapse)
  show ?thesis by (simp add: connect_def f b t)
qed

lemma attempt_webrtc_result:
  assumes "peer_setup st var cfg servers = Inr ()" and "snd (signaling_setup st cfg) = Inr ()"
    and "snd (send_offer js st cfg) = Inr offer"
    and "at_stage (run_steps (attempt_step var cfg) attempt_new es) = Finished (Inr ())"
  shows "snd (attempt_webrtc js st var es cfg servers) = Some (Inr ''rt-data'')"
proof -
  obtain l1 l2 where "signaling_setup st cfg = (l1, Inr ())" "send_offer js st cfg = (l2, Inr offer)"
    using assms(2,3) by (metis prod.collapse)
  then show ?thesis using assms(1,4) by (simp add: attempt_webrtc_def Let_def)
qed

lemma demo_connects:
  "snd (connect demo_fetch
     (attempt_webrtc demo_json demo_stack demo_var [DcOpened, IceState IceConnected]) demo_var demo_cfg) =
     Some (Inr (''rt-data'', Turn))"
proof -
  have relay: "route_requires_relay demo_var demo_cfg" by code_simp
  have urls: "filter_supported_turn_urls demo_var [''turn:h'', ''TURNS:h''] = [''turn:h?transport=tcp'']"
    unfolding filter_supported_turn_urls_def Let_def push_new_Nil expand_all_tls expand_all_urls
    by (simp add: demo_urls)
  have servers: "snd (build_ice_servers demo_var True (snd (demo_fetch demo_cfg))) =
      Inr ([\<lparr>is_urls = [''turn:h?transport=tcp''], is_username = ''u'', is_credential = ''p''\<rparr>], True)"
    by (simp add: build_ice_servers_def demo_fetch_def Let_def urls)
  have "snd (attempt_webrtc demo_json demo_stack demo_var [DcOpened, IceState IceConnected] demo_cfg srvs) =
      Some (Inr ''rt-data'')" for srvs
    by (rule attempt_webrtc_result[where offer = "''offer sdp''"])
       (simp_all add: peer_setup_def signaling_setup_def send_offer_def signal_of_def demo_stack_def
          demo_json_def attempt_new_def attempt_defs)
  from connect_success[of demo_var demo_cfg demo_fetch _ _ "attempt_webrtc demo_json demo_stack demo_var
      [DcOpened, IceState IceConnected]", unfolded eqTrueI[OF relay], OF servers this]
  show ?thesis by (simp only: if_True)
qed

theorem relay_only_stays_on_relay_witness:
  "route_requires_relay demo_var demo_cfg \<and>
   (\<exists>srv :: ice_server. is_urls srv \<noteq> [] \<and> (\<forall>u \<in> set (is_urls srv). starts_with u ''turn:'') \<and>
     rt_new_peer_connection demo_stack (ice_network_types_for_servers demo_var [srv])
       \<lparr>rc_ice_servers = [srv], rc_ice_transport_policy = PolicyRelay\<rparr> = Inr ())"
proof -
  have relay: "route_requires_relay demo_var demo_cfg" by code_simp
  from relay_only_stays_on_relay[OF relay, of demo_fetch demo_json demo_stack
      "[DcOpened, IceState IceConnected]"]
  show ?thesis
  proof (elim disjE exE conjE)
    fix l e
    assume "\<forall>try_ice. connect demo_fetch try_ice demo_var demo_cfg = (l, Some (Inl e))"
    then have "snd (connect demo_fetch (attempt_webrtc demo_json demo_stack demo_var
        [DcOpened, IceState IceConnected]) demo_var demo_cfg) = Some (Inl e)"
      by (simp only: snd_conv)
    then show ?thesis by (simp only: demo_connects) simp
  next
    fix srv :: ice_server
    assume "is_urls srv \<noteq> []" "\<forall>u \<in> set (is_urls srv). starts_with u ''turn:''"
      "\<forall>dc ct. snd (connect demo_fetch (attempt_webrtc demo_json demo_stack demo_var
          [DcOpened, IceState IceConnected]) demo_var demo_cfg) = Some (Inr (dc, ct)) \<longrightarrow>
        ct = Turn \<and> rt_new_peer_connection demo_stack (ice_network_types_for_servers demo_var [srv])
          \<lparr>rc_ice_servers = [srv], rc_ice_transport_policy = PolicyRelay\<rparr> = Inr ()"
    then show ?thesis using demo_connects relay by blast
  qed
qed

section \<open>Signalling\<close>

definition received_signals ::
  "('v, 'd, 'c) signal_json \<Rightarrow> 'c signal_event list \<Rightarrow> 'v signal_message list" where
  "received_signals js es =
     List.map_filter (\<lambda>e. case e of WsReceived (WsText txt) \<Rightarrow> sj_from_str js txt | _ \<Rightarrow> None) es"

definition before_bye :: "'v signal_message list \<Rightarrow> 'v signal_message list" where
  "before_bye ms = takeWhile (\<lambda>m. sm_type m \<noteq> ''bye'') ms"

definition payloads :: "string \<Rightarrow> ('v \<Rightarrow> 'a option) \<Rightarrow> 'v signal_message list \<Rightarrow> 'a list" where
  "payloads t decode ms =
     List.map_filter (\<lambda>m. if sm_type m = t then Option.bind (sm_payload m) decode else None) ms"

definition local_candidates :: "'c signal_event list \<Rightarrow> 'c list" where
  "local_candidates es = List.map_filter (\<lambda>e. case e of LocalCandidate c \<Rightarrow> c | _ \<Rightarrow> None) es"

lemma before_bye_simps [simp]:
  "before_bye [] = []"
  "sm_type m = ''bye'' \<Longrightarrow> before_bye (m # ms) = []"
  "sm_type m \<noteq> ''bye'' \<Longrightarrow> before_bye (m # ms) = m # before_bye ms"
  by (simp_all add: before_bye_def)

lemma payloads_simps [simp]:
  "payloads t decode [] = []"
  "sm_type m = t \<Longrightarrow> payloads t decode (m # ms) =
     (case Option.bind (sm_payload m) decode of Some x \<Rightarrow> x # payloads t decode ms | None \<Rightarrow> payloads t decode ms)"
  "sm_type m \<noteq> t \<Longrightarrow> payloads t decode (m # ms) = payloads t decode ms"
  by (auto simp: payloads_def List.map_filter_def split: option.splits)

lemma received_signals_simps [simp]:
  "received_signals js [] = []"
  "received_signals js (LocalCandidate c # es) = received_signals js es"
  "received_signals js (ForwardCandidate # es) = received_signals js es"
  "received_signals js (WsReceived (WsBinary b) # es) = received_signals js es"
  "received_signals js (WsReceived (WsText txt) # es) =
     (case sj_from_str js txt of Some m \<Rightarrow> m # received_signals js es | None \<Rightarrow> received_signals js es)"
  by (auto simp: received_signals_def List.map_filter_def split: option.splits)

lemma signal_stopped:
  "\<not> sg_running t \<Longrightarrow>
   \<not> sg_running (signal_step js cfg t e) \<and> sg_remote (signal_step js cfg t e) = sg_remote t \<and>
   sg_added (signal_step js cfg t e) = sg_added t"
  by (cases e) (auto simp: signal_step_def on_ice_candidate_def split: option.splits sent.splits)

lemma signal_quiet:
  "sg_running (on_ice_candidate c t) = sg_running t \<and> sg_remote (on_ice_candidate c t) = sg_remote t \<and>
   sg_added (on_ice_candidate c t) = sg_added t"
  "sg_running (forward_candidate js cfg t) = sg_running t \<and>
   sg_remote (forward_candidate js cfg t) = sg_remote t \<and> sg_added (forward_candidate js cfg t) = sg_added t"
  by (auto simp: on_ice_candidate_def forward_candidate_def split: option.splits sent.splits received.splits)

lemma handle_signal_effect:
  "sg_running (handle_signal js cfg m t) = (sg_running t \<and> sm_type m \<noteq> ''bye'')"
  "sg_remote (handle_signal js cfg m t) = sg_remote t @ payloads ''answer'' (sj_to_description js) [m]"
  "sg_added (handle_signal js cfg m t) = sg_added t @ payloads ''ice-candidate'' (sj_to_candidate js) [m]"
  by (auto simp: handle_signal_def split: option.splits)

lemma payloads_Cons: "payloads t decode (m # ms) = payloads t decode [m] @ payloads t decode ms"
  by (cases "sm_type m = t") (auto split: option.splits)

lemma signal_inbound_run:
  "sg_remote (run_steps (signal_step js cfg) t es) =
     sg_remote t @ (if sg_running t
       then payloads ''answer'' (sj_to_description js) (before_bye (received_signals js es)) else []) \<and>
   sg_added (run_steps (signal_step js cfg) t es) =
     sg_added t @ (if sg_running t
       then payloads ''ice-candidate'' (sj_to_candidate js) (before_bye (received_signals js es)) else [])"
proof (induction es arbitrary: t)
  case Nil
  then show ?case by simp
next
  case (Cons e es)
  show ?case
  proof (cases "sg_running t")
    case False
    then show ?thesis using Cons.IH[of "signal_step js cfg t e"] signal_stopped[OF False, of js cfg e] by simp
  next
    case True
    show ?thesis
    proof (cases e)
      case (WsReceived w)
      show ?thesis
      proof (cases w)
        case (WsText str)
        show ?thesis
        proof (cases "sj_from_str js str")
          case None
          then show ?thesis using True Cons.IH[of t] by (simp add: WsReceived WsText signal_step_def)
        next
          case (Some m)
          then have step: "signal_step js cfg t (WsReceived (WsText str)) = handle_signal js cfg m t"
            using True by (simp add: signal_step_def)
          show ?thesis
            using True Some Cons.IH[of "handle_signal js cfg m t"]
            by (cases "sm_type m = ''bye''")
               (simp_all add: step WsReceived WsText handle_signal_effect payloads_Cons[of _ _ m "before_bye _"])
        qed
      qed (use True Cons.IH[of t] in \<open>simp add: WsReceived signal_step_def\<close>)
    qed (use True Cons.IH in \<open>simp_all add: signal_step_def signal_quiet\<close>)
  qed
qed

text \<open>The local candidates: what was sent and what still waits, in the order they were found.\<close>

lemma signal_outbound_step:
  "\<exists>cs. sg_sent (signal_step js cfg t e) = sg_sent t @ concat (map (candidate_text js cfg) cs) \<and>
     subseq (cs @ items (sg_ice (signal_step js cfg t e))) (items (sg_ice t) @ local_candidates [e])"
proof (cases e)
  case (LocalCandidate c)
  show ?thesis
    by (rule exI[of _ "[]"])
       (auto simp: LocalCandidate signal_step_def on_ice_candidate_def local_candidates_def
          List.map_filter_def dest: mpsc_send_items split: option.splits sent.splits)
next
  case ForwardCandidate
  show ?thesis
  proof (cases "sg_running t \<and> items (sg_ice t) \<noteq> []")
    case True
    then obtain c cs where "items (sg_ice t) = c # cs" by (cases "items (sg_ice t)") auto
    then show ?thesis
      using True
      by (intro exI[of _ "[c]"])
         (simp add: ForwardCandidate signal_step_def forward_candidate_def mpsc_recv_def
            local_candidates_def List.map_filter_def)
  next
    case False
    then have "signal_step js cfg t e = t"
      by (auto simp: ForwardCandidate signal_step_def forward_candidate_def mpsc_recv_def
            split: list.splits)
    then show ?thesis by (intro exI[of _ "[]"]) (simp add: list_emb_prefix)
  qed
next
  case (WsReceived w)
  have "sg_sent (handle_signal js cfg m t) = sg_sent t \<and>
      items (sg_ice (handle_signal js cfg m t)) = items (sg_ice t)" for m
    by (auto simp: handle_signal_def split: option.splits)
  then show ?thesis
    by (intro exI[of _ "[]"])
       (auto simp: WsReceived signal_step_def local_candidates_def List.map_filter_def
          split: ws_message.splits option.splits)
qed

lemma local_candidates_Cons: "local_candidates (e # es) = local_candidates [e] @ local_candidates es"
  by (auto simp: local_candidates_def List.map_filter_def)

lemma signal_outbound_run:
  "\<exists>cs. sg_sent (run_steps (signal_step js cfg) t es) =
       sg_sent t @ concat (map (candidate_text js cfg) cs) \<and>
     subseq (cs @ items (sg_ice (run_steps (signal_step js cfg) t es)))
       (items (sg_ice t) @ local_candidates es)"
proof (induction es arbitrary: t)
  case Nil
  then show ?case by (intro exI[of _ "[]"]) (simp add: local_candidates_def List.map_filter_def)
next
  case (Cons e es)
  let ?u = "signal_step js cfg t e"
  obtain cs where cs: "sg_sent ?u = sg_sent t @ concat (map (candidate_text js cfg) cs)"
      "subseq (cs @ items (sg_ice ?u)) (items (sg_ice t) @ local_candidates [e])"
    using signal_outbound_step by blast
  obtain ds where ds: "sg_sent (run_steps (signal_step js cfg) ?u es) =
        sg_sent ?u @ concat (map (candidate_text js cfg) ds)"
      "subseq (ds @ items (sg_ice (run_steps (signal_step js cfg) ?u es)))
         (items (sg_ice ?u) @ local_candidates es)"
    using Cons.IH by blast
  have "subseq (cs @ ds @ items (sg_ice (run_steps (signal_step js cfg) ?u es)))
      ((cs @ items (sg_ice ?u)) @ local_candidates es)"
    using ds(2) by (simp add: list_emb_append_mono)
  also have "subseq \<dots> ((items (sg_ice t) @ local_candidates [e]) @ local_candidates es)"
    by (rule list_emb_append_mono[OF cs(2)]) simp
  finally show ?case
    using cs(1) ds(1)
    by (intro exI[of _ "cs @ ds"]) (simp add: local_candidates_Cons[of e es])
qed


end
