(* ===== verification/Go_Runtime.thy ===== *)
theory Go_Runtime
  imports Strings
begin

text \<open>
  What the platform services under \<open>go/\<close> use of Go's standard library. A \<open>string\<close> is its bytes;
  \<open>strings.TrimSpace\<close> removes the characters with the White_Space property, as \<open>trim\<close> does. An
  instant is its distance in nanoseconds from the zero \<open>time.Time\<close>, so \<open>UTC()\<close> is the identity,
  and a \<open>Duration\<close> is a number of nanoseconds. A buffered channel that is only used with a
  \<open>default\<close> branch is the list of its messages, oldest first.
\<close>

section \<open>Time\<close>

type_synonym gotime = int
type_synonym duration = int

definition is_zero :: "gotime \<Rightarrow> bool" where
  "is_zero t \<longleftrightarrow> t = 0"

definition millisecond :: duration where "millisecond = 1000000"
definition second :: duration where "second = 1000 * millisecond"
definition minute :: duration where "minute = 60 * second"

text \<open>\<open>t.Sub(u)\<close> saturates at the ends of the 64-bit range.\<close>

definition time_sub :: "gotime \<Rightarrow> gotime \<Rightarrow> duration" where
  "time_sub t u = max (- (2 ^ 63)) (min (2 ^ 63 - 1) (t - u))"

lemma time_sub_le: "0 \<le> d \<Longrightarrow> d < 2 ^ 63 - 1 \<Longrightarrow> time_sub t u \<le> d \<longleftrightarrow> t - u \<le> d"
  by (auto simp: time_sub_def)

lemma time_sub_gt: "0 \<le> d \<Longrightarrow> d < 2 ^ 63 - 1 \<Longrightarrow> d < time_sub t u \<longleftrightarrow> d < t - u"
  using time_sub_le[of d t u] by (simp add: not_le[symmetric])

section \<open>Strings\<close>

text \<open>\<open>strings.EqualFold\<close>; the Unicode folding table is a parameter that only strings with a
  non-ASCII byte consult.\<close>

definition equal_fold :: "(string \<Rightarrow> string \<Rightarrow> bool) \<Rightarrow> string \<Rightarrow> string \<Rightarrow> bool" where
  "equal_fold ufold s t =
     (if list_all is_ascii s \<and> list_all is_ascii t then eq_ignore_ascii_case s t else ufold s t)"

text \<open>\<open>strconv.Atoi\<close>: an optional sign, then decimal digits, within 64 bits.\<close>

definition go_atoi :: "string \<Rightarrow> int option" where
  "go_atoi s =
     (let (neg, ds) = (case s of
                         [] \<Rightarrow> (False, [])
                       | c # cs \<Rightarrow> if c = CHR ''-'' then (True, cs) else if c = CHR ''+'' then (False, cs) else (False, s)) in
      if ds = [] \<or> \<not> list_all is_digit ds then None
      else
        let n = foldl (\<lambda>a c. a * 10 + int (digit_val c)) 0 ds; v = (if neg then - n else n) in
        if - (2 ^ 63) \<le> v \<and> v < 2 ^ 63 then Some v else None)"

text \<open>An integer environment variable with a default and a range; \<open>env\<close> is \<open>os.Getenv\<close>.\<close>

definition parse_env_int_default :: "(string \<Rightarrow> string) \<Rightarrow> string \<Rightarrow> int \<Rightarrow> int \<Rightarrow> int \<Rightarrow> int" where
  "parse_env_int_default env key fallback mn mx =
     (let raw = trim (env key) in
      if raw = [] then fallback
      else case go_atoi raw of
        None \<Rightarrow> fallback
      | Some v \<Rightarrow> if v < mn then mn else if mx < v then mx else v)"

lemma parse_env_int_default_range:
  "mn \<le> fallback \<Longrightarrow> fallback \<le> mx \<Longrightarrow>
     mn \<le> parse_env_int_default env key fallback mn mx \<and> parse_env_int_default env key fallback mn mx \<le> mx"
  by (auto simp: parse_env_int_default_def Let_def split: option.splits)

section \<open>Maps and channels\<close>

text \<open>\<open>m[k]\<close> of a missing key is the zero value.\<close>

definition get_or :: "'v \<Rightarrow> ('k \<rightharpoonup> 'v) \<Rightarrow> 'k \<Rightarrow> 'v" where
  "get_or z m k = (case m k of None \<Rightarrow> z | Some v \<Rightarrow> v)"

lemma get_or_simps [simp]:
  "m k = None \<Longrightarrow> get_or z m k = z" "m k = Some v \<Longrightarrow> get_or z m k = v"
  by (simp_all add: get_or_def)

text \<open>\<open>select { case ch <- x: ... default: ... }\<close>: the message is queued if there is room.\<close>

definition chan_offer :: "nat \<Rightarrow> 'a \<Rightarrow> 'a list \<Rightarrow> bool \<times> 'a list" where
  "chan_offer n x q = (if length q < n then (True, q @ [x]) else (False, q))"

lemma chan_offer_bounded: "length q \<le> n \<Longrightarrow> length (snd (chan_offer n x q)) \<le> n"
  by (simp add: chan_offer_def)

end
