(* ===== verification/Connstate.thy ===== *)
theory Connstate
  imports Go_Runtime
begin

text \<open>
  The transient connection state of robots, \<open>go/connstate/state.go\<close>: the record kept per robot,
  every update of it, and the liveness test. The package-level map is passed explicitly; each
  update holds the lock for its whole body, so updates are atomic. \<open>clk\<close> is what \<open>time.Now()\<close>
  returns where a caller passes the zero time.
\<close>

section \<open>The state\<close>

record robot_runtime_state =
  rrs_robot_id :: string
  rrs_public_ip :: string
  rrs_local_ip :: string
  rrs_nat_type :: string
  rrs_control_connected :: bool
  rrs_connected_at :: gotime
  rrs_disconnected_at :: gotime
  rrs_contention_at :: gotime
  rrs_contention_incoming :: string
  rrs_contention_incumbent :: string
  rrs_contention_policy :: string
  rrs_contention_reason :: string
  rrs_heartbeat_at :: gotime
  rrs_seen_at :: gotime

type_synonym conn_states = "string \<rightharpoonup> robot_runtime_state"

definition rrs_zero :: robot_runtime_state where
  "rrs_zero =
     \<lparr>rrs_robot_id = [], rrs_public_ip = [], rrs_local_ip = [], rrs_nat_type = [],
      rrs_control_connected = False, rrs_connected_at = 0, rrs_disconnected_at = 0,
      rrs_contention_at = 0, rrs_contention_incoming = [], rrs_contention_incumbent = [],
      rrs_contention_policy = [], rrs_contention_reason = [], rrs_heartbeat_at = 0, rrs_seen_at = 0\<rparr>"

definition heartbeat_online_ttl :: duration where "heartbeat_online_ttl = 75 * second"
definition control_fallback_ttl :: duration where "control_fallback_ttl = 90 * second"

section \<open>Operations\<close>

definition normalize_at :: "gotime \<Rightarrow> gotime \<Rightarrow> gotime" where
  "normalize_at clk at = (if is_zero at then clk else at)"

definition latest_time :: "gotime \<Rightarrow> gotime \<Rightarrow> gotime" where
  "latest_time a b = (if is_zero a then b else if is_zero b then a else if a < b then b else a)"

definition keep_known :: "string \<Rightarrow> string \<Rightarrow> string" where
  "keep_known new old = (if new = [] then old else new)"

definition merge_nat_type :: "string \<Rightarrow> string \<Rightarrow> string" where
  "merge_nat_type new old =
     (let n = (if new = [] then ''unknown'' else new) in
      if n = [] \<or> n = ''unknown'' then (if old = [] then ''unknown'' else old) else n)"

definition upsert_heartbeat ::
  "gotime \<Rightarrow> string \<Rightarrow> string \<Rightarrow> string \<Rightarrow> string \<Rightarrow> gotime \<Rightarrow> conn_states \<Rightarrow> conn_states" where
  "upsert_heartbeat clk rid pub loc nt at0 st =
     (let robot = trim rid; at = normalize_at clk at0; prev = get_or rrs_zero st robot in
      if robot = [] then st
      else st(robot \<mapsto> prev
        \<lparr>rrs_robot_id := robot,
         rrs_public_ip := keep_known (trim pub) (rrs_public_ip prev),
         rrs_local_ip := keep_known (trim loc) (rrs_local_ip prev),
         rrs_nat_type := merge_nat_type (trim nt) (rrs_nat_type prev),
         rrs_heartbeat_at := latest_time (rrs_heartbeat_at prev) at,
         rrs_seen_at := latest_time (rrs_seen_at prev) at\<rparr>))"

definition upsert_control_connected ::
  "gotime \<Rightarrow> string \<Rightarrow> string \<Rightarrow> string \<Rightarrow> string \<Rightarrow> gotime \<Rightarrow> conn_states \<Rightarrow> conn_states" where
  "upsert_control_connected clk rid pub loc nt at0 st =
     (let robot = trim rid; at = normalize_at clk at0; prev = get_or rrs_zero st robot in
      if robot = [] then st
      else st(robot \<mapsto> prev
        \<lparr>rrs_robot_id := robot,
         rrs_public_ip := keep_known (trim pub) (rrs_public_ip prev),
         rrs_local_ip := keep_known (trim loc) (rrs_local_ip prev),
         rrs_nat_type := merge_nat_type (trim nt) (rrs_nat_type prev),
         rrs_control_connected := True,
         rrs_connected_at := latest_time (rrs_connected_at prev) at,
         rrs_disconnected_at := 0,
         rrs_seen_at := latest_time (rrs_seen_at prev) at\<rparr>))"

definition record_control_contention ::
  "gotime \<Rightarrow> string \<Rightarrow> string \<Rightarrow> string \<Rightarrow> string \<Rightarrow> string \<Rightarrow> gotime \<Rightarrow> conn_states \<Rightarrow> conn_states" where
  "record_control_contention clk rid incoming incumbent policy reason at0 st =
     (let robot = trim rid; at = normalize_at clk at0; prev = get_or rrs_zero st robot in
      if robot = [] then st
      else st(robot \<mapsto> prev
        \<lparr>rrs_robot_id := (if trim (rrs_robot_id prev) = [] then robot else rrs_robot_id prev),
         rrs_contention_at := latest_time (rrs_contention_at prev) at,
         rrs_contention_incoming := trim incoming,
         rrs_contention_incumbent := trim incumbent,
         rrs_contention_policy := trim policy,
         rrs_contention_reason := trim reason,
         rrs_seen_at := latest_time (rrs_seen_at prev) at\<rparr>))"

definition touch_control_activity :: "gotime \<Rightarrow> string \<Rightarrow> gotime \<Rightarrow> conn_states \<Rightarrow> conn_states" where
  "touch_control_activity clk rid at0 st =
     (let robot = trim rid; at = normalize_at clk at0; prev = get_or rrs_zero st robot in
      if robot = [] then st
      else st(robot \<mapsto> prev
        \<lparr>rrs_robot_id := (if trim (rrs_robot_id prev) = [] then robot else rrs_robot_id prev),
         rrs_control_connected := True,
         rrs_connected_at :=
           (if \<not> rrs_control_connected prev \<and> is_zero (rrs_connected_at prev) then at else rrs_connected_at prev),
         rrs_disconnected_at := 0,
         rrs_seen_at := latest_time (rrs_seen_at prev) at\<rparr>))"

definition set_control_disconnected :: "gotime \<Rightarrow> string \<Rightarrow> gotime \<Rightarrow> conn_states \<Rightarrow> conn_states" where
  "set_control_disconnected clk rid at0 st =
     (let robot = trim rid; at = normalize_at clk at0 in
      if robot = [] then st
      else case st robot of
        None \<Rightarrow> st
      | Some prev \<Rightarrow> st(robot \<mapsto> prev
          \<lparr>rrs_control_connected := False,
           rrs_disconnected_at := latest_time (rrs_disconnected_at prev) at,
           rrs_seen_at := latest_time (rrs_seen_at prev) at\<rparr>))"

definition conn_snapshot :: "string \<Rightarrow> conn_states \<Rightarrow> robot_runtime_state option" where
  "conn_snapshot rid st = (let robot = trim rid in if robot = [] then None else st robot)"

definition is_online_at :: "gotime \<Rightarrow> robot_runtime_state \<Rightarrow> gotime \<Rightarrow> bool" where
  "is_online_at clk s now0 =
     (let now = normalize_at clk now0; ref = latest_time (rrs_connected_at s) (rrs_seen_at s) in
      if \<not> rrs_control_connected s \<and> \<not> is_zero (rrs_disconnected_at s) \<and>
         (is_zero (rrs_heartbeat_at s) \<or> \<not> rrs_disconnected_at s < rrs_heartbeat_at s) then False
      else if \<not> is_zero (rrs_heartbeat_at s) then time_sub now (rrs_heartbeat_at s) \<le> heartbeat_online_ttl
      else if \<not> rrs_control_connected s then False
      else if is_zero ref then True
      else time_sub now ref \<le> control_fallback_ttl)"

definition is_online :: "gotime \<Rightarrow> robot_runtime_state \<Rightarrow> bool" where
  "is_online clk s = is_online_at clk s clk"

section \<open>Histories\<close>

text \<open>The updates as events, and what a history of them says about a robot without the record:
  the newest event, the newest heartbeat, and the disconnects since the control channel was last
  seen alive.\<close>

datatype conn_update =
    CuHeartbeat string string string string gotime
  | CuConnected string string string string gotime
  | CuContention string string string string string gotime
  | CuTouch string gotime
  | CuDisconnected string gotime

fun conn_apply :: "gotime \<Rightarrow> conn_states \<Rightarrow> conn_update \<Rightarrow> conn_states" where
  "conn_apply clk st (CuHeartbeat r p l n t) = upsert_heartbeat clk r p l n t st"
| "conn_apply clk st (CuConnected r p l n t) = upsert_control_connected clk r p l n t st"
| "conn_apply clk st (CuContention r i j p m t) = record_control_contention clk r i j p m t st"
| "conn_apply clk st (CuTouch r t) = touch_control_activity clk r t st"
| "conn_apply clk st (CuDisconnected r t) = set_control_disconnected clk r t st"

fun cu_robot :: "conn_update \<Rightarrow> string" where
  "cu_robot (CuHeartbeat r p l n t) = trim r"
| "cu_robot (CuConnected r p l n t) = trim r"
| "cu_robot (CuContention r i j p m t) = trim r"
| "cu_robot (CuTouch r t) = trim r"
| "cu_robot (CuDisconnected r t) = trim r"

fun cu_time :: "conn_update \<Rightarrow> gotime" where
  "cu_time (CuHeartbeat r p l n t) = t"
| "cu_time (CuConnected r p l n t) = t"
| "cu_time (CuContention r i j p m t) = t"
| "cu_time (CuTouch r t) = t"
| "cu_time (CuDisconnected r t) = t"

fun is_heartbeat :: "conn_update \<Rightarrow> bool" where
  "is_heartbeat (CuHeartbeat r p l n t) = True"
| "is_heartbeat u = False"

fun is_disconnect :: "conn_update \<Rightarrow> bool" where
  "is_disconnect (CuDisconnected r t) = True"
| "is_disconnect u = False"

fun is_alive_control :: "conn_update \<Rightarrow> bool" where
  "is_alive_control (CuConnected r p l n t) = True"
| "is_alive_control (CuTouch r t) = True"
| "is_alive_control u = False"

definition history_of :: "string \<Rightarrow> conn_update list \<Rightarrow> conn_update list" where
  "history_of r us = dropWhile is_disconnect (filter (\<lambda>u. cu_robot u = r) us)"

definition newest :: "gotime list \<Rightarrow> gotime" where
  "newest ts = foldl max 0 ts"

fun control_up :: "bool \<Rightarrow> conn_update list \<Rightarrow> bool" where
  "control_up b [] = b"
| "control_up b (u # us) =
     control_up (if is_alive_control u then True else if is_disconnect u then False else b) us"

fun disconnects :: "gotime list \<Rightarrow> conn_update list \<Rightarrow> gotime list" where
  "disconnects ts [] = ts"
| "disconnects ts (u # us) =
     disconnects (if is_alive_control u then [] else if is_disconnect u then ts @ [cu_time u] else ts) us"

lemma newest_simps [simp]: "newest [] = 0" "newest (ts @ [t]) = max (newest ts) t"
  by (simp_all add: newest_def)

lemma newest_nonneg: "0 \<le> newest ts"
  by (induction ts rule: rev_induct) auto

lemma newest_zero_iff: "\<forall>t \<in> set ts. 0 < t \<Longrightarrow> newest ts = 0 \<longleftrightarrow> ts = []"
  by (cases ts rule: rev_cases) (auto simp: max_def)

lemma control_up_snoc [simp]:
  "control_up b (us @ [u]) =
     (if is_alive_control u then True else if is_disconnect u then False else control_up b us)"
  by (induction us arbitrary: b) auto

lemma disconnects_snoc [simp]:
  "disconnects ts (us @ [u]) =
     (if is_alive_control u then [] else if is_disconnect u then disconnects ts us @ [cu_time u]
      else disconnects ts us)"
  by (induction us arbitrary: ts) auto

lemma history_snoc:
  "history_of r (us @ [u]) =
     (if cu_robot u \<noteq> r \<or> (history_of r us = [] \<and> is_disconnect u) then history_of r us
      else history_of r us @ [u])"
proof (cases "history_of r us = []")
  case True
  then have "\<forall>x \<in> set (filter (\<lambda>u. cu_robot u = r) us). is_disconnect x"
    by (simp only: history_of_def dropWhile_eq_Nil_conv)
  then show ?thesis using True by (auto simp: history_of_def dropWhile_append eq_commute[of "[]"])
next
  case False
  then have "\<exists>x \<in> set (filter (\<lambda>u. cu_robot u = r) us). \<not> is_disconnect x"
    by (simp only: history_of_def dropWhile_eq_Nil_conv) blast
  then obtain x where "x \<in> set (filter (\<lambda>u. cu_robot u = r) us)" "\<not> is_disconnect x" by blast
  then show ?thesis using False by (simp add: history_of_def dropWhile_append1)
qed

lemma latest_time_max: "0 \<le> a \<Longrightarrow> 0 < b \<Longrightarrow> latest_time a b = max a b"
  by (auto simp: latest_time_def is_zero_def)

lemma normalize_at_pos [simp]: "0 < t \<Longrightarrow> normalize_at clk t = t"
  by (simp add: normalize_at_def is_zero_def)

text \<open>The record holds what the history says.\<close>

definition record_matches :: "robot_runtime_state \<Rightarrow> conn_update list \<Rightarrow> bool" where
  "record_matches s h \<longleftrightarrow>
     rrs_seen_at s = newest (map cu_time h) \<and>
     rrs_heartbeat_at s = newest (map cu_time (filter is_heartbeat h)) \<and>
     rrs_control_connected s = control_up False h \<and>
     rrs_disconnected_at s = newest (disconnects [] h) \<and>
     0 \<le> rrs_connected_at s \<and> rrs_connected_at s \<le> rrs_seen_at s"

definition state_matches :: "robot_runtime_state option \<Rightarrow> conn_update list \<Rightarrow> bool" where
  "state_matches so h \<longleftrightarrow> (case so of None \<Rightarrow> h = [] | Some s \<Rightarrow> h \<noteq> [] \<and> record_matches s h)"

lemma conn_apply_other: "cu_robot u \<noteq> r \<Longrightarrow> conn_apply clk st u r = st r"
  by (cases u)
    (auto simp: upsert_heartbeat_def upsert_control_connected_def record_control_contention_def
      touch_control_activity_def set_control_disconnected_def Let_def split: option.splits)

lemma record_matches_zero: "record_matches rrs_zero []"
  by (simp add: record_matches_def rrs_zero_def)

lemma get_or_matches: "state_matches (st r) h \<Longrightarrow> record_matches (get_or rrs_zero st r) h"
  by (cases "st r") (auto simp: state_matches_def record_matches_zero)

lemma conn_apply_self:
  assumes "cu_robot u \<noteq> []" and "0 < cu_time u" and "state_matches (st (cu_robot u)) h"
  shows "state_matches (conn_apply clk st u (cu_robot u)) (if h = [] \<and> is_disconnect u then h else h @ [u])"
proof -
  have m: "record_matches (get_or rrs_zero st (cu_robot u)) h" using assms(3) by (rule get_or_matches)
  have max: "latest_time (newest ts) (cu_time u) = max (newest ts) (cu_time u)" for ts
    using assms(2) newest_nonneg by (rule latest_time_max[rotated])
  have conn: "0 \<le> rrs_connected_at (get_or rrs_zero st (cu_robot u))" using m by (simp add: record_matches_def)
  show ?thesis
    using assms m max latest_time_max[OF conn assms(2)]
    by (cases u)
      (auto simp: upsert_heartbeat_def upsert_control_connected_def record_control_contention_def
        touch_control_activity_def set_control_disconnected_def Let_def state_matches_def record_matches_def
        split: option.splits)
qed

lemma conn_run_matches:
  assumes "\<forall>u \<in> set us. 0 < cu_time u" and "r \<noteq> []"
  shows "state_matches (run_steps (conn_apply clk) Map.empty us r) (history_of r us)"
  using assms(1)
proof (induction us rule: rev_induct)
  case Nil
  show ?case by (simp add: state_matches_def history_of_def)
next
  case (snoc u us)
  let ?st = "run_steps (conn_apply clk) Map.empty us"
  have IH: "state_matches (?st r) (history_of r us)" using snoc by simp
  show ?case
  proof (cases "cu_robot u = r")
    case True
    from conn_apply_self[of u ?st "history_of r us" clk] True IH assms(2) snoc.prems
    show ?thesis by (simp add: run_steps_append history_snoc)
  next
    case False
    with IH show ?thesis by (simp add: run_steps_append history_snoc conn_apply_other)
  qed
qed

lemma disconnects_down: "disconnects ts h \<noteq> [] \<Longrightarrow> ts = [] \<or> \<not> b \<Longrightarrow> \<not> control_up b h"
  by (induction h arbitrary: ts b) (auto split: if_splits)

lemma disconnects_times: "set (disconnects ts h) \<subseteq> set ts \<union> cu_time ` set h"
  by (induction h rule: rev_induct) auto

lemma history_subset: "set (history_of r us) \<subseteq> set us"
  using set_dropWhileD by (fastforce simp: history_of_def)

text \<open>Liveness of a record, in terms of the history it matches.\<close>

lemma online_record:
  assumes "record_matches s h" and "h \<noteq> []" and "\<forall>u \<in> set h. 0 < cu_time u" and "0 < now"
  shows "is_online_at clk s now \<longleftrightarrow>
    (if filter is_heartbeat h = [] then control_up False h \<and> now - newest (map cu_time h) \<le> control_fallback_ttl
     else now - newest (map cu_time (filter is_heartbeat h)) \<le> heartbeat_online_ttl \<and>
       newest (disconnects [] h) < newest (map cu_time (filter is_heartbeat h)))"
proof -
  let ?hb = "map cu_time (filter is_heartbeat h)"
  have hb0: "newest ?hb = 0 \<longleftrightarrow> filter is_heartbeat h = []"
    using newest_zero_iff[of ?hb] assms(3) by auto
  have dc0: "newest (disconnects [] h) = 0 \<longleftrightarrow> disconnects [] h = []"
    using newest_zero_iff[of "disconnects [] h"] disconnects_times[of "[]" h] assms(3) by auto
  have seen: "newest (map cu_time h) \<noteq> 0" using newest_zero_iff[of "map cu_time h"] assms(2,3) by auto
  then have ref: "latest_time (rrs_connected_at s) (rrs_seen_at s) = newest (map cu_time h)"
    using assms(1) newest_nonneg[of "map cu_time h"] by (auto simp: record_matches_def latest_time_def is_zero_def)
  have down: "disconnects [] h \<noteq> [] \<Longrightarrow> \<not> control_up False h" by (rule disconnects_down) auto
  have ttl: "time_sub now t \<le> heartbeat_online_ttl \<longleftrightarrow> now - t \<le> heartbeat_online_ttl"
    "time_sub now t \<le> control_fallback_ttl \<longleftrightarrow> now - t \<le> control_fallback_ttl" for t
    by (rule time_sub_le; simp add: heartbeat_online_ttl_def control_fallback_ttl_def second_def millisecond_def)+
  show ?thesis
    using assms(1,4) hb0 dc0 seen ref down newest_nonneg[of ?hb]
    by (auto simp: is_online_at_def record_matches_def is_zero_def ttl Let_def)
qed

text \<open>C29: Liveness is a function of what happened to the robot, in whatever order and with whatever
  timestamps the updates arrived: a robot that has sent a heartbeat is online exactly if its newest
  heartbeat is at most 75 seconds old and newer than every disconnect since its control channel was
  last alive; one that never did is online exactly if its control channel is up and its newest event
  is at most 90 seconds old.\<close>

theorem online_from_history:
  assumes "\<forall>u \<in> set us. 0 < cu_time u" and "trim rid \<noteq> []" and "0 < now"
    and "h = history_of (trim rid) us"
  shows "(case conn_snapshot rid (run_steps (conn_apply clk) Map.empty us) of
      None \<Rightarrow> h = []
    | Some s \<Rightarrow> h \<noteq> [] \<and> (is_online_at clk s now \<longleftrightarrow>
        (if filter is_heartbeat h = []
         then control_up False h \<and> now - newest (map cu_time h) \<le> control_fallback_ttl
         else now - newest (map cu_time (filter is_heartbeat h)) \<le> heartbeat_online_ttl \<and>
           newest (disconnects [] h) < newest (map cu_time (filter is_heartbeat h)))))"
proof -
  have m: "state_matches (run_steps (conn_apply clk) Map.empty us (trim rid)) h"
    unfolding assms(4) by (rule conn_run_matches[OF assms(1,2)])
  have pos: "\<forall>u \<in> set h. 0 < cu_time u" using assms(1,4) history_subset by blast
  show ?thesis
  proof (cases "run_steps (conn_apply clk) Map.empty us (trim rid)")
    case None
    with m assms(2) show ?thesis by (simp add: conn_snapshot_def Let_def state_matches_def)
  next
    case (Some s)
    with m have "h \<noteq> []" "record_matches s h" by (simp_all add: state_matches_def)
    with online_record[OF this(2,1) pos assms(3)] Some assms(2)
    show ?thesis by (simp add: conn_snapshot_def Let_def)
  qed
qed

lemma trim_r: "trim ''r'' = ''r''"
  by code_simp

theorem online_from_history_witness:
  "let us = [CuConnected ''r'' [] [] [] (10 * second), CuHeartbeat ''r'' [] [] [] (40 * second),
             CuDisconnected ''r'' (30 * second)];
       st = run_steps (conn_apply 1) Map.empty us
   in (case conn_snapshot ''r'' st of None \<Rightarrow> False
       | Some s \<Rightarrow> is_online_at 1 s (115 * second) \<and> \<not> is_online_at 1 s (116 * second))"
proof -
  let ?us = "[CuConnected ''r'' [] [] [] (10 * second), CuHeartbeat ''r'' [] [] [] (40 * second),
             CuDisconnected ''r'' (30 * second)]"
  have pos: "\<forall>u \<in> set ?us. 0 < cu_time u" by (simp add: second_def millisecond_def)
  have h: "?us = history_of (trim ''r'') ?us" by (simp add: history_of_def trim_r)
  have now: "0 < 115 * second" "0 < 116 * second" by (simp_all add: second_def millisecond_def)
  have r: "trim ''r'' \<noteq> []" by (simp add: trim_r)
  from online_from_history[OF pos r now(1) h, of 1] online_from_history[OF pos r now(2) h, of 1]
  show ?thesis
    by (simp add: Let_def newest_def second_def millisecond_def heartbeat_online_ttl_def split: option.splits)
qed

text \<open>A control channel that is gone can be reported alive: activity recorded by its writer task
  after the disconnect was recorded makes the robot online again.\<close>

lemma late_touch_revives:
  assumes "run_steps (conn_apply clk) Map.empty
      [CuConnected ''r'' p l n t, CuDisconnected ''r'' (t + 1), CuTouch ''r'' (t + 2)] ''r'' = Some s"
    and "0 < t" and "0 < now" and "now \<le> t + 2 + control_fallback_ttl"
  shows "is_online_at clk s now"
proof -
  let ?us = "[CuConnected ''r'' p l n t, CuDisconnected ''r'' (t + 1), CuTouch ''r'' (t + 2)]"
  have pos: "\<forall>u \<in> set ?us. 0 < cu_time u" using assms(2) by simp
  have h: "history_of ''r'' ?us = ?us" by (simp add: history_of_def trim_r)
  have "record_matches s ?us"
    using conn_run_matches[OF pos, of "''r''" clk] assms(1) unfolding h by (simp add: state_matches_def)
  from online_record[OF this _ pos assms(3)] show ?thesis
    using assms(2,4) by (simp add: newest_def)
qed

end
