(* ===== verification/Relay_Hub.thy ===== *)
theory Relay_Hub
  imports Go_Runtime
begin

text \<open>
  The agent control hub of \<open>go/relay/relay.go\<close>: the control and relay connections of the agents,
  the commands waiting for a response, the active attach session of every robot, and the relay
  streams with their bounded queues. Connections and response channels are compared by identity in
  the code, so they live in a store and the hub's maps hold their positions. Every operation runs
  without interleaving with another one. JSON objects are values of a type \<open>'j\<close>, \<open>None\<close> being
  \<open>nil\<close>; \<open>now\<close> is what \<open>time.Now()\<close> returns and \<open>ufold\<close>, \<open>ulow\<close> are the Unicode tables.
\<close>

section \<open>Messages and connections\<close>

record 'j agent_control_message =
  acm_type :: string
  acm_bootstrap_id :: string
  acm_session_key :: string
  acm_route_type :: string
  acm_cli_public_ip :: string
  acm_cli_lan_cidr :: string
  acm_request_id :: string
  acm_command :: "'j option"
  acm_status_query :: "'j option"
  acm_response :: "'j option"
  acm_relay_id :: string
  acm_port :: int
  acm_data :: string
  acm_status :: string
  acm_error :: string

definition acm_zero :: "'j agent_control_message" where
  "acm_zero =
     \<lparr>acm_type = [], acm_bootstrap_id = [], acm_session_key = [], acm_route_type = [],
      acm_cli_public_ip = [], acm_cli_lan_cidr = [], acm_request_id = [], acm_command = None,
      acm_status_query = None, acm_response = None, acm_relay_id = [], acm_port = 0, acm_data = [],
      acm_status = [], acm_error = []\<rparr>"

text \<open>A control connection and a relay connection have the same fields; \<open>ac_cap\<close> is the size of
  the send queue.\<close>

record 'j agent_conn =
  ac_robot_id :: string
  ac_session_id :: string
  ac_observed_src_ip :: string
  ac_connected_at :: gotime
  ac_send :: "'j agent_control_message list"
  ac_cap :: nat
  ac_done :: bool
  ac_reason :: string

definition agent_conn_close :: "'j agent_conn \<Rightarrow> 'j agent_conn" where
  "agent_conn_close c = c\<lparr>ac_done := True\<rparr>"

definition set_disconnect_reason :: "string \<Rightarrow> 'j agent_conn \<Rightarrow> 'j agent_conn" where
  "set_disconnect_reason reason c =
     (if trim reason = [] then c else if ac_reason c = [] then c\<lparr>ac_reason := trim reason\<rparr> else c)"

definition disconnect_reason :: "'j agent_conn \<Rightarrow> string" where
  "disconnect_reason c = trim (ac_reason c)"

section \<open>Relay queues\<close>

record relay_queue_stats =
  qs_enqueued :: u64
  qs_dropped_oldest :: u64
  qs_dropped_no_slot :: u64
  qs_max_queue_depth :: u64
  qs_wait_samples :: u64
  qs_wait_total_ns :: u64
  qs_wait_max_ns :: u64

definition new_relay_queue_stats :: relay_queue_stats where
  "new_relay_queue_stats =
     \<lparr>qs_enqueued = 0, qs_dropped_oldest = 0, qs_dropped_no_slot = 0, qs_max_queue_depth = 0,
      qs_wait_samples = 0, qs_wait_total_ns = 0, qs_wait_max_ns = 0\<rparr>"

definition record_enqueue :: "nat \<Rightarrow> relay_queue_stats \<Rightarrow> relay_queue_stats" where
  "record_enqueue depth s =
     (let s1 = s\<lparr>qs_enqueued := qs_enqueued s + 1\<rparr> in
      if 0 < depth then s1\<lparr>qs_max_queue_depth := max (qs_max_queue_depth s1) (word_of_nat depth)\<rparr> else s1)"

definition record_drop_oldest :: "relay_queue_stats \<Rightarrow> relay_queue_stats" where
  "record_drop_oldest s = s\<lparr>qs_dropped_oldest := qs_dropped_oldest s + 1\<rparr>"

definition record_drop_no_slot :: "relay_queue_stats \<Rightarrow> relay_queue_stats" where
  "record_drop_no_slot s = s\<lparr>qs_dropped_no_slot := qs_dropped_no_slot s + 1\<rparr>"

definition record_enqueue_wait :: "duration \<Rightarrow> relay_queue_stats \<Rightarrow> relay_queue_stats" where
  "record_enqueue_wait wait s =
     (if wait \<le> 0 then s
      else s\<lparr>qs_wait_samples := qs_wait_samples s + 1,
             qs_wait_total_ns := qs_wait_total_ns s + word_of_int wait,
             qs_wait_max_ns := max (qs_wait_max_ns s) (word_of_int wait)\<rparr>)"

text \<open>The average a snapshot reports; the other fields of a snapshot are the counters.\<close>

definition enqueue_wait_avg :: "relay_queue_stats \<Rightarrow> duration" where
  "enqueue_wait_avg s =
     (if qs_wait_samples s = 0 then 0 else sint (qs_wait_total_ns s div qs_wait_samples s))"

record 'j relay_registration =
  rl_robot_id :: string
  rl_session_key :: string
  rl_ch :: "'j agent_control_message list"
  rl_cap :: nat
  rl_enqueued_at :: "gotime list"
  rl_ts_cap :: nat
  rl_stats :: relay_queue_stats

definition rl_enqueue ::
  "'j agent_control_message \<Rightarrow> gotime \<Rightarrow> 'j relay_registration \<Rightarrow> bool \<times> 'j relay_registration" where
  "rl_enqueue msg ts r =
     (case chan_offer (rl_cap r) msg (rl_ch r) of
        (False, _) \<Rightarrow> (False, r)
      | (True, q) \<Rightarrow>
          (True, r\<lparr>rl_ch := q, rl_enqueued_at := snd (chan_offer (rl_ts_cap r) ts (rl_enqueued_at r)),
                   rl_stats := record_enqueue (length q) (rl_stats r)\<rparr>))"

definition drop_oldest_queued_message :: "'j relay_registration \<Rightarrow> bool \<times> 'j relay_registration" where
  "drop_oldest_queued_message r =
     (case rl_ch r of
        [] \<Rightarrow> (False, r)
      | _ # q \<Rightarrow>
          (True, r\<lparr>rl_ch := q, rl_enqueued_at := drop 1 (rl_enqueued_at r),
                   rl_stats := record_drop_oldest (rl_stats r)\<rparr>))"

definition pop_enqueue_timestamp :: "'j relay_registration \<Rightarrow> gotime option \<times> 'j relay_registration" where
  "pop_enqueue_timestamp r =
     (case rl_enqueued_at r of [] \<Rightarrow> (None, r) | ts # rest \<Rightarrow> (Some ts, r\<lparr>rl_enqueued_at := rest\<rparr>))"

section \<open>The hub\<close>

record 'j hub =
  hb_conns :: "string \<rightharpoonup> nat"
  hb_relay :: "string \<rightharpoonup> nat"
  hb_pending :: "string \<rightharpoonup> nat"
  hb_active_sessions :: "string \<rightharpoonup> string"
  hb_relays :: "string \<rightharpoonup> 'j relay_registration"
  hb_control_store :: "'j agent_conn list"
  hb_relay_store :: "'j agent_conn list"
  hb_responses :: "'j option list list"

definition new_agent_control_hub :: "'j hub" where
  "new_agent_control_hub =
     \<lparr>hb_conns = Map.empty, hb_relay = Map.empty, hb_pending = Map.empty,
      hb_active_sessions = Map.empty, hb_relays = Map.empty,
      hb_control_store = [], hb_relay_store = [], hb_responses = []\<rparr>"

definition reject_new :: string where "reject_new = ''reject_new''"
definition preempt_existing :: string where "preempt_existing = ''preempt_existing''"

definition normalize_concurrency_policy :: "(string \<Rightarrow> string) \<Rightarrow> string \<Rightarrow> string" where
  "normalize_concurrency_policy ulow policy =
     (if to_lowercase ulow (trim policy) = preempt_existing then preempt_existing else reject_new)"

definition upd_control :: "nat \<Rightarrow> ('j agent_conn \<Rightarrow> 'j agent_conn) \<Rightarrow> 'j hub \<Rightarrow> 'j hub" where
  "upd_control p f h = h\<lparr>hb_control_store := (hb_control_store h)[p := f (hb_control_store h ! p)]\<rparr>"

definition upd_relay :: "nat \<Rightarrow> ('j agent_conn \<Rightarrow> 'j agent_conn) \<Rightarrow> 'j hub \<Rightarrow> 'j hub" where
  "upd_relay p f h = h\<lparr>hb_relay_store := (hb_relay_store h)[p := f (hb_relay_store h ! p)]\<rparr>"

definition register_with_policy ::
  "(string \<Rightarrow> string) \<Rightarrow> nat \<Rightarrow> string \<Rightarrow> 'j hub \<Rightarrow> (bool \<times> nat option) \<times> 'j hub" where
  "register_with_policy ulow p policy h =
     (let robot = trim (ac_robot_id (hb_control_store h ! p)) in
      if robot = [] then ((False, None), h)
      else
        let h1 = upd_control p (\<lambda>c. c\<lparr>ac_robot_id := robot\<rparr>) h;
            prev = hb_conns h robot in
        if prev \<noteq> None \<and> normalize_concurrency_policy ulow policy = reject_new then ((False, prev), h1)
        else ((True, prev), h1\<lparr>hb_conns := (hb_conns h1)(robot \<mapsto> p)\<rparr>))"

definition hub_register :: "(string \<Rightarrow> string) \<Rightarrow> nat \<Rightarrow> 'j hub \<Rightarrow> nat option \<times> 'j hub" where
  "hub_register ulow p h =
     (case register_with_policy ulow p preempt_existing h of ((_, prev), h') \<Rightarrow> (prev, h'))"

definition hub_unregister :: "nat \<Rightarrow> 'j hub \<Rightarrow> bool \<times> 'j hub" where
  "hub_unregister p h =
     (let robot = ac_robot_id (hb_control_store h ! p) in
      if hb_conns h robot = Some p then (True, h\<lparr>hb_conns := (hb_conns h)(robot := None)\<rparr>) else (False, h))"

definition conn_offer :: "'j agent_control_message \<Rightarrow> 'j agent_conn \<Rightarrow> bool \<times> 'j agent_conn" where
  "conn_offer msg c = (case chan_offer (ac_cap c) msg (ac_send c) of (b, q) \<Rightarrow> (b, c\<lparr>ac_send := q\<rparr>))"

definition hub_send :: "string \<Rightarrow> 'j agent_control_message \<Rightarrow> 'j hub \<Rightarrow> bool \<times> 'j hub" where
  "hub_send rid msg h =
     (case hb_conns h (trim rid) of
        None \<Rightarrow> (False, h)
      | Some p \<Rightarrow>
          (fst (conn_offer msg (hb_control_store h ! p)), upd_control p (\<lambda>c. snd (conn_offer msg c)) h))"

definition has_connection :: "string \<Rightarrow> 'j hub \<Rightarrow> bool" where
  "has_connection rid h \<longleftrightarrow> hb_conns h (trim rid) \<noteq> None"

definition register_relay_conn :: "nat \<Rightarrow> 'j hub \<Rightarrow> nat option \<times> 'j hub" where
  "register_relay_conn p h =
     (let robot = trim (ac_robot_id (hb_relay_store h ! p)) in
      if robot = [] then (None, h)
      else
        let h1 = upd_relay p (\<lambda>c. c\<lparr>ac_robot_id := robot\<rparr>) h in
        (hb_relay h robot, h1\<lparr>hb_relay := (hb_relay h1)(robot \<mapsto> p)\<rparr>))"

definition unregister_relay_conn :: "nat \<Rightarrow> 'j hub \<Rightarrow> bool \<times> 'j hub" where
  "unregister_relay_conn p h =
     (let robot = trim (ac_robot_id (hb_relay_store h ! p)) in
      if hb_relay h robot = Some p then (True, h\<lparr>hb_relay := (hb_relay h)(robot := None)\<rparr>) else (False, h))"

definition has_relay_connection :: "string \<Rightarrow> 'j hub \<Rightarrow> bool" where
  "has_relay_connection rid h \<longleftrightarrow> hb_relay h (trim rid) \<noteq> None"

definition hub_send_relay :: "string \<Rightarrow> 'j agent_control_message \<Rightarrow> 'j hub \<Rightarrow> bool \<times> 'j hub" where
  "hub_send_relay rid msg h =
     (if trim rid = [] then (False, h)
      else case hb_relay h (trim rid) of
        None \<Rightarrow> (False, h)
      | Some p \<Rightarrow>
          (fst (conn_offer msg (hb_relay_store h ! p)), upd_relay p (\<lambda>c. snd (conn_offer msg c)) h))"

section \<open>Active sessions\<close>

definition active_session :: "string \<Rightarrow> 'j hub \<Rightarrow> string" where
  "active_session rid h =
     (if trim rid = [] then [] else trim (get_or [] (hb_active_sessions h) (trim rid)))"

definition matches_active_session :: "string \<Rightarrow> string \<Rightarrow> 'j hub \<Rightarrow> bool" where
  "matches_active_session rid key h \<longleftrightarrow>
     trim rid \<noteq> [] \<and> trim key \<noteq> [] \<and> trim (get_or [] (hb_active_sessions h) (trim rid)) = trim key"

definition clear_active_session_if_match :: "string \<Rightarrow> string \<Rightarrow> 'j hub \<Rightarrow> bool \<times> 'j hub" where
  "clear_active_session_if_match rid key h =
     (let robot = trim rid; current = trim (get_or [] (hb_active_sessions h) robot) in
      if robot = [] \<or> current = [] \<or> (trim key \<noteq> [] \<and> current \<noteq> trim key) then (False, h)
      else (True, h\<lparr>hb_active_sessions := (hb_active_sessions h)(robot := None)\<rparr>))"

definition preempt_message :: "string \<Rightarrow> string \<Rightarrow> 'j agent_control_message" where
  "preempt_message relay key =
     acm_zero\<lparr>acm_type := ''relay_close'', acm_relay_id := relay, acm_session_key := key,
              acm_error := ''attach preempted by newer attach''\<rparr>"

definition preempt_relay ::
  "gotime \<Rightarrow> 'j agent_control_message \<Rightarrow> 'j relay_registration \<Rightarrow> 'j relay_registration" where
  "preempt_relay now msg r =
     (case rl_enqueue msg now r of
        (True, r1) \<Rightarrow> r1
      | (False, r1) \<Rightarrow>
          (case drop_oldest_queued_message r1 of
             (False, r2) \<Rightarrow> r2\<lparr>rl_stats := record_drop_no_slot (rl_stats r2)\<rparr>
           | (True, r2) \<Rightarrow>
               (case rl_enqueue msg now r2 of
                  (True, r3) \<Rightarrow> r3
                | (False, r3) \<Rightarrow> r3\<lparr>rl_stats := record_drop_no_slot (rl_stats r3)\<rparr>)))"

definition relay_is_stale ::
  "(string \<Rightarrow> string \<Rightarrow> bool) \<Rightarrow> string \<Rightarrow> string \<Rightarrow> 'j relay_registration \<Rightarrow> bool" where
  "relay_is_stale ufold robot key r \<longleftrightarrow>
     equal_fold ufold (trim (rl_robot_id r)) robot \<and> \<not> equal_fold ufold (trim (rl_session_key r)) key"

definition preempt_relays_for_session ::
  "(string \<Rightarrow> string \<Rightarrow> bool) \<Rightarrow> gotime \<Rightarrow> string \<Rightarrow> string \<Rightarrow> 'j hub \<Rightarrow> 'j hub" where
  "preempt_relays_for_session ufold now rid key0 h =
     (let robot = trim rid; key = trim key0 in
      if robot = [] \<or> key = [] then h
      else h\<lparr>hb_relays := (\<lambda>id. case hb_relays h id of
          None \<Rightarrow> None
        | Some r \<Rightarrow>
            Some (if relay_is_stale ufold robot key r then preempt_relay now (preempt_message id key) r else r))\<rparr>)"

definition set_active_session ::
  "(string \<Rightarrow> string \<Rightarrow> bool) \<Rightarrow> gotime \<Rightarrow> string \<Rightarrow> string \<Rightarrow> 'j hub \<Rightarrow> 'j hub" where
  "set_active_session ufold now rid key0 h =
     (let robot = trim rid; key = trim key0 in
      if robot = [] \<or> key = [] then h
      else
        let changed = (trim (get_or [] (hb_active_sessions h) robot) \<noteq> key);
            h1 = h\<lparr>hb_active_sessions := (hb_active_sessions h)(robot \<mapsto> key)\<rparr> in
        if changed then preempt_relays_for_session ufold now robot key h1 else h1)"

section \<open>Commands\<close>

text \<open>\<open>SendCommand\<close> and \<open>SendStatusQuery\<close> up to their \<open>select\<close>: the request is registered under
  its fresh identifier and queued to the agent, or the call fails at once. Then the caller waits;
  \<open>await_response\<close> is its \<open>select\<close>, where \<open>timed_out\<close> says that the timer's branch is taken.\<close>

datatype command_error = NoActiveControlChannel | ControlCommandTimeout duration | StatusQueryTimeout duration

definition command_timeout :: "duration \<Rightarrow> duration" where
  "command_timeout t = (if t \<le> 0 then 35 * second else t)"

definition status_timeout :: "duration \<Rightarrow> duration" where
  "status_timeout t = (if t \<le> 0 then 8 * second else t)"

definition start_request ::
  "string \<Rightarrow> string \<Rightarrow> (string \<Rightarrow> 'j agent_control_message) \<Rightarrow> 'j hub \<Rightarrow> (command_error + nat) \<times> 'j hub" where
  "start_request rid request_id mk h =
     (let robot = trim rid; ch = length (hb_responses h);
          h1 = h\<lparr>hb_pending := (hb_pending h)(request_id \<mapsto> ch), hb_responses := hb_responses h @ [[]]\<rparr> in
      case hub_send robot (mk (active_session robot h)) h1 of
        (False, h2) \<Rightarrow> (Inl NoActiveControlChannel, h2\<lparr>hb_pending := (hb_pending h2)(request_id := None)\<rparr>)
      | (True, h2) \<Rightarrow> (Inr ch, h2))"

definition send_command ::
  "string \<Rightarrow> string \<Rightarrow> 'j option \<Rightarrow> 'j hub \<Rightarrow> (command_error + nat) \<times> 'j hub" where
  "send_command rid request_id command h =
     start_request rid request_id (\<lambda>key. acm_zero\<lparr>acm_type := ''command_request'',
       acm_request_id := request_id, acm_command := command, acm_bootstrap_id := key,
       acm_session_key := key\<rparr>) h"

definition send_status_query ::
  "string \<Rightarrow> string \<Rightarrow> 'j option \<Rightarrow> 'j hub \<Rightarrow> (command_error + nat) \<times> 'j hub" where
  "send_status_query rid request_id query h =
     start_request rid request_id (\<lambda>key. acm_zero\<lparr>acm_type := ''status_request'',
       acm_request_id := request_id, acm_status_query := query, acm_bootstrap_id := key,
       acm_session_key := key\<rparr>) h"

definition await_response ::
  "command_error \<Rightarrow> string \<Rightarrow> nat \<Rightarrow> bool \<Rightarrow> 'j hub \<Rightarrow> (command_error + 'j option) option \<times> 'j hub" where
  "await_response timeout_error request_id ch timed_out h =
     (if timed_out then (Some (Inl timeout_error), h\<lparr>hb_pending := (hb_pending h)(request_id := None)\<rparr>)
      else case hb_responses h ! ch of
        [] \<Rightarrow> (None, h)
      | resp # q \<Rightarrow> (Some (Inr resp), h\<lparr>hb_responses := (hb_responses h)[ch := q]\<rparr>))"

definition deliver_response :: "string \<Rightarrow> 'j option \<Rightarrow> 'j hub \<Rightarrow> bool \<times> 'j hub" where
  "deliver_response request_id0 resp h =
     (let request_id = trim request_id0 in
      if request_id = [] then (False, h)
      else case hb_pending h request_id of
        None \<Rightarrow> (False, h)
      | Some ch \<Rightarrow>
          (True, h\<lparr>hb_pending := (hb_pending h)(request_id := None),
                   hb_responses := (hb_responses h)[ch := snd (chan_offer 1 resp (hb_responses h ! ch))]\<rparr>))"

section \<open>Relay streams\<close>

definition register_relay ::
  "string \<Rightarrow> string \<Rightarrow> string \<Rightarrow> nat \<Rightarrow> 'j hub \<Rightarrow> 'j hub" where
  "register_relay relay0 rid key n h =
     (if trim relay0 = [] then h
      else h\<lparr>hb_relays := (hb_relays h)(trim relay0 \<mapsto>
        \<lparr>rl_robot_id = trim rid, rl_session_key = trim key, rl_ch = [], rl_cap = n, rl_enqueued_at = [],
         rl_ts_cap = (if n = 0 then 1 else n), rl_stats = new_relay_queue_stats\<rparr>)\<rparr>)"

definition unregister_relay :: "string \<Rightarrow> 'j hub \<Rightarrow> 'j hub" where
  "unregister_relay relay0 h =
     (if trim relay0 = [] then h else h\<lparr>hb_relays := (hb_relays h)(trim relay0 := None)\<rparr>)"

definition consume_relay_enqueue_wait :: "gotime \<Rightarrow> string \<Rightarrow> 'j hub \<Rightarrow> duration \<times> 'j hub" where
  "consume_relay_enqueue_wait now relay0 h =
     (let relay = trim relay0 in
      if relay = [] then (0, h)
      else case hb_relays h relay of
        None \<Rightarrow> (0, h)
      | Some r \<Rightarrow>
          (case pop_enqueue_timestamp r of
             (None, r1) \<Rightarrow> (0, h)
           | (Some ts, r1) \<Rightarrow>
               let wait = max 0 (time_sub now ts);
                   r2 = (if is_zero ts then r1 else r1\<lparr>rl_stats := record_enqueue_wait wait (rl_stats r1)\<rparr>)
               in (if is_zero ts then 0 else wait, h\<lparr>hb_relays := (hb_relays h)(relay \<mapsto> r2)\<rparr>)))"

datatype relay_delivery_result = RelayDelivered | RelayNoRegistration | RelayChannelFull

definition deliver_to ::
  "gotime \<Rightarrow> 'j agent_control_message \<Rightarrow> 'j relay_registration \<Rightarrow> relay_delivery_result \<times> 'j relay_registration" where
  "deliver_to now msg r =
     (case rl_enqueue msg now r of
        (True, r1) \<Rightarrow> (RelayDelivered, r1)
      | (False, r1) \<Rightarrow>
          (case (if trim (acm_type msg) = ''relay_data''
                 then rl_enqueue msg now (snd (drop_oldest_queued_message r1)) else (False, r1)) of
             (True, r2) \<Rightarrow> (RelayDelivered, r2)
           | (False, r2) \<Rightarrow> (RelayChannelFull, r2\<lparr>rl_stats := record_drop_no_slot (rl_stats r2)\<rparr>)))"

definition deliver_relay ::
  "gotime \<Rightarrow> 'j agent_control_message \<Rightarrow> 'j hub \<Rightarrow> relay_delivery_result \<times> 'j hub" where
  "deliver_relay now msg h =
     (let relay = trim (acm_relay_id msg) in
      if relay = [] then (RelayNoRegistration, h)
      else case hb_relays h relay of
        None \<Rightarrow> (RelayNoRegistration, h)
      | Some r \<Rightarrow>
          (case deliver_to now msg r of
             (res, r1) \<Rightarrow> (res, h\<lparr>hb_relays := (hb_relays h)(relay \<mapsto> r1)\<rparr>)))"

text \<open>The relay endpoint takes the next message of its stream.\<close>

definition take_relay :: "string \<Rightarrow> 'j hub \<Rightarrow> 'j agent_control_message option \<times> 'j hub" where
  "take_relay relay h =
     (case hb_relays h relay of
        None \<Rightarrow> (None, h)
      | Some r \<Rightarrow>
          (case rl_ch r of
             [] \<Rightarrow> (None, h)
           | msg # q \<Rightarrow> (Some msg, h\<lparr>hb_relays := (hb_relays h)(relay \<mapsto> r\<lparr>rl_ch := q\<rparr>)\<rparr>)))"

end
