(* ===== verification/Relay_Laws.thy ===== *)
theory Relay_Laws
  imports Relay_Hub
begin

text \<open>
  Laws of the control hub: well-formedness of its maps and queues under every operation, exclusive
  control channels, the pairing of commands with their responses, the bounded relay queues, and
  the preemption of the relay streams of an older attach.
\<close>

section \<open>Relay queues\<close>

definition lastn :: "nat \<Rightarrow> 'a list \<Rightarrow> 'a list" where
  "lastn n xs = drop (length xs - n) xs"

lemma lastn_short [simp]: "length xs \<le> n \<Longrightarrow> lastn n xs = xs"
  by (simp add: lastn_def)

lemma length_lastn [simp]: "length (lastn n xs) = min n (length xs)"
  by (simp add: lastn_def)

lemma lastn_append: "lastn n (lastn n xs @ ys) = lastn n (xs @ ys)"
  by (cases "length xs \<le> n") (simp_all add: lastn_def add.commute)

lemma lastn_Suc_full: "Suc (length xs) = n \<Longrightarrow> lastn n (y # xs @ [x]) = xs @ [x]"
  by (auto simp: lastn_def)

definition queue_ok :: "'j relay_registration \<Rightarrow> bool" where
  "queue_ok r \<longleftrightarrow> length (rl_ch r) \<le> rl_cap r \<and> length (rl_enqueued_at r) \<le> rl_ts_cap r"

lemma rl_enqueue_ok: "queue_ok r \<Longrightarrow> queue_ok (snd (rl_enqueue m t r))"
  by (auto simp: queue_ok_def rl_enqueue_def chan_offer_def)

lemma drop_oldest_ok: "queue_ok r \<Longrightarrow> queue_ok (snd (drop_oldest_queued_message r))"
  by (auto simp: queue_ok_def drop_oldest_queued_message_def split: list.splits)

lemma queue_ok_stats [simp]: "queue_ok (r\<lparr>rl_stats := s\<rparr>) = queue_ok r"
  by (simp add: queue_ok_def)

lemma deliver_to_ok: "queue_ok r \<Longrightarrow> queue_ok (snd (deliver_to now m r))"
  using rl_enqueue_ok[of r m now] rl_enqueue_ok[OF drop_oldest_ok, of r m now]
  by (auto simp: deliver_to_def rl_enqueue_def chan_offer_def split: prod.splits if_splits bool.splits)

lemma preempt_relay_ok: "queue_ok r \<Longrightarrow> queue_ok (preempt_relay now m r)"
  using rl_enqueue_ok[of r m now] drop_oldest_ok[of "snd (rl_enqueue m now r)"]
    rl_enqueue_ok[of "snd (drop_oldest_queued_message (snd (rl_enqueue m now r)))" m now]
  by (auto simp: preempt_relay_def split: prod.splits bool.splits)

lemma deliver_data:
  assumes "queue_ok r" and "0 < rl_cap r" and "trim (acm_type m) = ''relay_data''"
  shows "fst (deliver_to now m r) = RelayDelivered"
    and "rl_ch (snd (deliver_to now m r)) = lastn (rl_cap r) (rl_ch r @ [m])"
    and "rl_cap (snd (deliver_to now m r)) = rl_cap r"
proof -
  show "fst (deliver_to now m r) = RelayDelivered"
    using assms by (cases "rl_ch r")
      (auto simp: deliver_to_def rl_enqueue_def chan_offer_def drop_oldest_queued_message_def queue_ok_def)
  show "rl_ch (snd (deliver_to now m r)) = lastn (rl_cap r) (rl_ch r @ [m])"
    using assms by (cases "rl_ch r")
      (auto simp: deliver_to_def rl_enqueue_def chan_offer_def drop_oldest_queued_message_def queue_ok_def
        lastn_Suc_full)
  show "rl_cap (snd (deliver_to now m r)) = rl_cap r"
    using assms by (cases "rl_ch r")
      (auto simp: deliver_to_def rl_enqueue_def chan_offer_def drop_oldest_queued_message_def queue_ok_def)
qed

lemma preempt_last:
  assumes "queue_ok r" and "0 < rl_cap r"
  shows "rl_ch (preempt_relay now m r) = lastn (rl_cap r) (rl_ch r @ [m])"
  using assms by (cases "rl_ch r")
    (auto simp: preempt_relay_def rl_enqueue_def chan_offer_def drop_oldest_queued_message_def queue_ok_def
      lastn_Suc_full)

text \<open>C27: A burst of data for a relay stream is always accepted and never grows the stream's queue
  beyond its size: what is left to be read is the newest part of what was queued and what arrived,
  in order. Other streams are not affected.\<close>

theorem relay_queue_keeps_newest:
  assumes "hb_relays h relay = Some r" and "queue_ok r" and "0 < rl_cap r" and "relay \<noteq> []"
    and "\<forall>m \<in> set ms. trim (acm_relay_id (snd m)) = relay \<and> trim (acm_type (snd m)) = ''relay_data''"
    and "h' = run_steps (\<lambda>h m. snd (deliver_relay (fst m) (snd m) h)) h ms"
  shows "\<exists>r'. hb_relays h' relay = Some r' \<and> rl_ch r' = lastn (rl_cap r) (rl_ch r @ map snd ms)
    \<and> length (rl_ch r') \<le> rl_cap r \<and> (\<forall>other. other \<noteq> relay \<longrightarrow> hb_relays h' other = hb_relays h other)"
  using assms
proof (induction ms arbitrary: h r)
  case Nil
  then show ?case by (auto simp: queue_ok_def)
next
  case (Cons m ms)
  obtain res r1 where d: "deliver_to (fst m) (snd m) r = (res, r1)" by (cases "deliver_to (fst m) (snd m) r")
  have ty: "trim (acm_type (snd m)) = ''relay_data''" and id: "trim (acm_relay_id (snd m)) = relay"
    using Cons.prems(5) by simp_all
  note dd = deliver_data[OF Cons.prems(2,3) ty, of "fst m", unfolded d, simplified]
  have ok: "queue_ok r1" using deliver_to_ok[OF Cons.prems(2), of "fst m" "snd m"] d by simp
  let ?h1 = "snd (deliver_relay (fst m) (snd m) h)"
  have h1: "hb_relays ?h1 = (hb_relays h)(relay \<mapsto> r1)"
    using Cons.prems(1,4) id d by (simp add: deliver_relay_def Let_def)
  have "\<exists>r'. hb_relays h' relay = Some r' \<and> rl_ch r' = lastn (rl_cap r1) (rl_ch r1 @ map snd ms)
      \<and> length (rl_ch r') \<le> rl_cap r1 \<and> (\<forall>other. other \<noteq> relay \<longrightarrow> hb_relays h' other = hb_relays ?h1 other)"
    using Cons.prems dd ok h1 by (intro Cons.IH) auto
  then show ?case using dd h1 by (auto simp: lastn_append)
qed

theorem relay_queue_keeps_newest_witness:
  "let m = (\<lambda>d. acm_zero\<lparr>acm_type := ''relay_data'', acm_relay_id := ''x'', acm_data := d\<rparr> :: nat agent_control_message);
       h = register_relay ''x'' ''r'' ''k'' 2 new_agent_control_hub
   in (\<exists>r. hb_relays (run_steps (\<lambda>h m. snd (deliver_relay (fst m) (snd m) h)) h
         [(1, m ''a''), (2, m ''b''), (3, m ''c'')]) ''x'' = Some r \<and> rl_ch r = [m ''b'', m ''c''])"
proof -
  let ?m = "\<lambda>d. acm_zero\<lparr>acm_type := ''relay_data'', acm_relay_id := ''x'', acm_data := d\<rparr> :: nat agent_control_message"
  let ?h = "register_relay ''x'' ''r'' ''k'' 2 new_agent_control_hub :: nat hub"
  let ?ms = "[(1, ?m ''a''), (2, ?m ''b''), (3, ?m ''c'')]"
  have x: "trim ''x'' = ''x''" and d: "trim ''relay_data'' = ''relay_data''" by code_simp+
  obtain r where r: "hb_relays ?h ''x'' = Some r" "rl_ch r = []" "rl_cap r = 2" "queue_ok r"
    by (simp add: register_relay_def x queue_ok_def)
  have "\<forall>m \<in> set ?ms. trim (acm_relay_id (snd m)) = ''x'' \<and> trim (acm_type (snd m)) = ''relay_data''"
    by (simp add: x d)
  from relay_queue_keeps_newest[OF r(1,4) _ _ this refl] r(2,3) show ?thesis
    by (auto simp: Let_def lastn_def)
qed

section \<open>Preemption\<close>

text \<open>C26: When a robot is attached under a new session, every relay stream of that robot that belongs
  to another session is told to close: the closing message is the last one in its queue, behind
  as much of what it had queued as fits. Streams of the new session and of other robots keep
  their queues.\<close>

theorem attach_preempts_relays:
  assumes "trim rid \<noteq> []" and "trim key \<noteq> []" and "\<not> matches_active_session rid key h"
    and "hb_relays h relay = Some r" and "queue_ok r" and "0 < rl_cap r"
    and "h' = set_active_session ufold now rid key h"
  shows "active_session rid h' = trim key \<and>
    (\<exists>r'. hb_relays h' relay = Some r' \<and>
      rl_ch r' = (if relay_is_stale ufold (trim rid) (trim key) r
        then lastn (rl_cap r) (rl_ch r @ [preempt_message relay (trim key)]) else rl_ch r))"
  using assms preempt_last[OF assms(5,6)]
  by (auto simp: set_active_session_def preempt_relays_for_session_def active_session_def
      matches_active_session_def trim_idem Let_def)

theorem attach_preempts_relays_witness:
  "let h = register_relay ''x'' ''r'' ''k'' 2 new_agent_control_hub :: nat hub;
       h' = set_active_session (\<lambda>_ _. False) 5 ''r'' ''new'' h
   in active_session ''r'' h' = ''new'' \<and>
      (\<exists>r'. hb_relays h' ''x'' = Some r' \<and> rl_ch r' = [preempt_message ''x'' ''new''])"
proof -
  let ?h = "register_relay ''x'' ''r'' ''k'' 2 new_agent_control_hub :: nat hub"
  have t: "trim ''x'' = ''x''" "trim ''r'' = ''r''" "trim ''k'' = ''k''" "trim ''new'' = ''new''" "trim [] = []"
    by code_simp+
  obtain r where r: "hb_relays ?h ''x'' = Some r" "queue_ok r" "rl_cap r = 2" "rl_ch r = []"
    "rl_robot_id r = ''r''" "rl_session_key r = ''k''"
    by (simp add: register_relay_def t queue_ok_def)
  have "\<not> matches_active_session ''r'' ''new'' ?h"
    by (simp add: matches_active_session_def register_relay_def new_agent_control_hub_def t)
  moreover have "relay_is_stale (\<lambda>_ _. False) ''r'' ''new'' r"
    unfolding relay_is_stale_def r(5,6) t by code_simp
  ultimately show ?thesis
    using attach_preempts_relays[OF _ _ _ r(1,2) _ refl, of "''r''" "''new''" "\<lambda>_ _. False" 5] r(3,4)
    by (simp add: t Let_def)
qed

section \<open>Runs of the hub\<close>

text \<open>What the endpoints do with the hub, as events. The writer task of a connection takes the
  oldest message of its send queue.\<close>

datatype 'j hub_event =
    HeConnect "'j agent_conn" string
  | HeDisconnect nat
  | HeRelayConnect "'j agent_conn"
  | HeRelayDisconnect nat
  | HeSend string "'j agent_control_message"
  | HeSendRelay string "'j agent_control_message"
  | HeWritten nat
  | HeRelayWritten nat
  | HeAttach gotime string string
  | HeDetach string string
  | HeCommand string string "'j option"
  | HeStatus string string "'j option"
  | HeAwait command_error string nat bool
  | HeResponse string "'j option"
  | HeOpenRelay string string string nat
  | HeCloseRelay string
  | HeDeliver gotime "'j agent_control_message"
  | HeTake string
  | HeTaken gotime string

definition connect_control ::
  "(string \<Rightarrow> string) \<Rightarrow> 'j agent_conn \<Rightarrow> string \<Rightarrow> 'j hub \<Rightarrow> (bool \<times> nat option) \<times> 'j hub" where
  "connect_control ulow c policy h =
     register_with_policy ulow (length (hb_control_store h)) policy
       (h\<lparr>hb_control_store := hb_control_store h @ [c]\<rparr>)"

definition connect_relay :: "'j agent_conn \<Rightarrow> 'j hub \<Rightarrow> nat option \<times> 'j hub" where
  "connect_relay c h =
     register_relay_conn (length (hb_relay_store h)) (h\<lparr>hb_relay_store := hb_relay_store h @ [c]\<rparr>)"

fun hub_step ::
  "(string \<Rightarrow> string) \<Rightarrow> (string \<Rightarrow> string \<Rightarrow> bool) \<Rightarrow> 'j hub \<Rightarrow> 'j hub_event \<Rightarrow> 'j hub" where
  "hub_step ulow ufold h (HeConnect c policy) = snd (connect_control ulow c policy h)"
| "hub_step ulow ufold h (HeDisconnect p) = snd (hub_unregister p h)"
| "hub_step ulow ufold h (HeRelayConnect c) = snd (connect_relay c h)"
| "hub_step ulow ufold h (HeRelayDisconnect p) = snd (unregister_relay_conn p h)"
| "hub_step ulow ufold h (HeSend r m) = snd (hub_send r m h)"
| "hub_step ulow ufold h (HeSendRelay r m) = snd (hub_send_relay r m h)"
| "hub_step ulow ufold h (HeWritten p) = upd_control p (\<lambda>c. c\<lparr>ac_send := drop 1 (ac_send c)\<rparr>) h"
| "hub_step ulow ufold h (HeRelayWritten p) = upd_relay p (\<lambda>c. c\<lparr>ac_send := drop 1 (ac_send c)\<rparr>) h"
| "hub_step ulow ufold h (HeAttach now r key) = set_active_session ufold now r key h"
| "hub_step ulow ufold h (HeDetach r key) = snd (clear_active_session_if_match r key h)"
| "hub_step ulow ufold h (HeCommand r q cmd) = snd (send_command r q cmd h)"
| "hub_step ulow ufold h (HeStatus r q query) = snd (send_status_query r q query h)"
| "hub_step ulow ufold h (HeAwait e q ch timed_out) =
     (if ch < length (hb_responses h) then snd (await_response e q ch timed_out h) else h)"
| "hub_step ulow ufold h (HeResponse q resp) = snd (deliver_response q resp h)"
| "hub_step ulow ufold h (HeOpenRelay relay r key n) = register_relay relay r key n h"
| "hub_step ulow ufold h (HeCloseRelay relay) = unregister_relay relay h"
| "hub_step ulow ufold h (HeDeliver now m) = snd (deliver_relay now m h)"
| "hub_step ulow ufold h (HeTake relay) = snd (take_relay relay h)"
| "hub_step ulow ufold h (HeTaken now relay) = snd (consume_relay_enqueue_wait now relay h)"

subsection \<open>Well-formedness\<close>

definition conns_ok :: "(string \<rightharpoonup> nat) \<Rightarrow> 'j agent_conn list \<Rightarrow> bool" where
  "conns_ok m cs \<longleftrightarrow>
     (\<forall>r p. m r = Some p \<longrightarrow> p < length cs \<and> ac_robot_id (cs ! p) = r \<and> trim r = r \<and> r \<noteq> []) \<and>
     (\<forall>c \<in> set cs. length (ac_send c) \<le> ac_cap c)"

definition pending_ok :: "(string \<rightharpoonup> nat) \<Rightarrow> 'a list list \<Rightarrow> bool" where
  "pending_ok m rs \<longleftrightarrow>
     (\<forall>q ch. m q = Some ch \<longrightarrow> ch < length rs \<and> rs ! ch = []) \<and>
     (\<forall>q q' ch. m q = Some ch \<and> m q' = Some ch \<longrightarrow> q = q')"

definition hub_wf :: "'j hub \<Rightarrow> bool" where
  "hub_wf h \<longleftrightarrow>
     conns_ok (hb_conns h) (hb_control_store h) \<and> conns_ok (hb_relay h) (hb_relay_store h) \<and>
     pending_ok (hb_pending h) (hb_responses h) \<and> (\<forall>id r. hb_relays h id = Some r \<longrightarrow> queue_ok r)"

lemma hub_wf_new: "hub_wf new_agent_control_hub"
  by (simp add: hub_wf_def new_agent_control_hub_def conns_ok_def pending_ok_def)

lemma conns_ok_new:
  assumes "conns_ok m cs" and "length (ac_send c) \<le> ac_cap c"
  shows "conns_ok m (cs @ [c])"
  using assms by (fastforce simp: conns_ok_def nth_append)

lemma conns_ok_insert:
  assumes "conns_ok m cs" and "length (ac_send c) \<le> ac_cap c" and "ac_robot_id c = r" "trim r = r" "r \<noteq> []"
  shows "conns_ok (m(r \<mapsto> length cs)) (cs @ [c])"
  using assms by (fastforce simp: conns_ok_def nth_append)

lemma conns_ok_remove: "conns_ok m cs \<Longrightarrow> conns_ok (m(r := None)) cs"
  by (auto simp: conns_ok_def)

lemma conns_ok_update:
  assumes "conns_ok m cs" and "ac_robot_id (f (cs ! p)) = ac_robot_id (cs ! p)"
    and "length (ac_send (cs ! p)) \<le> ac_cap (cs ! p) \<Longrightarrow> length (ac_send (f (cs ! p))) \<le> ac_cap (f (cs ! p))"
  shows "conns_ok m (cs[p := f (cs ! p)])"
proof (cases "p < length cs")
  case True
  have "length (ac_send (f (cs ! p))) \<le> ac_cap (f (cs ! p))"
    using assms(1,3) True by (simp add: conns_ok_def)
  then show ?thesis
    using assms(1,2) True set_update_subset_insert[of cs p "f (cs ! p)"]
    by (fastforce simp: conns_ok_def nth_list_update)
qed (use assms(1) in \<open>simp add: list_update_beyond\<close>)

lemma conn_offer_keeps:
  "ac_robot_id (snd (conn_offer m c)) = ac_robot_id c"
  "length (ac_send c) \<le> ac_cap c \<Longrightarrow> length (ac_send (snd (conn_offer m c))) \<le> ac_cap (snd (conn_offer m c))"
  by (simp_all add: conn_offer_def chan_offer_def)

lemma pending_ok_insert:
  assumes "pending_ok m rs"
  shows "pending_ok (m(q \<mapsto> length rs)) (rs @ [[]])"
  using assms by (fastforce simp: pending_ok_def nth_append)

lemma pending_ok_remove: "pending_ok m rs \<Longrightarrow> pending_ok (m(q := None)) rs"
  by (auto simp: pending_ok_def)

lemma pending_ok_answer:
  assumes "pending_ok m rs" and "m q = Some ch"
  shows "pending_ok (m(q := None)) (rs[ch := x])"
  using assms by (fastforce simp: pending_ok_def nth_list_update)

lemma pending_ok_take: "pending_ok m rs \<Longrightarrow> rs ! ch = y # x \<Longrightarrow> pending_ok m (rs[ch := x])"
  unfolding pending_ok_def by (metis length_list_update list.distinct(1) nth_list_update_neq)

lemma conns_ok_offer: "conns_ok m cs \<Longrightarrow> conns_ok m (cs[p := snd (conn_offer msg (cs ! p))])"
  by (rule conns_ok_update) (simp_all add: conn_offer_keeps)

lemma hub_send_wf: "hub_wf h \<Longrightarrow> hub_wf (snd (hub_send r m h))"
  by (auto simp: hub_send_def hub_wf_def upd_control_def conns_ok_offer split: option.splits)

lemma hub_send_relay_wf: "hub_wf h \<Longrightarrow> hub_wf (snd (hub_send_relay r m h))"
  by (auto simp: hub_send_relay_def hub_wf_def upd_relay_def conns_ok_offer split: option.splits)

lemma hub_send_frame:
  "hb_pending (snd (hub_send r m h)) = hb_pending h" "hb_responses (snd (hub_send r m h)) = hb_responses h"
  "hb_conns (snd (hub_send r m h)) = hb_conns h"
  by (simp_all add: hub_send_def upd_control_def split: option.splits)

lemma hub_wf_pending:
  "hub_wf h \<Longrightarrow> pending_ok m rs \<Longrightarrow> hub_wf (h\<lparr>hb_pending := m, hb_responses := rs\<rparr>)"
  by (simp add: hub_wf_def)

lemma start_request_wf:
  assumes "hub_wf h"
  shows "hub_wf (snd (start_request r q mk h))"
proof -
  let ?h1 = "h\<lparr>hb_pending := (hb_pending h)(q \<mapsto> length (hb_responses h)), hb_responses := hb_responses h @ [[]]\<rparr>"
  let ?m = "mk (active_session (trim r) h)"
  have "hub_wf ?h1" using assms by (intro hub_wf_pending) (auto simp: hub_wf_def intro: pending_ok_insert)
  from hub_send_wf[OF this, of "trim r" ?m] have wf: "hub_wf (snd (hub_send (trim r) ?m ?h1))" .
  then have "hub_wf ((snd (hub_send (trim r) ?m ?h1))
      \<lparr>hb_pending := (hb_pending (snd (hub_send (trim r) ?m ?h1)))(q := None)\<rparr>)"
    by (simp add: hub_wf_def pending_ok_remove)
  with wf show ?thesis by (auto simp: start_request_def Let_def split: prod.splits bool.splits)
qed

lemma connect_control_store:
  assumes "conns_ok m cs" and "length (ac_send c) \<le> ac_cap c" and "trim (ac_robot_id c) \<noteq> []"
  shows "conns_ok m (cs @ [c\<lparr>ac_robot_id := trim (ac_robot_id c)\<rparr>])"
    and "conns_ok (m(trim (ac_robot_id c) \<mapsto> length cs)) (cs @ [c\<lparr>ac_robot_id := trim (ac_robot_id c)\<rparr>])"
  using assms by (simp_all add: conns_ok_new conns_ok_insert trim_idem)

lemma connect_control_wf:
  assumes "hub_wf h" and "length (ac_send c) \<le> ac_cap c"
  shows "hub_wf (snd (connect_control ulow c policy h))"
  using assms connect_control_store[of "hb_conns h" "hb_control_store h" c] conns_ok_new[of "hb_conns h" "hb_control_store h" c]
  by (auto simp: connect_control_def register_with_policy_def upd_control_def hub_wf_def Let_def)

lemma connect_relay_wf:
  assumes "hub_wf h" and "length (ac_send c) \<le> ac_cap c"
  shows "hub_wf (snd (connect_relay c h))"
  using assms connect_control_store[of "hb_relay h" "hb_relay_store h" c] conns_ok_new[of "hb_relay h" "hb_relay_store h" c]
  by (auto simp: connect_relay_def register_relay_conn_def upd_relay_def hub_wf_def Let_def)

lemma conns_ok_written: "conns_ok m cs \<Longrightarrow> conns_ok m (cs[p := (cs ! p)\<lparr>ac_send := drop (Suc 0) (ac_send (cs ! p))\<rparr>])"
  by (rule conns_ok_update[where f = "\<lambda>c. c\<lparr>ac_send := drop (Suc 0) (ac_send c)\<rparr>"]) simp_all

lemma written_wf:
  assumes "hub_wf h"
  shows "hub_wf (upd_control p (\<lambda>c. c\<lparr>ac_send := drop 1 (ac_send c)\<rparr>) h)"
    and "hub_wf (upd_relay p (\<lambda>c. c\<lparr>ac_send := drop 1 (ac_send c)\<rparr>) h)"
  using assms by (simp_all add: hub_wf_def upd_control_def upd_relay_def conns_ok_written)

lemma set_active_session_wf: "hub_wf h \<Longrightarrow> hub_wf (set_active_session ufold now r key h)"
  by (auto simp: set_active_session_def preempt_relays_for_session_def hub_wf_def Let_def
      intro: preempt_relay_ok split: option.splits)

lemma deliver_response_wf: "hub_wf h \<Longrightarrow> hub_wf (snd (deliver_response q resp h))"
  by (auto simp: deliver_response_def hub_wf_def Let_def intro: pending_ok_answer split: option.splits)

lemma await_response_wf: "hub_wf h \<Longrightarrow> hub_wf (snd (await_response e q ch t h))"
  by (auto simp: await_response_def hub_wf_def intro: pending_ok_remove pending_ok_take split: list.splits)

lemma deliver_relay_wf: "hub_wf h \<Longrightarrow> hub_wf (snd (deliver_relay now m h))"
  using deliver_to_ok[of _ now m]
  by (fastforce simp: deliver_relay_def hub_wf_def Let_def split: option.splits prod.splits)

lemma take_relay_wf: "hub_wf h \<Longrightarrow> hub_wf (snd (take_relay relay h))"
  by (fastforce simp: take_relay_def hub_wf_def queue_ok_def split: option.splits list.splits)

lemma consume_wait_wf: "hub_wf h \<Longrightarrow> hub_wf (snd (consume_relay_enqueue_wait now relay h))"
  by (fastforce simp: consume_relay_enqueue_wait_def pop_enqueue_timestamp_def hub_wf_def queue_ok_def Let_def
      split: option.splits list.splits)

fun event_ok :: "'j hub_event \<Rightarrow> bool" where
  "event_ok (HeConnect c policy) \<longleftrightarrow> length (ac_send c) \<le> ac_cap c"
| "event_ok (HeRelayConnect c) \<longleftrightarrow> length (ac_send c) \<le> ac_cap c"
| "event_ok e \<longleftrightarrow> True"

lemma hub_small_steps_wf:
  assumes "hub_wf h"
  shows "hub_wf (snd (hub_unregister p h))" "hub_wf (snd (unregister_relay_conn p h))"
    "hub_wf (snd (clear_active_session_if_match r key h))" "hub_wf (register_relay relay r key n h)"
    "hub_wf (unregister_relay relay h)"
  using assms
  by (simp_all add: hub_wf_def hub_unregister_def unregister_relay_conn_def clear_active_session_if_match_def
      register_relay_def unregister_relay_def conns_ok_remove queue_ok_def Let_def)

lemmas hub_ops_wf = connect_control_wf connect_relay_wf written_wf[unfolded One_nat_def] hub_send_wf
  hub_send_relay_wf set_active_session_wf deliver_response_wf await_response_wf deliver_relay_wf
  take_relay_wf consume_wait_wf start_request_wf hub_small_steps_wf

lemma hub_step_wf: "hub_wf h \<Longrightarrow> event_ok e \<Longrightarrow> hub_wf (hub_step ulow ufold h e)"
  by (cases e) (simp_all add: hub_ops_wf send_command_def send_status_query_def)

lemma hub_run_wf: "hub_wf h \<Longrightarrow> list_all event_ok es \<Longrightarrow> hub_wf (run_steps (hub_step ulow ufold) h es)"
  by (induction es arbitrary: h) (auto intro: hub_step_wf)

subsection \<open>Commands and responses\<close>

text \<open>The responses the agents sent for a request, in the order they arrived.\<close>

fun responses_for :: "string \<Rightarrow> 'j hub_event list \<Rightarrow> 'j option list" where
  "responses_for q [] = []"
| "responses_for q (HeResponse q' resp # es) =
     (if trim q' = q then resp # responses_for q es else responses_for q es)"
| "responses_for q (e # es) = responses_for q es"

text \<open>An event of another caller: it neither reuses the request's identifier nor waits for it.\<close>

fun of_others :: "string \<Rightarrow> nat \<Rightarrow> 'j hub_event \<Rightarrow> bool" where
  "of_others q ch (HeCommand r q' cmd) \<longleftrightarrow> q' \<noteq> q"
| "of_others q ch (HeStatus r q' query) \<longleftrightarrow> q' \<noteq> q"
| "of_others q ch (HeAwait e q' ch' t) \<longleftrightarrow> q' \<noteq> q \<and> ch' \<noteq> ch"
| "of_others q ch e \<longleftrightarrow> True"

definition waits :: "string \<Rightarrow> nat \<Rightarrow> 'j hub \<Rightarrow> bool" where
  "waits q ch h \<longleftrightarrow> ch < length (hb_responses h) \<and> hb_pending h q = Some ch \<and> hb_responses h ! ch = []"

definition request_answered :: "string \<Rightarrow> nat \<Rightarrow> 'j option \<Rightarrow> 'j hub \<Rightarrow> bool" where
  "request_answered q ch resp h \<longleftrightarrow>
     ch < length (hb_responses h) \<and> hb_pending h q = None \<and> ch \<notin> ran (hb_pending h) \<and>
     hb_responses h ! ch = [resp]"

text \<open>Only commands, waits and responses touch the table of pending requests.\<close>

fun is_request_event :: "'j hub_event \<Rightarrow> bool" where
  "is_request_event (HeCommand r q cmd) = True"
| "is_request_event (HeStatus r q query) = True"
| "is_request_event (HeAwait e q ch t) = True"
| "is_request_event (HeResponse q resp) = True"
| "is_request_event e = False"

lemma quiet_step:
  assumes "\<not> is_request_event e"
  shows "hb_pending (hub_step ulow ufold h e) = hb_pending h"
    and "hb_responses (hub_step ulow ufold h e) = hb_responses h"
  using assms
  by (cases e; simp add: connect_control_def register_with_policy_def upd_control_def hub_unregister_def
      connect_relay_def register_relay_conn_def upd_relay_def unregister_relay_conn_def hub_send_def
      hub_send_relay_def set_active_session_def preempt_relays_for_session_def
      clear_active_session_if_match_def register_relay_def unregister_relay_def deliver_relay_def
      take_relay_def consume_relay_enqueue_wait_def Let_def
      split: option.splits prod.splits list.splits)+

lemma start_request_table:
  "hb_responses (snd (start_request r q mk h)) = hb_responses h @ [[]]"
  "hb_pending (snd (start_request r q mk h)) =
     (if isl (fst (start_request r q mk h)) then (hb_pending h)(q := None)
      else (hb_pending h)(q \<mapsto> length (hb_responses h)))"
  "fst (start_request r q mk h) = Inr ch \<Longrightarrow> ch = length (hb_responses h)"
proof -
  let ?h1 = "h\<lparr>hb_pending := (hb_pending h)(q \<mapsto> length (hb_responses h)), hb_responses := hb_responses h @ [[]]\<rparr>"
  obtain b h2 where s: "hub_send (trim r) (mk (active_session (trim r) h)) ?h1 = (b, h2)"
    by (cases "hub_send (trim r) (mk (active_session (trim r) h)) ?h1")
  have "hb_pending h2 = hb_pending ?h1" "hb_responses h2 = hb_responses ?h1"
    using hub_send_frame[of "trim r" "mk (active_session (trim r) h)" ?h1] s by simp_all
  then show "hb_responses (snd (start_request r q mk h)) = hb_responses h @ [[]]"
    "hb_pending (snd (start_request r q mk h)) =
     (if isl (fst (start_request r q mk h)) then (hb_pending h)(q := None)
      else (hb_pending h)(q \<mapsto> length (hb_responses h)))"
    "fst (start_request r q mk h) = Inr ch \<Longrightarrow> ch = length (hb_responses h)"
    using s by (cases b; simp add: start_request_def Let_def)+
qed

lemma waits_request:
  assumes "waits q ch h" and "q' \<noteq> q"
  shows "waits q ch (snd (start_request r q' mk h))"
  using assms by (auto simp: waits_def start_request_table nth_append)

lemma answered_request:
  assumes "request_answered q ch resp h" and "q' \<noteq> q"
  shows "request_answered q ch resp (snd (start_request r q' mk h))"
  using assms by (auto simp: request_answered_def start_request_table nth_append ran_def split: if_splits)

lemma waits_started:
  assumes "start_request r q mk h = (Inr ch, h1)"
  shows "waits q ch h1"
proof -
  have "ch = length (hb_responses h)" using start_request_table(3)[of r q mk h ch] assms by simp
  then show ?thesis using start_request_table(1,2)[of r q mk h] assms by (simp add: waits_def)
qed

lemma started_wf: "hub_wf h \<Longrightarrow> start_request r q mk h = (x, h1) \<Longrightarrow> hub_wf h1"
  using start_request_wf[of h r q mk] by simp

lemma waits_await:
  "waits q ch h \<Longrightarrow> q' \<noteq> q \<Longrightarrow> ch' \<noteq> ch \<Longrightarrow> waits q ch (snd (await_response e q' ch' t h))"
  by (auto simp: waits_def await_response_def split: list.splits)

lemma answered_await:
  "request_answered q ch resp h \<Longrightarrow> q' \<noteq> q \<Longrightarrow> ch' \<noteq> ch \<Longrightarrow> request_answered q ch resp (snd (await_response e q' ch' t h))"
  by (auto simp: request_answered_def await_response_def ran_def split: list.splits)

lemma waits_response:
  assumes "hub_wf h" and "waits q ch h" and "trim q' \<noteq> q"
  shows "waits q ch (snd (deliver_response q' resp h))"
proof (cases "hb_pending h (trim q')")
  case None
  with assms(2) show ?thesis by (simp add: deliver_response_def Let_def)
next
  case (Some c)
  then have "c \<noteq> ch" using assms by (auto simp: hub_wf_def pending_ok_def waits_def)
  with Some assms(2,3) show ?thesis by (simp add: deliver_response_def waits_def Let_def)
qed

lemma answered_response:
  assumes "request_answered q ch resp h"
  shows "request_answered q ch resp (snd (deliver_response q' resp' h))"
proof (cases "hb_pending h (trim q')")
  case None
  with assms show ?thesis by (simp add: deliver_response_def Let_def)
next
  case (Some c)
  then have "c \<noteq> ch" using assms by (auto simp: request_answered_def ran_def)
  with Some assms show ?thesis by (auto simp: deliver_response_def request_answered_def ran_def Let_def)
qed

lemma waits_step:
  assumes "hub_wf h" and "waits q ch h" and "of_others q ch e" and "\<forall>q' resp. e = HeResponse q' resp \<longrightarrow> trim q' \<noteq> q"
  shows "waits q ch (hub_step ulow ufold h e)"
proof (cases "is_request_event e")
  case False
  with assms(2) show ?thesis by (simp add: waits_def quiet_step)
next
  case True
  then show ?thesis
    using assms
    by (cases e) (simp_all add: send_command_def send_status_query_def waits_request waits_await waits_response)
qed

lemma answered_step:
  assumes "request_answered q ch resp h" and "of_others q ch e"
  shows "request_answered q ch resp (hub_step ulow ufold h e)"
proof (cases "is_request_event e")
  case False
  with assms(1) show ?thesis by (simp add: request_answered_def quiet_step)
next
  case True
  then show ?thesis
    using assms
    by (cases e)
      (simp_all add: send_command_def send_status_query_def answered_request answered_await answered_response)
qed

lemma response_answers:
  assumes "hub_wf h" and "waits q ch h" and "trim q' = q" and "q \<noteq> []"
  shows "request_answered q ch resp (snd (deliver_response q' resp h))"
  using assms
  by (auto simp: waits_def request_answered_def deliver_response_def chan_offer_def hub_wf_def pending_ok_def ran_def Let_def)

lemma answered_run:
  "request_answered q ch resp h \<Longrightarrow> list_all (of_others q ch) es \<Longrightarrow> request_answered q ch resp (run_steps (hub_step ulow ufold) h es)"
  by (induction es arbitrary: h) (auto intro: answered_step)

lemma waits_run:
  assumes "hub_wf h" and "waits q ch h" and "q \<noteq> []" and "list_all event_ok es" and "list_all (of_others q ch) es"
  shows "case responses_for q es of
      [] \<Rightarrow> waits q ch (run_steps (hub_step ulow ufold) h es)
    | resp # _ \<Rightarrow> request_answered q ch resp (run_steps (hub_step ulow ufold) h es)"
  using assms
proof (induction es arbitrary: h)
  case Nil
  then show ?case by simp
next
  case (Cons e es)
  have wf: "hub_wf (hub_step ulow ufold h e)" using Cons.prems by (intro hub_step_wf) auto
  show ?case
  proof (cases "\<exists>q' resp. e = HeResponse q' resp \<and> trim q' = q")
    case True
    then obtain q' resp where e: "e = HeResponse q' resp" "trim q' = q" by blast
    have "request_answered q ch resp (hub_step ulow ufold h e)"
      using response_answers[OF Cons.prems(1,2) e(2) Cons.prems(3)] e by simp
    then have "request_answered q ch resp (run_steps (hub_step ulow ufold) (hub_step ulow ufold h e) es)"
      using Cons.prems by (intro answered_run) auto
    then show ?thesis using e by simp
  next
    case False
    then have w: "waits q ch (hub_step ulow ufold h e)"
      using Cons.prems by (intro waits_step) auto
    have "responses_for q (e # es) = responses_for q es" using False by (cases e) auto
    then show ?thesis using Cons.IH[OF wf w Cons.prems(3)] Cons.prems(4,5) by (simp split: list.splits)
  qed
qed

text \<open>C24: A caller that sends a command gets the first response that any agent sends for its request
  identifier and no other, whatever else happens at the hub meanwhile: other commands and their
  responses, connections, sessions, streams. Until that response arrives the caller waits; later
  responses for the same request are dropped.\<close>

theorem command_response_correlated:
  assumes "hub_wf h" and "send_command rid q cmd h = (Inr ch, h1)" and "trim q = q" and "q \<noteq> []"
    and "list_all event_ok es" and "list_all (of_others q ch) es"
    and "h2 = run_steps (hub_step ulow ufold) h1 es"
  shows "fst (await_response e q ch False h2) =
    (case responses_for q es of [] \<Rightarrow> None | resp # _ \<Rightarrow> Some (Inr resp))"
proof -
  note start = assms(2)[unfolded send_command_def]
  have "hub_wf h1" by (rule started_wf[OF assms(1) start])
  moreover have "waits q ch h1" by (rule waits_started[OF start])
  ultimately have run: "case responses_for q es of [] \<Rightarrow> waits q ch h2 | resp # _ \<Rightarrow> request_answered q ch resp h2"
    unfolding assms(7) by (rule waits_run[OF _ _ assms(4-6)])
  show ?thesis
  proof (cases "responses_for q es")
    case Nil
    with run show ?thesis by (simp add: await_response_def waits_def)
  next
    case (Cons resp rest)
    with run show ?thesis by (simp add: await_response_def request_answered_def)
  qed
qed

text \<open>A hub with one agent connected, for the witnesses.\<close>

definition demo_conn :: "nat agent_conn" where
  "demo_conn = \<lparr>ac_robot_id = ''r'', ac_session_id = ''s'', ac_observed_src_ip = [], ac_connected_at = 1,
     ac_send = [], ac_cap = 256, ac_done = False, ac_reason = []\<rparr>"

definition demo_hub :: "nat hub" where
  "demo_hub = new_agent_control_hub\<lparr>hb_conns := [''r'' \<mapsto> 0], hb_control_store := [demo_conn]\<rparr>"

lemma trim_names: "trim ''r'' = ''r''" "trim ''q'' = ''q''" "trim '' q'' = ''q''" "trim ''p'' = ''p''" "trim [] = []"
  by code_simp+

lemma demo_hub_wf: "hub_wf demo_hub"
  by (simp add: hub_wf_def demo_hub_def new_agent_control_hub_def conns_ok_def pending_ok_def demo_conn_def
      trim_names)

theorem command_response_correlated_witness:
  "let h1 = snd (send_command ''r'' ''q'' (Some 4) demo_hub);
       es = [HeResponse ''p'' (Some 5), HeResponse '' q'' (Some 7), HeResponse ''q'' (Some 8)]
   in fst (await_response NoActiveControlChannel ''q'' 0 False (run_steps (hub_step id (\<lambda>_ _. False)) h1 es))
      = Some (Inr (Some 7))"
proof -
  let ?es = "[HeResponse ''p'' (Some 5), HeResponse '' q'' (Some 7), HeResponse ''q'' (Some 8)] :: nat hub_event list"
  obtain h1 where s: "send_command ''r'' ''q'' (Some 4) demo_hub = (Inr 0, h1)"
    by (simp add: send_command_def start_request_def hub_send_def conn_offer_def chan_offer_def Let_def
        demo_hub_def demo_conn_def new_agent_control_hub_def trim_names)
  from command_response_correlated[OF demo_hub_wf s, of ?es, OF _ _ _ _ refl]
  show ?thesis by (simp add: s trim_names Let_def)
qed

subsection \<open>Exclusive control channels\<close>

fun leaves_channel :: "(string \<Rightarrow> string) \<Rightarrow> nat \<Rightarrow> 'j hub_event \<Rightarrow> bool" where
  "leaves_channel ulow p (HeConnect c policy) \<longleftrightarrow> normalize_concurrency_policy ulow policy = reject_new"
| "leaves_channel ulow p (HeDisconnect p') \<longleftrightarrow> p' \<noteq> p"
| "leaves_channel ulow p e \<longleftrightarrow> True"

lemma channel_step:
  assumes "hb_conns h r = Some p" and "leaves_channel ulow p e"
  shows "hb_conns (hub_step ulow ufold h e) r = Some p"
proof (cases e)
  case (HeCommand a b c)
  then show ?thesis using assms(1)
    by (auto simp: send_command_def start_request_def hub_send_def upd_control_def Let_def
        split: option.splits prod.splits bool.splits)
next
  case (HeStatus a b c)
  then show ?thesis using assms(1)
    by (auto simp: send_status_query_def start_request_def hub_send_def upd_control_def Let_def
        split: option.splits prod.splits bool.splits)
qed (use assms in \<open>simp add: connect_control_def register_with_policy_def upd_control_def hub_unregister_def
      connect_relay_def register_relay_conn_def upd_relay_def unregister_relay_conn_def hub_send_def
      hub_send_relay_def set_active_session_def preempt_relays_for_session_def await_response_def
      clear_active_session_if_match_def register_relay_def unregister_relay_def deliver_relay_def
      take_relay_def consume_relay_enqueue_wait_def deliver_response_def Let_def
      split: option.splits prod.splits list.splits; fastforce?\<close>)+

lemma channel_run:
  "hb_conns h r = Some p \<Longrightarrow> list_all (leaves_channel ulow p) es \<Longrightarrow>
     hb_conns (run_steps (hub_step ulow ufold) h es) r = Some p"
  by (induction es arbitrary: h) (auto intro: channel_step)

text \<open>C25: Under the default policy a robot's control channel belongs to the connection that holds it:
  until that connection itself ends, every competing connection for the robot is refused with the
  holder named, and neither refused connections nor the ends of older ones take the channel away.\<close>

theorem control_channel_exclusive:
  assumes "hb_conns h r = Some p" and "r \<noteq> []" and "list_all (leaves_channel ulow p) es"
    and "trim (ac_robot_id c) = r" and "normalize_concurrency_policy ulow policy = reject_new"
    and "h' = run_steps (hub_step ulow ufold) h es"
  shows "hb_conns h' r = Some p \<and> fst (connect_control ulow c policy h') = (False, Some p)
    \<and> hb_conns (snd (connect_control ulow c policy h')) = hb_conns h'"
proof -
  have "hb_conns h' r = Some p" unfolding assms(6) by (rule channel_run[OF assms(1,3)])
  then show ?thesis
    using assms(2,4,5) by (simp add: connect_control_def register_with_policy_def upd_control_def Let_def)
qed

lemma demo_policy: "normalize_concurrency_policy id [] = reject_new" "normalize_concurrency_policy id ''Typo'' = reject_new"
  by code_simp+

theorem control_channel_exclusive_witness:
  "let h' = run_steps (hub_step id (\<lambda>_ _. False)) demo_hub [HeConnect demo_conn [], HeDisconnect 1]
   in hb_conns h' ''r'' = Some 0 \<and> fst (connect_control id demo_conn ''Typo'' h') = (False, Some 0)"
proof -
  let ?es = "[HeConnect demo_conn [], HeDisconnect 1]"
  have "hb_conns demo_hub ''r'' = Some 0" by (simp add: demo_hub_def)
  moreover have "list_all (leaves_channel id 0) ?es" by (simp add: demo_policy)
  moreover have "trim (ac_robot_id demo_conn) = ''r''" by (simp add: demo_conn_def trim_names)
  ultimately show ?thesis
    using control_channel_exclusive[of demo_hub "''r''" 0 id ?es demo_conn "''Typo''", OF _ _ _ _ demo_policy(2) refl,
        of "\<lambda>_ _. False"] by (simp add: Let_def)
qed

end
