(* ===== verification/Relay_Trigger.thy ===== *)
theory Relay_Trigger
  imports Tunnel Relay_Laws
begin

text \<open>
  How the platform reaches an agent to start or end a WebRTC session: the TCP client of
  \<open>go/relay/bootstrap.go\<close>, the backoff gate of \<open>go/relay/fallback_gate.go\<close>, and
  \<open>TriggerBootstrap\<close> of \<open>go/relay/server.go\<close>, which tries the control channel first. The
  signature scheme, the JSON encoder, the robot directory and the network are parameters. A
  deadline that passes is one of the ways a connection's read half ends.
\<close>

section \<open>Connections\<close>

datatype go_error = GoEof | GoUnexpectedEof | GoOther string | GoWrap string go_error

definition go_read_error :: "reader \<Rightarrow> go_error" where
  "go_read_error r =
     (case rend r of RErr m \<Rightarrow> GoOther m | REof \<Rightarrow> if rbytes r = [] then GoEof else GoUnexpectedEof)"

definition read_full :: "nat \<Rightarrow> (duplex, go_error, bytes) io" where
  "read_full n d =
     (let r = rd d in
      if n \<le> length (rbytes r) then (Inr (take n (rbytes r)), d\<lparr>rd := r\<lparr>rbytes := drop n (rbytes r)\<rparr>\<rparr>)
      else (Inl (go_read_error r), d\<lparr>rd := r\<lparr>rbytes := []\<rparr>\<rparr>))"

definition conn_write :: "bytes \<Rightarrow> (duplex, go_error, unit) io" where
  "conn_write bs =
     io_map_err (\<lambda>e. case e of UnexpectedEof \<Rightarrow> GoUnexpectedEof | TimedOut m \<Rightarrow> GoOther m | IoOther m \<Rightarrow> GoOther m)
       (on_wr (write_all bs))"

definition read_byte :: "(duplex, go_error, byte) io" where
  "read_byte = io_bind (read_full 1) (\<lambda>b. io_return (hd b))"

definition write_byte :: "byte \<Rightarrow> (duplex, go_error, unit) io" where
  "write_byte b = conn_write [b]"

section \<open>The agent's TCP client\<close>

definition go_authenticate :: "ed25519 \<Rightarrow> bytes \<Rightarrow> (duplex, go_error, unit) io" where
  "go_authenticate ed seed =
     (if length seed \<noteq> 32 then io_fail (GoOther ''invalid seed size'')
      else
        io_bind (read_full 32) (\<lambda>nonce.
        io_bind (conn_write (pub_of ed seed)) (\<lambda>_.
        io_bind (conn_write (sign_of ed seed nonce)) (\<lambda>_.
        io_bind (read_full 1) (\<lambda>res.
        if hd res \<noteq> 0x01 then io_fail (GoOther ''unauthorized by agent'') else io_return ())))))"

definition go_write_frame :: "byte \<Rightarrow> bytes \<Rightarrow> (duplex, go_error, unit) io" where
  "go_write_frame frame_type data =
     io_bind (write_byte frame_type) (\<lambda>_.
     io_bind (conn_write (u32_to_be_bytes (word_of_nat (length data)))) (\<lambda>_.
     conn_write data))"

definition go_read_frame :: "(duplex, go_error, byte \<times> bytes) io" where
  "go_read_frame =
     io_bind read_byte (\<lambda>frame_type.
     io_bind (read_full 4) (\<lambda>len.
     let n = unat (u32_from_be_bytes len) in
     if 64 * 1024 * 1024 < n then io_fail (GoOther ''frame too large'')
     else io_bind (read_full n) (\<lambda>data. io_return (frame_type, data))))"

definition go_wrap :: "string \<Rightarrow> (duplex, go_error, 'a) io \<Rightarrow> (duplex, go_error, 'a) io" where
  "go_wrap m = io_map_err (GoWrap m)"

record web_rtc_bootstrap =
  gb_bootstrap_id :: string
  gb_cli_public_ip :: string
  gb_cli_lan_cidr :: string
  gb_route_type :: string

text \<open>What the client calls outside the repository: the dialler, the signature scheme, the JSON
  codec. A teardown payload is its one string.\<close>

record 'j trigger_env =
  tr_ed :: ed25519
  tr_dial :: "string \<Rightarrow> int \<Rightarrow> go_error + duplex"
  tr_marshal_bootstrap :: "web_rtc_bootstrap \<Rightarrow> go_error + bytes"
  tr_marshal_teardown :: "string \<Rightarrow> go_error + bytes"
  tr_marshal_command :: "'j \<Rightarrow> go_error + bytes"
  tr_unmarshal_response :: "bytes \<Rightarrow> go_error + 'j"
  tr_target :: "string \<Rightarrow> go_error + string"

definition lift_result :: "go_error + 'a \<Rightarrow> (duplex, go_error, 'a) io" where
  "lift_result x = (case x of Inl e \<Rightarrow> io_fail e | Inr a \<Rightarrow> io_return a)"

text \<open>Dial, run on the connection, close: the result and the connection as the client left it.\<close>

definition with_conn ::
  "'j trigger_env \<Rightarrow> string \<Rightarrow> int \<Rightarrow> string \<Rightarrow> (duplex, go_error, 'a) io \<Rightarrow> (go_error + 'a) \<times> duplex option" where
  "with_conn env host port dial_text body =
     (case tr_dial env host port of
        Inl e \<Rightarrow> (Inl (GoWrap dial_text e), None)
      | Inr d \<Rightarrow> (case body d of (res, d') \<Rightarrow> (res, Some d')))"

definition go_send_command ::
  "'j trigger_env \<Rightarrow> string \<Rightarrow> int \<Rightarrow> bytes \<Rightarrow> 'j \<Rightarrow> (go_error + 'j) \<times> duplex option" where
  "go_send_command env host port seed request =
     with_conn env host port ''dial agent'' (
       io_bind (go_wrap ''auth agent'' (go_authenticate (tr_ed env) seed)) (\<lambda>_.
       io_bind (lift_result (tr_marshal_command env request)) (\<lambda>req_bytes.
       io_bind (go_wrap ''write request'' (go_write_frame 0x02 req_bytes)) (\<lambda>_.
       io_bind (go_wrap ''read response'' go_read_frame) (\<lambda>(frame_type, resp_bytes).
       if frame_type \<noteq> 0x03 then io_fail (GoOther (''unexpected frame type: 0x'' @ fmt_02x frame_type))
       else lift_result (tr_unmarshal_response env resp_bytes))))))"

definition trigger_web_rtc_bootstrap ::
  "'j trigger_env \<Rightarrow> string \<Rightarrow> int \<Rightarrow> bytes \<Rightarrow> web_rtc_bootstrap \<Rightarrow> (go_error + unit) \<times> duplex option" where
  "trigger_web_rtc_bootstrap env host port seed pl =
     with_conn env host port ''dial agent for bootstrap trigger'' (
       io_bind (go_wrap ''auth agent for bootstrap trigger'' (go_authenticate (tr_ed env) seed)) (\<lambda>_.
       io_bind (go_wrap ''marshal bootstrap payload'' (lift_result (tr_marshal_bootstrap env pl))) (\<lambda>data.
       go_wrap ''write bootstrap trigger'' (go_write_frame 0x20 data))))"

definition trigger_web_rtc_teardown ::
  "'j trigger_env \<Rightarrow> string \<Rightarrow> int \<Rightarrow> bytes \<Rightarrow> string \<Rightarrow> (go_error + unit) \<times> duplex option" where
  "trigger_web_rtc_teardown env host port seed bootstrap_id =
     with_conn env host port ''dial agent for teardown trigger'' (
       io_bind (go_wrap ''auth agent for teardown trigger'' (go_authenticate (tr_ed env) seed)) (\<lambda>_.
       io_bind (go_wrap ''marshal teardown payload'' (lift_result (tr_marshal_teardown env bootstrap_id))) (\<lambda>data.
       go_wrap ''write teardown trigger'' (go_write_frame 0x21 data))))"

section \<open>The backoff gate\<close>

record fallback_trigger_state =
  fs_next_allowed_at :: gotime
  fs_consecutive_failures :: int
  fs_last_seen_at :: gotime

type_synonym gate = "string \<rightharpoonup> fallback_trigger_state"

definition fs_zero :: fallback_trigger_state where
  "fs_zero = \<lparr>fs_next_allowed_at = 0, fs_consecutive_failures = 0, fs_last_seen_at = 0\<rparr>"

definition fallback_gate_retention :: duration where "fallback_gate_retention = 20 * minute"

definition gate_key :: "string \<Rightarrow> bool \<Rightarrow> string" where
  "gate_key rid teardown =
     (if trim rid = [] then [] else trim rid @ (if teardown then '':teardown'' else '':bootstrap''))"

definition normalize_gate_now :: "gotime \<Rightarrow> gotime \<Rightarrow> gotime" where
  "normalize_gate_now clk now = (if is_zero now then clk else now)"

definition prune_gate :: "gotime \<Rightarrow> gate \<Rightarrow> gate" where
  "prune_gate now g =
     (\<lambda>key. case g key of
        None \<Rightarrow> None
      | Some s \<Rightarrow>
          if is_zero (fs_last_seen_at s) then None
          else if fallback_gate_retention < time_sub now (fs_last_seen_at s) then None else Some s)"

definition backoff_base :: "bool \<Rightarrow> duration" where
  "backoff_base teardown = (if teardown then 1 * second else 500 * millisecond)"

definition backoff_max :: "bool \<Rightarrow> duration" where
  "backoff_max teardown = (if teardown then 12 * second else 8 * second)"

fun double_up_to :: "nat \<Rightarrow> duration \<Rightarrow> duration \<Rightarrow> duration" where
  "double_up_to 0 mx b = (if mx < b then mx else b)"
| "double_up_to (Suc n) mx b = (if mx \<le> b * 2 then mx else double_up_to n mx (b * 2))"

definition fallback_backoff :: "int \<Rightarrow> bool \<Rightarrow> duration" where
  "fallback_backoff failures teardown =
     (if failures \<le> 0 then backoff_base teardown
      else double_up_to (nat (min 8 (failures - 1))) (backoff_max teardown) (backoff_base teardown))"

definition gate_allow :: "gotime \<Rightarrow> string \<Rightarrow> bool \<Rightarrow> gotime \<Rightarrow> gate \<Rightarrow> bool \<times> gate" where
  "gate_allow clk rid teardown now0 g =
     (let key = gate_key rid teardown; now = normalize_gate_now clk now0 in
      if key = [] then (True, g)
      else
        let g1 = prune_gate now g; s = (get_or fs_zero g1 key)\<lparr>fs_last_seen_at := now\<rparr> in
        (is_zero (fs_next_allowed_at s) \<or> \<not> now < fs_next_allowed_at s, g1(key \<mapsto> s)))"

definition gate_record_failure :: "gotime \<Rightarrow> string \<Rightarrow> bool \<Rightarrow> gotime \<Rightarrow> gate \<Rightarrow> gate" where
  "gate_record_failure clk rid teardown now0 g =
     (let key = gate_key rid teardown; now = normalize_gate_now clk now0 in
      if key = [] then g
      else
        let g1 = prune_gate now g; s = get_or fs_zero g1 key; n = fs_consecutive_failures s + 1 in
        g1(key \<mapsto> s\<lparr>fs_last_seen_at := now, fs_consecutive_failures := n,
                     fs_next_allowed_at := now + fallback_backoff n teardown\<rparr>))"

definition gate_record_success :: "gotime \<Rightarrow> string \<Rightarrow> bool \<Rightarrow> gotime \<Rightarrow> gate \<Rightarrow> gate" where
  "gate_record_success clk rid teardown now0 g =
     (let key = gate_key rid teardown; now = normalize_gate_now clk now0 in
      if key = [] then g
      else
        let g1 = prune_gate now g; s = get_or fs_zero g1 key in
        g1(key \<mapsto> s\<lparr>fs_last_seen_at := now, fs_consecutive_failures := 0, fs_next_allowed_at := 0\<rparr>))"

section \<open>Triggering\<close>

record 'j relay_server =
  rv_hub :: "'j hub"
  rv_gate :: gate
  rv_seed :: bytes

definition new_relay_server :: "bytes \<Rightarrow> 'j relay_server" where
  "new_relay_server seed = \<lparr>rv_hub = new_agent_control_hub, rv_gate = Map.empty, rv_seed = seed\<rparr>"

definition trigger_message :: "bool \<Rightarrow> string \<Rightarrow> string \<Rightarrow> string \<Rightarrow> 'j agent_control_message" where
  "trigger_message teardown cli_ip key route =
     (let msg = acm_zero\<lparr>acm_bootstrap_id := key, acm_session_key := key, acm_route_type := trim route\<rparr> in
      if teardown then msg\<lparr>acm_type := ''webrtc_teardown''\<rparr>
      else msg\<lparr>acm_type := ''webrtc_bootstrap'', acm_cli_public_ip := cli_ip\<rparr>)"

text \<open>The fallback over TCP, with the outcome recorded at the gate.\<close>

definition trigger_over_tcp ::
  "'j trigger_env \<Rightarrow> gotime \<Rightarrow> string \<Rightarrow> bool \<Rightarrow> string \<Rightarrow> string \<Rightarrow> string \<Rightarrow> 'j relay_server \<Rightarrow>
   ((go_error + unit) \<times> duplex option) \<times> 'j relay_server" where
  "trigger_over_tcp env now rid teardown cli_ip key route s =
     (case tr_target env rid of
        Inl e \<Rightarrow> ((Inl e, None), s)
      | Inr target \<Rightarrow>
          (let host = trim target in
           if host = [] then ((Inl (GoOther ''robot has no IP for bootstrap trigger''), None), s)
           else
             let (res, d) =
                   (if teardown then trigger_web_rtc_teardown env host 11411 (rv_seed s) key
                    else trigger_web_rtc_bootstrap env host 11411 (rv_seed s)
                      \<lparr>gb_bootstrap_id = key, gb_cli_public_ip = cli_ip, gb_cli_lan_cidr = [],
                       gb_route_type = trim route\<rparr>);
                 hub = (if teardown \<and> \<not> isl res then snd (clear_active_session_if_match rid key (rv_hub s))
                        else rv_hub s);
                 gate = (if isl res then gate_record_failure now rid teardown now (rv_gate s)
                         else gate_record_success now rid teardown now (rv_gate s))
             in ((res, d), s\<lparr>rv_hub := hub, rv_gate := gate\<rparr>)))"

text \<open>\<open>TriggerBootstrap\<close>: \<open>fresh\<close> is the identifier it makes up when it is given none. The
  connection is the one it dialled, if any.\<close>

definition trigger_bootstrap ::
  "'j trigger_env \<Rightarrow> string \<Rightarrow> gotime \<Rightarrow> string \<Rightarrow> bool \<Rightarrow> string \<Rightarrow> string \<Rightarrow> string \<Rightarrow> 'j relay_server \<Rightarrow>
   ((go_error + unit) \<times> duplex option) \<times> 'j relay_server" where
  "trigger_bootstrap env fresh now rid teardown cli_ip bootstrap_id route s =
     (let key = (if trim bootstrap_id = [] then fresh else trim bootstrap_id) in
      case hub_send rid (trigger_message teardown cli_ip key route) (rv_hub s) of
        (True, h1) \<Rightarrow>
          ((Inr (), None),
           s\<lparr>rv_hub := (if teardown then snd (clear_active_session_if_match rid key h1) else h1),
             rv_gate := gate_record_success now rid teardown now (rv_gate s)\<rparr>)
      | (False, h1) \<Rightarrow>
          (case gate_allow now rid teardown now (rv_gate s) of
             (False, g1) \<Rightarrow> ((Inr (), None), s\<lparr>rv_hub := h1, rv_gate := g1\<rparr>)
           | (True, g1) \<Rightarrow>
               trigger_over_tcp env now rid teardown cli_ip key route (s\<lparr>rv_hub := h1, rv_gate := g1\<rparr>)))"

section \<open>Backoff\<close>

lemma double_up_to_min: "0 < b \<Longrightarrow> double_up_to n mx b = min (b * 2 ^ n) mx"
proof (induction n arbitrary: b)
  case 0
  then show ?case by simp
next
  case (Suc n)
  have le: "b * 2 \<le> b * 2 ^ Suc n" using Suc.prems by simp
  show ?case
  proof (cases "mx \<le> b * 2")
    case True
    with le have "mx \<le> b * 2 ^ Suc n" by linarith
    with True show ?thesis by (simp only: double_up_to.simps if_True min_absorb2)
  next
    case False
    with Suc.IH[of "b * 2"] Suc.prems show ?thesis by (simp add: mult.assoc)
  qed
qed

lemmas backoff_consts = backoff_base_def backoff_max_def second_def millisecond_def

text \<open>The limit of eight doublings is never reached: the largest delay is.\<close>

lemma fallback_backoff_min:
  assumes "0 < n"
  shows "fallback_backoff (int n) teardown = min (backoff_base teardown * 2 ^ (n - 1)) (backoff_max teardown)"
proof (cases "n \<le> 9")
  case True
  with assms have "nat (min 8 (int n - 1)) = n - 1" by auto
  with assms have "fallback_backoff (int n) teardown = double_up_to (n - 1) (backoff_max teardown) (backoff_base teardown)"
    by (simp only: fallback_backoff_def) simp
  then show ?thesis by (simp only:) (rule double_up_to_min, simp add: backoff_consts)
next
  case False
  then have "nat (min 8 (int n - 1)) = 8" by auto
  moreover have "(2::int) ^ 8 \<le> 2 ^ (n - 1)" using False by (intro power_increasing) auto
  ultimately show ?thesis using assms False
    by (simp add: fallback_backoff_def double_up_to_min backoff_consts)
qed

lemma backoff_pos: "0 < n \<Longrightarrow> 0 < fallback_backoff (int n) teardown"
  by (simp add: fallback_backoff_min) (simp add: backoff_consts)

datatype gate_event = GeAllow string bool gotime | GeFailure string bool gotime | GeSuccess string bool gotime

fun gate_step :: "gate \<Rightarrow> gate_event \<Rightarrow> gate" where
  "gate_step g (GeAllow r b t) = snd (gate_allow t r b t g)"
| "gate_step g (GeFailure r b t) = gate_record_failure t r b t g"
| "gate_step g (GeSuccess r b t) = gate_record_success t r b t g"

fun ge_time :: "gate_event \<Rightarrow> gotime" where
  "ge_time (GeAllow r b t) = t" | "ge_time (GeFailure r b t) = t" | "ge_time (GeSuccess r b t) = t"

fun ge_key :: "gate_event \<Rightarrow> string" where
  "ge_key (GeAllow r b t) = gate_key r b" | "ge_key (GeFailure r b t) = gate_key r b"
| "ge_key (GeSuccess r b t) = gate_key r b"

text \<open>What the events say of a key: the failures since its last success, and the time of the newest.\<close>

fun failure_count :: "string \<Rightarrow> nat \<times> gotime \<Rightarrow> gate_event list \<Rightarrow> nat \<times> gotime" where
  "failure_count key kt [] = kt"
| "failure_count key kt (e # es) =
     failure_count key
       (if ge_key e \<noteq> key then kt
        else case e of GeAllow r b t \<Rightarrow> kt | GeFailure r b t \<Rightarrow> (fst kt + 1, t) | GeSuccess r b t \<Rightarrow> (0, 0)) es"

lemma failure_count_snoc:
  "failure_count key kt (es @ [e]) =
     (let kt' = failure_count key kt es in
      if ge_key e \<noteq> key then kt'
      else case e of GeAllow r b t \<Rightarrow> kt' | GeFailure r b t \<Rightarrow> (fst kt' + 1, t) | GeSuccess r b t \<Rightarrow> (0, 0))"
  by (induction es arbitrary: kt) (auto simp: Let_def)

lemma failure_count_time:
  "fst (failure_count key (0, 0) es) = 0 \<or> snd (failure_count key (0, 0) es) \<in> ge_time ` set es"
  by (induction es rule: rev_induct) (auto simp: failure_count_snoc Let_def split: gate_event.splits)

lemma gate_key_teardown:
  assumes "gate_key r b = gate_key r' b'" and "gate_key r b \<noteq> []"
  shows "b = b'"
proof -
  have "last (gate_key r b) = (if b then CHR ''n'' else CHR ''p'')"
    "last (gate_key r' b') = (if b' then CHR ''n'' else CHR ''p'')"
    using assms by (auto simp: gate_key_def split: if_splits)
  with assms(1) show ?thesis by (auto split: if_splits)
qed

definition gate_matches :: "gotime \<Rightarrow> bool \<Rightarrow> fallback_trigger_state option \<Rightarrow> nat \<times> gotime \<Rightarrow> bool" where
  "gate_matches t0 b so kt \<longleftrightarrow>
     (case so of
        None \<Rightarrow> fst kt = 0
      | Some s \<Rightarrow>
          fs_consecutive_failures s = int (fst kt) \<and>
          fs_next_allowed_at s = (if fst kt = 0 then 0 else snd kt + fallback_backoff (int (fst kt)) b) \<and>
          t0 \<le> fs_last_seen_at s \<and> fs_last_seen_at s \<le> t0 + fallback_gate_retention)"

lemma prune_matches:
  assumes "gate_matches t0 b (g key) kt" and "0 < t0" and "t0 \<le> now" and "now \<le> t0 + fallback_gate_retention"
  shows "prune_gate now g key = g key"
proof -
  have "\<not> fallback_gate_retention < time_sub now t" if "t0 \<le> t" for t
    using that assms(4) by (subst time_sub_gt) (auto simp: fallback_gate_retention_def minute_def second_def millisecond_def)
  with assms show ?thesis by (auto simp: prune_gate_def gate_matches_def is_zero_def split: option.splits)
qed

lemma gate_step_matches:
  assumes m: "gate_matches t0 b (g key) kt" and key: "key = gate_key r b" "key \<noteq> []"
    and t: "0 < t0" "t0 \<le> ge_time e" "ge_time e \<le> t0 + fallback_gate_retention"
  shows "gate_matches t0 b (gate_step g e key)
    (if ge_key e \<noteq> key then kt
     else case e of GeAllow r b t \<Rightarrow> kt | GeFailure r b t \<Rightarrow> (fst kt + 1, t) | GeSuccess r b t \<Rightarrow> (0, 0))"
proof -
  have now: "normalize_gate_now clk (ge_time e) = ge_time e" for clk using t by (simp add: normalize_gate_now_def is_zero_def)
  have same: "prune_gate (ge_time e) g key = g key" using m t by (rule prune_matches)
  have b: "ge_key e = key \<Longrightarrow> e = GeFailure r' b' u \<Longrightarrow> b' = b" for r' b' u
    using gate_key_teardown[of r b r' b'] key by simp
  show ?thesis
    using m same now b t key(2)
    by (cases e; cases "g key")
      (auto simp: gate_matches_def gate_allow_def gate_record_failure_def gate_record_success_def get_or_def
        fs_zero_def Let_def add.commute)
qed

lemma gate_run_matches:
  assumes "key = gate_key r b" "key \<noteq> []" and "0 < t0"
    and "\<forall>e \<in> set es. t0 \<le> ge_time e \<and> ge_time e \<le> t0 + fallback_gate_retention"
  shows "gate_matches t0 b (run_steps gate_step Map.empty es key) (failure_count key (0, 0) es)"
  using assms(4)
proof (induction es rule: rev_induct)
  case Nil
  show ?case by (simp add: gate_matches_def)
next
  case (snoc e es)
  have "gate_matches t0 b (run_steps gate_step Map.empty es key) (failure_count key (0, 0) es)" using snoc by simp
  from gate_step_matches[where g = "run_steps gate_step Map.empty es", OF this assms(1-3)] snoc.prems show ?case
    by (simp add: run_steps_append failure_count_snoc Let_def)
qed

text \<open>C30: Failed attempts to reach an agent over TCP back off exponentially, separately for every
  robot and for starting and ending a session: after \<open>k\<close> failures since the last success the gate
  opens again half a second (for a teardown one second) times \<open>2 ^ (k - 1)\<close> after the newest
  failure, at most eight (twelve) seconds after it, and stays open until the next failure. This is
  for events within the twenty minutes for which the gate remembers a robot.\<close>

theorem gate_backs_off:
  assumes "0 < t0" and "trim rid \<noteq> []" and "failure_count (gate_key rid b) (0, 0) es = (k, tf)"
    and "\<forall>e \<in> set es. t0 \<le> ge_time e \<and> ge_time e \<le> t0 + fallback_gate_retention"
    and "t0 \<le> now" and "now \<le> t0 + fallback_gate_retention"
  shows "fst (gate_allow clk rid b now (run_steps gate_step Map.empty es)) \<longleftrightarrow>
    k = 0 \<or> tf + min ((if b then 1000 else 500) * millisecond * 2 ^ (k - 1)) ((if b then 12 else 8) * second) \<le> now"
proof -
  let ?key = "gate_key rid b" and ?g = "run_steps gate_step Map.empty es"
  have key: "?key \<noteq> []" using assms(2) by (simp add: gate_key_def)
  have m: "gate_matches t0 b (?g ?key) (k, tf)"
    using gate_run_matches[OF refl key assms(1,4)] assms(3) by simp
  have now: "normalize_gate_now clk now = now" using assms(1,5) by (simp add: normalize_gate_now_def is_zero_def)
  have delay: "0 < k \<Longrightarrow> fallback_backoff (int k) b
      = min ((if b then 1000 else 500) * millisecond * 2 ^ (k - 1)) ((if b then 12 else 8) * second)"
    by (simp only: fallback_backoff_min) (simp add: backoff_base_def backoff_max_def second_def)
  have pos: "0 < k \<Longrightarrow> 0 < tf + fallback_backoff (int k) b" using failure_count_time[of "gate_key rid b" es] assms(1,3,4) backoff_pos[of k b] by fastforce
  have "fst (gate_allow clk rid b now ?g) \<longleftrightarrow> k = 0 \<or> tf + fallback_backoff (int k) b \<le> now"
    using m prune_matches[where g = ?g, OF m assms(1,5,6)] key now pos
    by (cases "?g ?key") (auto simp: gate_allow_def gate_matches_def get_or_def fs_zero_def is_zero_def Let_def not_less split: if_splits)
  then show ?thesis using delay by (cases "k = 0") simp_all
qed

theorem gate_backs_off_witness:
  "let es = [GeFailure ''r'' False (60 * second), GeFailure ''r'' False (61 * second)];
       g = run_steps gate_step Map.empty es
   in \<not> fst (gate_allow 1 ''r'' False (61 * second + 999 * millisecond) g) \<and>
      fst (gate_allow 1 ''r'' False (62 * second) g)"
proof -
  let ?es = "[GeFailure ''r'' False (60 * second), GeFailure ''r'' False (61 * second)]"
  have r: "trim ''r'' \<noteq> []" by (simp add: trim_names)
  have k: "failure_count (gate_key ''r'' False) (0, 0) ?es = (2, 61 * second)" by simp
  have es: "\<forall>e \<in> set ?es. 60 * second \<le> ge_time e \<and> ge_time e \<le> 60 * second + fallback_gate_retention"
    by (simp add: second_def millisecond_def fallback_gate_retention_def minute_def)
  have t0: "0 < 60 * second" by (simp add: second_def millisecond_def)
  show ?thesis
    using gate_backs_off[OF t0 r k es, of "61 * second + 999 * millisecond" 1]
      gate_backs_off[OF t0 r k es, of "62 * second" 1]
    by (simp add: Let_def second_def millisecond_def fallback_gate_retention_def minute_def)
qed

section \<open>The trigger and the agent\<close>

lemma conn_write_open:
  "open_writer (wr d) \<Longrightarrow> conn_write bs d = (Inr (), d\<lparr>wr := (wr d)\<lparr>wbytes := wbytes (wr d) @ bs\<rparr>\<rparr>)"
  by (simp add: conn_write_def io_map_err_def on_wr_open)

lemma go_write_frame_open:
  assumes "open_writer (wr d)"
  shows "go_write_frame (frame_type_byte ft) data d =
    (Inr (), d\<lparr>wr := (wr d)\<lparr>wbytes := wbytes (wr d) @ frame_bytes (ft, data)\<rparr>\<rparr>)"
  using assms by (simp add: go_write_frame_def write_byte_def io_bind_def conn_write_open frame_bytes_def)

lemma go_authenticate_accepted:
  assumes "length seed = 32" and "length nonce = 32"
  shows "go_authenticate ed seed (endpoint (nonce @ [1] @ rest)) =
    (Inr (), \<lparr>rd = reader_of rest, wr = fresh_writer\<lparr>wbytes := pub_of ed seed @ sign_of ed seed nonce\<rparr>\<rparr>)"
  using assms
  by (simp add: go_authenticate_def endpoint_def io_bind_def read_full_def conn_write_open io_return_def Let_def)

text \<open>The bytes of a bootstrap trigger on an accepting connection.\<close>

lemma bootstrap_trigger_bytes:
  assumes "length (rv_seed s) = 32" and "length nonce = 32"
    and "tr_dial env host 11411 = Inr (endpoint (nonce @ [1]))"
    and "tr_marshal_bootstrap env pl = Inr data"
  shows "trigger_web_rtc_bootstrap env host 11411 (rv_seed s) pl =
    (Inr (), Some \<lparr>rd = reader_of [], wr = fresh_writer\<lparr>wbytes := pub_of (tr_ed env) (rv_seed s)
       @ sign_of (tr_ed env) (rv_seed s) nonce @ frame_bytes (FtWebRtcBootstrap, data)\<rparr>\<rparr>)"
  using assms go_authenticate_accepted[OF assms(1,2), of "tr_ed env" "[]"]
    go_write_frame_open[of _ FtWebRtcBootstrap data]
  by (simp add: trigger_web_rtc_bootstrap_def with_conn_def go_wrap_def io_bind_def io_map_err_def
      lift_result_def io_return_def)

lemma tunnel_serves_bootstrap:
  assumes "length pk = 32" and "length sig = 64" and "key_ok ed pk" and "verify_ok ed pk nonce sig"
    and "admitted a (hex_encode pk)" and "length data \<le> max_frame" and "te_bootstrap env data = Some p"
    and "tc_rd c = reader_of (pk @ sig @ frame_bytes (FtWebRtcBootstrap, data))" and "tc_wr c = fresh_writer"
    and "tc_trigger c = Some tx" and "tunnel_handle_client ed (\<lambda>_. False) nonce env None a c = (res, c')"
  shows "res = Inr () \<and> wbytes (tc_wr c') = nonce @ [1] \<and> tc_trigger c' = Some (mpsc_try_send p tx)"
proof -
  let ?f = "(FtWebRtcBootstrap, data)" and ?w = "fresh_writer\<lparr>wbytes := nonce @ [1]\<rparr>"
  have auth: "server_authenticate ed (\<lambda>_. False) nonce a \<lparr>rd = tc_rd c, wr = tc_wr c\<rparr>
      = (Inr (hex_encode pk), (endpoint (frame_bytes ?f))\<lparr>wr := ?w\<rparr>)"
    using server_on_answer[OF assms(1,2), of ed nonce a "frame_bytes ?f"] assms(3-5,8,9)
    by (simp add: endpoint_def)
  have ok: "list_all frame_okay [?f]" using assms(6) by (simp add: frame_okay_def)
  obtain r where "tunnel_client_loop env None ((c\<lparr>tc_wr := ?w\<rparr>)\<lparr>tc_rd := reader_of (frame_bytes ?f)\<rparr>)
      = (fst (tunnel_serve env [?f] (c\<lparr>tc_wr := ?w\<rparr>)), (snd (tunnel_serve env [?f] (c\<lparr>tc_wr := ?w\<rparr>)))\<lparr>tc_rd := r\<rparr>)"
    using tunnel_loop_refines[OF ok read_frame_eof, of env "c\<lparr>tc_wr := ?w\<rparr>"] by auto
  moreover have "(c\<lparr>tc_wr := ?w\<rparr>)\<lparr>tc_rd := reader_of (frame_bytes ?f)\<rparr> = c\<lparr>tc_rd := reader_of (frame_bytes ?f), tc_wr := ?w\<rparr>"
    by (cases c) simp
  ultimately show ?thesis
    using assms(7,10,11) auth by (auto simp: tunnel_handle_client_def endpoint_def tunnel_handle_frame_def)
qed

text \<open>C18: When a robot has no control channel and its gate is open, a bootstrap trigger over TCP
  really reaches the agent: the platform's Go client and the agent's Rust server complete the
  handshake, the agent's trigger channel receives exactly the payload that was sent, the platform
  reports success, and the robot's failures are forgotten. The hypotheses are the sizes of keys and
  signatures, that a signature verifies under its own key, and that the agent's decoder
  understands the platform's encoder.\<close>

theorem bootstrap_trigger_reaches_agent:
  assumes scheme: "ed = tr_ed env" "pk = pub_of ed seed" "sig = sign_of ed seed nonce" "length seed = 32"
      "length nonce = 32" "length pk = 32" "length sig = 64" "key_ok ed pk" "verify_ok ed pk nonce sig"
    and codec: "pl = \<lparr>gb_bootstrap_id = trim bid, gb_cli_public_ip = ip, gb_cli_lan_cidr = [], gb_route_type = trim route\<rparr>"
      "tr_marshal_bootstrap env pl = Inr data" "length data \<le> max_frame" "te_bootstrap tenv data = Some p"
    and server: "rv_seed s = seed" "\<not> has_connection rid (rv_hub s)" "fst (gate_allow now rid False now (rv_gate s))"
      "trim rid \<noteq> []" "trim bid \<noteq> []" "tr_target env rid = Inr host" "trim host \<noteq> []"
      "tr_dial env (trim host) 11411 = Inr (endpoint (nonce @ [1]))"
    and agent: "admitted a (hex_encode pk)" "tc_wr c = fresh_writer" "tc_trigger c = Some tx"
      "rx_open tx" "length (items tx) < cap tx"
    and run: "trigger_bootstrap env fresh now rid False ip bid route s = ((res, d), s')"
      "wire = (case d of None \<Rightarrow> [] | Some d \<Rightarrow> wbytes (wr d))"
      "tunnel_handle_client ed (\<lambda>_. False) nonce tenv None a (c\<lparr>tc_rd := reader_of wire\<rparr>) = (ares, c')"
  shows "res = Inr () \<and> ares = Inr () \<and> wbytes (tc_wr c') = nonce @ [1]
    \<and> tc_trigger c' = Some (tx\<lparr>items := items tx @ [p]\<rparr>)
    \<and> (\<exists>fs. rv_gate s' (gate_key rid False) = Some fs \<and> fs_consecutive_failures fs = 0)"
proof -
  let ?msg = "trigger_message False ip (trim bid) route"
  have send: "hub_send rid ?msg (rv_hub s) = (False, rv_hub s)"
    using server(2) by (simp add: has_connection_def hub_send_def)
  obtain g1 where allow: "gate_allow now rid False now (rv_gate s) = (True, g1)"
    using server(3) by (cases "gate_allow now rid False now (rv_gate s)") simp
  let ?s = "s\<lparr>rv_hub := rv_hub s, rv_gate := g1\<rparr>"
  have "trigger_bootstrap env fresh now rid False ip bid route s
      = trigger_over_tcp env now rid False ip (trim bid) route ?s"
    using server(5) send allow by (simp add: trigger_bootstrap_def)
  moreover have "length (rv_seed ?s) = 32" using server(1) scheme(4) by simp
  from bootstrap_trigger_bytes[OF this scheme(5) server(8) codec(2)]
  have tcp: "trigger_web_rtc_bootstrap env (trim host) 11411 (rv_seed s) pl
      = (Inr (), Some \<lparr>rd = reader_of [], wr = fresh_writer\<lparr>wbytes := pk @ sig @ frame_bytes (FtWebRtcBootstrap, data)\<rparr>\<rparr>)"
    using scheme(1-3) server(1) by simp
  ultimately have out: "res = Inr ()" "wire = pk @ sig @ frame_bytes (FtWebRtcBootstrap, data)"
      "rv_gate s' = gate_record_success now rid False now g1"
    using run(1,2) server(6,7) tcp codec(1) by (auto simp: trigger_over_tcp_def Let_def)
  have "gate_key rid False \<noteq> []" using server(4) by (simp add: gate_key_def)
  then have "\<exists>fs. rv_gate s' (gate_key rid False) = Some fs \<and> fs_consecutive_failures fs = 0"
    using out(3) by (simp add: gate_record_success_def Let_def)
  moreover have "ares = Inr () \<and> wbytes (tc_wr c') = nonce @ [1] \<and> tc_trigger c' = Some (mpsc_try_send p tx)"
    by (rule tunnel_serves_bootstrap[OF scheme(6-9) agent(1) codec(3,4) _ _ _ run(3)]) (use out(2) agent(2,3) in simp_all)
  ultimately show ?thesis using out(1) agent(4,5) by (simp add: mpsc_try_send_def)
qed

text \<open>A codec and a network for the witness: the payload's identifier is its encoding, and the agent
  at the end of every connection sends its nonce and accepts.\<close>

definition demo_trigger_env :: "nat trigger_env" where
  "demo_trigger_env =
     \<lparr>tr_ed = echo_scheme, tr_dial = (\<lambda>_ _. Inr (endpoint (replicate 32 7 @ [1]))),
      tr_marshal_bootstrap = (\<lambda>p. Inr (as_bytes (gb_bootstrap_id p))), tr_marshal_teardown = (\<lambda>b. Inr (as_bytes b)),
      tr_marshal_command = (\<lambda>_. Inr []), tr_unmarshal_response = (\<lambda>_. Inr 0), tr_target = (\<lambda>_. Inr ''h'')\<rparr>"

definition demo_payload :: web_rtc_bootstrap_payload where
  "demo_payload = \<lparr>wb_bootstrap_id = ''q'', wb_cli_public_ip = None, wb_cli_lan_cidr = None, wb_route_type = None\<rparr>"

definition demo_agent :: "nat tunnel_client" where
  "demo_agent = \<lparr>tc_rd = reader_of [], tc_wr = fresh_writer, tc_commands = [],
     tc_trigger = Some (mpsc_new 4), tc_teardown = None\<rparr>"

theorem bootstrap_trigger_reaches_agent_witness:
  "let s = new_relay_server (replicate 32 42);
       d = snd (fst (trigger_bootstrap demo_trigger_env ''u'' (60 * second) ''r'' False [] ''q'' [] s));
       wire = (case d of None \<Rightarrow> [] | Some d \<Rightarrow> wbytes (wr d));
       tenv = echo_env\<lparr>te_bootstrap := \<lambda>b. if b = as_bytes ''q'' then Some demo_payload else None\<rparr>
   in tc_trigger (snd (tunnel_handle_client echo_scheme (\<lambda>_. False) (replicate 32 7) tenv None
        (server_auth_new id []) (demo_agent\<lparr>tc_rd := reader_of wire\<rparr>)))
      = Some ((mpsc_new 4)\<lparr>items := [demo_payload]\<rparr>)"
proof -
  let ?s = "new_relay_server (replicate 32 42) :: nat relay_server" and ?n = "replicate 32 (7 :: byte)"
  let ?tenv = "echo_env\<lparr>te_bootstrap := \<lambda>b. if b = as_bytes ''q'' then Some demo_payload else None\<rparr>"
  obtain res d s' where t: "trigger_bootstrap demo_trigger_env ''u'' (60 * second) ''r'' False [] ''q'' [] ?s = ((res, d), s')"
    by (metis prod.collapse)
  let ?wire = "case d of None \<Rightarrow> [] | Some d \<Rightarrow> wbytes (wr d)"
  obtain ares c' where h: "tunnel_handle_client echo_scheme (\<lambda>_. False) ?n ?tenv None (server_auth_new id [])
      (demo_agent\<lparr>tc_rd := reader_of ?wire\<rparr>) = (ares, c')" by (metis prod.collapse)
  have trims: "trim ''h'' = ''h''" by code_simp
  have gate: "fst (gate_allow (60 * second) ''r'' False (60 * second) (rv_gate ?s))"
    by (simp add: gate_allow_def new_relay_server_def prune_gate_def get_or_def fs_zero_def is_zero_def Let_def)
  have conn: "\<not> has_connection ''r'' (rv_hub ?s)"
    by (simp add: has_connection_def new_relay_server_def new_agent_control_hub_def)
  have "tc_trigger c' = Some ((mpsc_new 4)\<lparr>items := items (mpsc_new 4) @ [demo_payload]\<rparr>)"
    using bootstrap_trigger_reaches_agent[of echo_scheme demo_trigger_env "replicate 32 42" "replicate 32 42"
        "?n @ ?n" ?n "\<lparr>gb_bootstrap_id = trim ''q'', gb_cli_public_ip = [], gb_cli_lan_cidr = [], gb_route_type = trim []\<rparr>"
        "''q''" "[]" "[]" "as_bytes ''q''" ?tenv demo_payload ?s "''r''" "60 * second" "''h''"
        "server_auth_new id []" demo_agent "mpsc_new 4" "''u''" res d s' ?wire ares c',
        OF _ _ _ _ _ _ _ _ _ _ _ _ _ _ conn gate _ _ _ _ _ _ _ _ _ _ t refl h]
    by (simp add: demo_trigger_env_def echo_scheme_def trims trim_names max_frame_def new_relay_server_def
        admitted_def server_auth_keys_def server_auth_new_def normalize_authorized_keys_Nil demo_agent_def mpsc_new_def)
  then show ?thesis by (simp add: Let_def t h mpsc_new_def)
qed

text \<open>While the gate is closed a trigger that reached nobody is reported as done.\<close>

lemma suppressed_trigger_succeeds:
  assumes "\<not> has_connection rid (rv_hub s)" and "\<not> fst (gate_allow now rid teardown now (rv_gate s))"
  shows "fst (trigger_bootstrap env fresh now rid teardown ip bid route s) = (Inr (), None)"
  using assms
  by (cases "gate_allow now rid teardown now (rv_gate s)")
    (simp add: trigger_bootstrap_def has_connection_def hub_send_def Let_def)

end
