(* ===== verification/Platform_Auth.thy ===== *)
theory Platform_Auth
  imports Auth Go_Runtime
begin

text \<open>
  How the platform services authenticate robots and clients: the ops client of
  \<open>go/internal/opsauth/opsauth.go\<close>, the identity store of \<open>go/internal/store/store.go\<close>, the
  authenticator of \<open>go/cmd/tunnel-svc/main.go\<close> and the robot resolver of
  \<open>go/cmd/tunnel-svc/resolver.go\<close>, which ask the store first and ops otherwise. The HTTP exchange
  with ops, SHA-256 and the database's reading of a UUID are parameters; the table of the store is a
  map from UUIDs to rows.
\<close>

section \<open>Refusals\<close>

text \<open>An HTTP status and the error in the reply's body.\<close>

datatype refusal = Refused nat string

text \<open>The key of a robot: the header, or the query parameter if there is none.\<close>

definition pick_api_key :: "string \<Rightarrow> string \<Rightarrow> string" where
  "pick_api_key header query = (if trim header = [] then trim query else trim header)"

section \<open>The ops client\<close>

datatype ops_body =
    OpsAuthzClient string string
  | OpsAuthzRobot string string
  | OpsAuthzUser string
  | OpsAuthzOwns string string
  | OpsBootstrap string bool string string string

datatype ops_answer = OpsBadRequest string | OpsUnreachable string | OpsStatus nat bytes

record ops_client =
  oc_base_url :: string
  oc_secret :: string

type_synonym ops_http = "string \<Rightarrow> string \<Rightarrow> ops_body \<Rightarrow> ops_answer"

definition ops_new :: "string \<Rightarrow> string \<Rightarrow> ops_client" where
  "ops_new base_url secret = \<lparr>oc_base_url = trim_end_matches (CHR ''/'') base_url, oc_secret = secret\<rparr>"

definition ops_post :: "ops_http \<Rightarrow> ops_client \<Rightarrow> string \<Rightarrow> ops_body \<Rightarrow> ops_answer" where
  "ops_post http cl path b = http (oc_base_url cl @ path) (oc_secret cl) b"

definition ops_authorize_client :: "ops_http \<Rightarrow> ops_client \<Rightarrow> string \<Rightarrow> string \<Rightarrow> refusal + unit" where
  "ops_authorize_client http cl header robot =
     (let authz = trim header in
      if authz = [] then Inl (Refused 401 ''missing bearer token'')
      else case ops_post http cl ''/internal/authz/client'' (OpsAuthzClient robot authz) of
        OpsBadRequest _ \<Rightarrow> Inl (Refused 500 ''authz request build failed'')
      | OpsUnreachable _ \<Rightarrow> Inl (Refused 502 ''ops authz unreachable'')
      | OpsStatus s _ \<Rightarrow>
          if s = 200 then Inr ()
          else if s = 401 then Inl (Refused 401 ''invalid platform token'')
          else if s = 403 then Inl (Refused 403 ''robot does not belong to current user'')
          else Inl (Refused 502 ''ops authz error''))"

definition ops_verify_robot_api_key :: "ops_http \<Rightarrow> ops_client \<Rightarrow> string \<Rightarrow> string \<Rightarrow> string + bool" where
  "ops_verify_robot_api_key http cl robot key =
     (case ops_post http cl ''/internal/authz/robot'' (OpsAuthzRobot robot key) of
        OpsBadRequest e \<Rightarrow> Inl e
      | OpsUnreachable e \<Rightarrow> Inl e
      | OpsStatus s _ \<Rightarrow>
          if s = 200 then Inr True
          else if s = 401 \<or> s = 403 then Inr False
          else Inl (''ops robot authz status '' @ show_nat s))"

text \<open>\<open>decode\<close> reads the \<open>user_id\<close> of the reply.\<close>

definition ops_relay_user :: "ops_http \<Rightarrow> (bytes \<Rightarrow> string + string) \<Rightarrow> ops_client \<Rightarrow> string \<Rightarrow> string + string" where
  "ops_relay_user http decode cl auth_header =
     (case ops_post http cl ''/internal/authz/user'' (OpsAuthzUser auth_header) of
        OpsBadRequest e \<Rightarrow> Inl e
      | OpsUnreachable e \<Rightarrow> Inl e
      | OpsStatus s b \<Rightarrow> if s \<noteq> 200 then Inl (''ops user authz status '' @ show_nat s) else decode b)"

definition ops_robot_owned_by :: "ops_http \<Rightarrow> ops_client \<Rightarrow> string \<Rightarrow> string \<Rightarrow> string + bool" where
  "ops_robot_owned_by http cl robot user =
     (case ops_post http cl ''/internal/authz/owns'' (OpsAuthzOwns robot user) of
        OpsBadRequest e \<Rightarrow> Inl e
      | OpsUnreachable e \<Rightarrow> Inl e
      | OpsStatus s _ \<Rightarrow>
          if s = 200 then Inr True
          else if s = 404 \<or> s = 403 then Inr False
          else Inl (''ops owns authz status '' @ show_nat s))"

definition ops_trigger_bootstrap ::
  "ops_http \<Rightarrow> ops_client \<Rightarrow> string \<Rightarrow> bool \<Rightarrow> string \<Rightarrow> string \<Rightarrow> string \<Rightarrow> string + unit" where
  "ops_trigger_bootstrap http cl robot teardown cli_ip bootstrap_id route =
     (case ops_post http cl ''/internal/agent/bootstrap'' (OpsBootstrap robot teardown cli_ip bootstrap_id route) of
        OpsBadRequest e \<Rightarrow> Inl e
      | OpsUnreachable e \<Rightarrow> Inl e
      | OpsStatus s _ \<Rightarrow> if s \<noteq> 200 then Inl (''ops bootstrap trigger status '' @ show_nat s) else Inr ())"

section \<open>The identity store\<close>

record robot_conn =
  rc_agent_id :: string
  rc_api_key_hash :: string
  rc_robot_ip :: "string option"
  rc_local_ip :: "string option"
  rc_last_seen_at :: "gotime option"
  rc_updated_at :: gotime

text \<open>\<open>st_fault\<close> is the error every query returns while the database is down. \<open>pg\<close> reads a
  text as a UUID; what it cannot read is a query error.\<close>

record store =
  st_rows :: "string \<rightharpoonup> robot_conn"
  st_fault :: "string option"

definition hash_api_key :: "(bytes \<Rightarrow> bytes) \<Rightarrow> string \<Rightarrow> string" where
  "hash_api_key sha key = hex_encode (sha (as_bytes key))"

definition query_row :: "(string \<Rightarrow> string + string) \<Rightarrow> store \<Rightarrow> string \<Rightarrow> string + robot_conn option" where
  "query_row pg st robot =
     (case st_fault st of
        Some e \<Rightarrow> Inl e
      | None \<Rightarrow> (case pg robot of Inl e \<Rightarrow> Inl e | Inr u \<Rightarrow> Inr (st_rows st u)))"

definition exec_row ::
  "(string \<Rightarrow> string + string) \<Rightarrow> store \<Rightarrow> string \<Rightarrow> (robot_conn option \<Rightarrow> robot_conn option) \<Rightarrow> (string + unit) \<times> store" where
  "exec_row pg st robot f =
     (case st_fault st of
        Some e \<Rightarrow> (Inl e, st)
      | None \<Rightarrow>
          (case pg robot of
             Inl e \<Rightarrow> (Inl e, st)
           | Inr u \<Rightarrow> (Inr (), st\<lparr>st_rows := (st_rows st)(u := f (st_rows st u))\<rparr>)))"

definition lookup_api_key_hash :: "(string \<Rightarrow> string + string) \<Rightarrow> store \<Rightarrow> string \<Rightarrow> string + string option" where
  "lookup_api_key_hash pg st robot =
     (if robot = [] then Inr None
      else case query_row pg st robot of Inl e \<Rightarrow> Inl e | Inr row \<Rightarrow> Inr (map_option rc_api_key_hash row))"

definition lookup_conn ::
  "(string \<Rightarrow> string + string) \<Rightarrow> store \<Rightarrow> string \<Rightarrow> string + (string \<times> string option) option" where
  "lookup_conn pg st robot =
     (if robot = [] then Inr None
      else case query_row pg st robot of
        Inl e \<Rightarrow> Inl e
      | Inr row \<Rightarrow> Inr (map_option (\<lambda>r. (rc_api_key_hash r, rc_local_ip r)) row))"

definition store_robot_ip :: "(string \<Rightarrow> string + string) \<Rightarrow> store \<Rightarrow> string \<Rightarrow> string + string" where
  "store_robot_ip pg st robot =
     (case query_row pg st robot of
        Inl e \<Rightarrow> Inl e
      | Inr None \<Rightarrow> Inr []
      | Inr (Some r) \<Rightarrow> Inr (case rc_robot_ip r of None \<Rightarrow> [] | Some ip \<Rightarrow> ip))"

definition store_touch_last_seen ::
  "(string \<Rightarrow> string + string) \<Rightarrow> gotime \<Rightarrow> string \<Rightarrow> store \<Rightarrow> (string + unit) \<times> store" where
  "store_touch_last_seen pg now robot st =
     exec_row pg st robot (map_option (\<lambda>r. r\<lparr>rc_last_seen_at := Some now, rc_updated_at := now\<rparr>))"

definition provision_robot ::
  "(bytes \<Rightarrow> bytes) \<Rightarrow> (string \<Rightarrow> string + string) \<Rightarrow> gotime \<Rightarrow> string \<Rightarrow> string \<Rightarrow> string \<Rightarrow> store \<Rightarrow> (string + unit) \<times> store" where
  "provision_robot sha pg now robot agent key st =
     exec_row pg st robot (\<lambda>row. Some (case row of
        None \<Rightarrow> \<lparr>rc_agent_id = agent, rc_api_key_hash = hash_api_key sha key, rc_robot_ip = None,
                 rc_local_ip = None, rc_last_seen_at = None, rc_updated_at = now\<rparr>
      | Some r \<Rightarrow> r\<lparr>rc_agent_id := agent, rc_api_key_hash := hash_api_key sha key, rc_updated_at := now\<rparr>))"

definition deprovision_robot :: "(string \<Rightarrow> string + string) \<Rightarrow> string \<Rightarrow> store \<Rightarrow> (string + unit) \<times> store" where
  "deprovision_robot pg robot st = exec_row pg st robot (\<lambda>_. None)"

section \<open>The authenticator and the resolver\<close>

text \<open>What both hold: the store, if there is a database, and the ops client.\<close>

record tunnel_auth =
  ta_store :: "store option"
  ta_ops :: ops_client

definition verify_robot_api_key ::
  "(bytes \<Rightarrow> bytes) \<Rightarrow> (string \<Rightarrow> string + string) \<Rightarrow> ops_http \<Rightarrow> tunnel_auth \<Rightarrow> string \<Rightarrow> string \<Rightarrow> string + bool" where
  "verify_robot_api_key sha pg http a robot key =
     (case (case ta_store a of None \<Rightarrow> Inr None | Some st \<Rightarrow> lookup_api_key_hash pg st robot) of
        Inl e \<Rightarrow> Inl e
      | Inr (Some hash) \<Rightarrow> Inr (hash \<noteq> [] \<and> hash = hash_api_key sha key)
      | Inr None \<Rightarrow> ops_verify_robot_api_key http (ta_ops a) robot key)"

record auth_record =
  ar_id :: string
  ar_local_ip :: "string option"

definition resolve_control ::
  "(bytes \<Rightarrow> bytes) \<Rightarrow> (string \<Rightarrow> string + string) \<Rightarrow> ops_http \<Rightarrow> tunnel_auth \<Rightarrow> string \<Rightarrow> string \<Rightarrow> string + auth_record option" where
  "resolve_control sha pg http a robot key =
     (case (case ta_store a of None \<Rightarrow> Inr None | Some st \<Rightarrow> lookup_conn pg st robot) of
        Inl e \<Rightarrow> Inl e
      | Inr (Some (hash, local_ip)) \<Rightarrow>
          Inr (if hash \<noteq> [] \<and> hash = hash_api_key sha key
               then Some \<lparr>ar_id = robot, ar_local_ip = local_ip\<rparr> else None)
      | Inr None \<Rightarrow>
          (case ops_verify_robot_api_key http (ta_ops a) robot key of
             Inl e \<Rightarrow> Inl e
           | Inr ok \<Rightarrow> Inr (if ok then Some \<lparr>ar_id = robot, ar_local_ip = None\<rparr> else None)))"

definition resolver_touch_last_seen ::
  "(string \<Rightarrow> string + string) \<Rightarrow> gotime \<Rightarrow> string \<Rightarrow> tunnel_auth \<Rightarrow> (string + unit) \<times> tunnel_auth" where
  "resolver_touch_last_seen pg now robot a =
     (case ta_store a of
        None \<Rightarrow> (Inr (), a)
      | Some st \<Rightarrow> (case store_touch_last_seen pg now robot st of (res, st') \<Rightarrow> (res, a\<lparr>ta_store := Some st'\<rparr>)))"

definition robot_bootstrap_target :: "(string \<Rightarrow> string + string) \<Rightarrow> tunnel_auth \<Rightarrow> string \<Rightarrow> string + string" where
  "robot_bootstrap_target pg a robot =
     (case ta_store a of None \<Rightarrow> Inr [] | Some st \<Rightarrow> store_robot_ip pg st robot)"

section \<open>The contract of the resolver\<close>

text \<open>What the relay relies on: a robot that resolves keeps the identifier it was asked about.\<close>

locale robot_resolver =
  fixes resolve :: "string \<Rightarrow> string \<Rightarrow> string + auth_record option"
  assumes resolves_itself: "resolve robot key = Inr (Some r) \<Longrightarrow> ar_id r = robot"

interpretation tunnel: robot_resolver "resolve_control sha pg http a"
  by unfold_locales (auto simp: resolve_control_def split: sum.splits option.splits if_splits)

lemma resolve_agrees_verify:
  "map_sum id (\<lambda>r. r \<noteq> None) (resolve_control sha pg http a robot key) = verify_robot_api_key sha pg http a robot key"
  by (auto simp: resolve_control_def verify_robot_api_key_def lookup_conn_def lookup_api_key_hash_def
      split: sum.splits option.splits)

section \<open>Local authority\<close>

datatype store_event = StProvision string string string gotime | StDeprovision string | StTouch string gotime

fun store_step :: "(bytes \<Rightarrow> bytes) \<Rightarrow> (string \<Rightarrow> string + string) \<Rightarrow> store \<Rightarrow> store_event \<Rightarrow> store" where
  "store_step sha pg st (StProvision robot agent key now) = snd (provision_robot sha pg now robot agent key st)"
| "store_step sha pg st (StDeprovision robot) = snd (deprovision_robot pg robot st)"
| "store_step sha pg st (StTouch robot now) = snd (store_touch_last_seen pg now robot st)"

text \<open>The key a UUID was last provisioned with, if it has not been removed since.\<close>

fun provisioned_key :: "(string \<Rightarrow> string + string) \<Rightarrow> string \<Rightarrow> string option \<Rightarrow> store_event list \<Rightarrow> string option" where
  "provisioned_key pg u k [] = k"
| "provisioned_key pg u k (StProvision robot agent key now # es) =
     provisioned_key pg u (if pg robot = Inr u then Some key else k) es"
| "provisioned_key pg u k (StDeprovision robot # es) = provisioned_key pg u (if pg robot = Inr u then None else k) es"
| "provisioned_key pg u k (StTouch robot now # es) = provisioned_key pg u k es"

lemma exec_row_fault [simp]: "st_fault (snd (exec_row pg st robot f)) = st_fault st"
  by (simp add: exec_row_def split: option.split sum.split)

lemma exec_row_at:
  "st_fault st = None \<Longrightarrow>
     st_rows (snd (exec_row pg st robot f)) u = (if pg robot = Inr u then f (st_rows st u) else st_rows st u)"
  by (auto simp: exec_row_def split: sum.splits)

lemma store_step_row:
  assumes "st_fault st = None" and "map_option rc_api_key_hash (st_rows st u) = map_option (hash_api_key sha) k"
  shows "st_fault (store_step sha pg st e) = None \<and>
    map_option rc_api_key_hash (st_rows (store_step sha pg st e) u) =
      map_option (hash_api_key sha) (provisioned_key pg u k [e])"
  using assms
  by (cases e)
    (auto simp: provision_robot_def deprovision_robot_def store_touch_last_seen_def exec_row_at option.map_comp comp_def
      split: option.splits)

lemma provisioned_key_Cons: "provisioned_key pg u k (e # es) = provisioned_key pg u (provisioned_key pg u k [e]) es"
  by (cases e) simp_all

lemma store_run_row:
  assumes "st_fault st = None" and "map_option rc_api_key_hash (st_rows st u) = map_option (hash_api_key sha) k"
  shows "st_fault (run_steps (store_step sha pg) st es) = None \<and>
    map_option rc_api_key_hash (st_rows (run_steps (store_step sha pg) st es) u) =
      map_option (hash_api_key sha) (provisioned_key pg u k es)"
  using assms
proof (induction es arbitrary: st k)
  case (Cons e es)
  show ?case
    using Cons.IH[of "store_step sha pg st e" "provisioned_key pg u k [e]"] store_step_row[OF Cons.prems, of pg e]
    by (simp only: run_steps.simps provisioned_key_Cons[of pg u k e es])
qed simp

lemma hash_api_key_inj: "hash_api_key sha k = hash_api_key sha l \<longleftrightarrow> sha (as_bytes k) = sha (as_bytes l)"
  by (auto simp: hash_api_key_def dest: hex_encode_inj)

lemma hash_api_key_nonempty: "sha (as_bytes k) \<noteq> [] \<Longrightarrow> hash_api_key sha k \<noteq> []"
  by (cases "sha (as_bytes k)") (auto simp: hash_api_key_def hex_encode_def Let_def)

text \<open>C22: Robots in the identity store are authenticated by it alone: whatever was provisioned, removed
  and touched before, a robot is admitted exactly with the key it was last provisioned with (compared
  by its hash), under whatever spelling of its UUID; ops decides exactly for the robots that are not in the store. The
  signalling and the relay endpoints agree about it.\<close>

theorem robot_keys_local_first:
  assumes "pg robot = Inr u" and "robot \<noteq> []" and "\<And>k. sha (as_bytes k) \<noteq> []"
    and "st = run_steps (store_step sha pg) \<lparr>st_rows = Map.empty, st_fault = None\<rparr> es"
    and "a = \<lparr>ta_store = Some st, ta_ops = cl\<rparr>"
  shows "verify_robot_api_key sha pg http a robot key =
      (case provisioned_key pg u None es of
         None \<Rightarrow> ops_verify_robot_api_key http cl robot key
       | Some k \<Rightarrow> Inr (sha (as_bytes key) = sha (as_bytes k)))
    \<and> (verify_robot_api_key sha pg http a robot key = Inr True \<longleftrightarrow>
       (\<exists>r. resolve_control sha pg http a robot key = Inr (Some r) \<and> ar_id r = robot))"
proof
  have row: "st_fault st = None"
    "map_option rc_api_key_hash (st_rows st u) = map_option (hash_api_key sha) (provisioned_key pg u None es)"
    using store_run_row[of "\<lparr>st_rows = Map.empty, st_fault = None\<rparr>" u sha None pg es] assms(4) by simp_all
  show "verify_robot_api_key sha pg http a robot key =
      (case provisioned_key pg u None es of
         None \<Rightarrow> ops_verify_robot_api_key http cl robot key
       | Some k \<Rightarrow> Inr (sha (as_bytes key) = sha (as_bytes k)))"
    using row assms(1,2,3,5) hash_api_key_nonempty[of sha]
    by (auto simp: verify_robot_api_key_def lookup_api_key_hash_def query_row_def hash_api_key_inj split: option.split)
  show "verify_robot_api_key sha pg http a robot key = Inr True \<longleftrightarrow>
      (\<exists>r. resolve_control sha pg http a robot key = Inr (Some r) \<and> ar_id r = robot)"
    unfolding resolve_agrees_verify[symmetric]
    using tunnel.resolves_itself by (cases "resolve_control sha pg http a robot key") auto
qed

theorem robot_keys_local_first_witness:
  "let sha = (\<lambda>b. 0 # b);
       st = run_steps (store_step sha Inr) \<lparr>st_rows = Map.empty, st_fault = None\<rparr>
         [StProvision ''r'' ''agt'' ''old'' 1, StProvision ''q'' ''agt'' ''key'' 2, StProvision ''r'' ''agt'' ''new'' 3];
       verify = verify_robot_api_key sha Inr (\<lambda>_ _ _. OpsStatus 200 []) \<lparr>ta_store = Some st, ta_ops = ops_new [] []\<rparr>
   in verify ''r'' ''new'' = Inr True \<and> verify ''r'' ''old'' = Inr False \<and> verify ''s'' ''any'' = Inr True"
proof -
  let ?sha = "\<lambda>b :: bytes. 0 # b"
  let ?es = "[StProvision ''r'' ''agt'' ''old'' 1, StProvision ''q'' ''agt'' ''key'' 2, StProvision ''r'' ''agt'' ''new'' 3]"
  have bytes: "as_bytes ''new'' \<noteq> as_bytes ''old''" by code_simp
  have ops: "ops_verify_robot_api_key (\<lambda>_ _ _. OpsStatus 200 []) (ops_new [] []) ''s'' ''any'' = Inr True"
    by (simp add: ops_verify_robot_api_key_def ops_post_def)
  note auth = robot_keys_local_first[where sha = ?sha and pg = Inr and es = ?es and http = "\<lambda>_ _ _. OpsStatus 200 []"
      and cl = "ops_new [] []", OF _ _ _ refl refl, THEN conjunct1]
  show ?thesis
    using auth[of "''r''" "''r''" "''new''"] auth[of "''r''" "''r''" "''old''"] auth[of "''s''" "''s''" "''any''"] bytes ops
    by (simp add: Let_def)
qed

text \<open>While the database is down no robot is admitted, and ops is not asked.\<close>

lemma database_down_refuses:
  assumes "ta_store a = Some st" and "st_fault st = Some e" and "robot \<noteq> []"
  shows "verify_robot_api_key sha pg http a robot key = Inl e" "resolve_control sha pg http a robot key = Inl e"
  using assms
  by (simp_all add: verify_robot_api_key_def resolve_control_def lookup_api_key_hash_def lookup_conn_def query_row_def)

end
