(* ===== verification/Signalling.thy ===== *)
theory Signalling
  imports Platform_Auth
begin

text \<open>
  The signalling service of the platform: the sessions of \<open>go/webrtc/session.go\<close> and the
  WebSocket handler of \<open>go/webrtc/signaling.go\<close>.
  Peers and sessions are compared and shared by pointer, so they live in stores. A handler takes a
  lock several times; each locked section with the sends that follow it is one step, and steps of
  different handlers interleave. Authentication and UUID parsing are parameters.
\<close>

section \<open>Peers and sessions\<close>

record 'v go_signal =
  gs_type :: string
  gs_payload :: "'v option"
  gs_robot_id :: string
  gs_bootstrap_id :: string

record 'v peer_conn =
  pc_send :: "'v go_signal list"
  pc_done :: bool
  pc_connected_at :: gotime
  pc_src_ip :: string
  pc_bootstrap_id :: string

record session =
  sn_agent :: "nat option"
  sn_client :: "nat option"

record 'v signalling =
  sg_registry :: "string \<rightharpoonup> nat"
  sg_sessions :: "session list"
  sg_peers :: "'v peer_conn list"

definition signalling_new :: "'v signalling" where
  "signalling_new = \<lparr>sg_registry = Map.empty, sg_sessions = [], sg_peers = []\<rparr>"

definition upd_peer :: "nat \<Rightarrow> ('v peer_conn \<Rightarrow> 'v peer_conn) \<Rightarrow> 'v signalling \<Rightarrow> 'v signalling" where
  "upd_peer p f g = g\<lparr>sg_peers := (sg_peers g)[p := f (sg_peers g ! p)]\<rparr>"

definition upd_session :: "nat \<Rightarrow> (session \<Rightarrow> session) \<Rightarrow> 'v signalling \<Rightarrow> 'v signalling" where
  "upd_session s f g = g\<lparr>sg_sessions := (sg_sessions g)[s := f (sg_sessions g ! s)]\<rparr>"

definition close_done :: "nat \<Rightarrow> 'v signalling \<Rightarrow> 'v signalling" where
  "close_done p g = upd_peer p (\<lambda>c. c\<lparr>pc_done := True\<rparr>) g"

definition enqueue_signal :: "nat option \<Rightarrow> 'v go_signal \<Rightarrow> 'v signalling \<Rightarrow> bool \<times> 'v signalling" where
  "enqueue_signal po msg g =
     (case po of
        None \<Rightarrow> (False, g)
      | Some p \<Rightarrow>
          (fst (chan_offer 32 msg (pc_send (sg_peers g ! p))),
           upd_peer p (\<lambda>c. c\<lparr>pc_send := snd (chan_offer 32 msg (pc_send c))\<rparr>) g))"

definition session_relay :: "nat \<Rightarrow> 'v go_signal \<Rightarrow> bool \<Rightarrow> 'v signalling \<Rightarrow> bool \<times> 'v signalling" where
  "session_relay s msg to_agent g =
     enqueue_signal (if to_agent then sn_agent (sg_sessions g ! s) else sn_client (sg_sessions g ! s)) msg g"

definition get_or_create :: "string \<Rightarrow> 'v signalling \<Rightarrow> nat \<times> 'v signalling" where
  "get_or_create robot g =
     (case sg_registry g robot of
        Some s \<Rightarrow> (s, g)
      | None \<Rightarrow>
          (length (sg_sessions g),
           g\<lparr>sg_sessions := sg_sessions g @ [\<lparr>sn_agent = None, sn_client = None\<rparr>],
             sg_registry := (sg_registry g)(robot \<mapsto> length (sg_sessions g))\<rparr>))"

definition registry_remove :: "string \<Rightarrow> 'v signalling \<Rightarrow> 'v signalling" where
  "registry_remove robot g = g\<lparr>sg_registry := (sg_registry g)(robot := None)\<rparr>"

section \<open>The handler\<close>

datatype role = Agent | Client

text \<open>The checks before the connection is upgraded: a refusal, or the role. The authenticator is what
  \<open>connauth.Authenticator\<close> promises.\<close>

record signal_auth =
  sa_uuid_ok :: "string \<Rightarrow> bool"
  sa_verify_key :: "string \<Rightarrow> string \<Rightarrow> string + bool"
  sa_authorize_client :: "string \<Rightarrow> refusal + unit"

definition check_robot_key :: "signal_auth \<Rightarrow> string \<Rightarrow> string \<Rightarrow> refusal + unit" where
  "check_robot_key au robot key =
     (case sa_verify_key au robot key of
        Inl _ \<Rightarrow> Inl (Refused 500 ''auth lookup failed'')
      | Inr ok \<Rightarrow> if ok then Inr () else Inl (Refused 401 ''invalid robot credentials''))"

definition signal_admit ::
  "signal_auth \<Rightarrow> string \<Rightarrow> string \<Rightarrow> string \<Rightarrow> string \<Rightarrow> refusal + role" where
  "signal_admit au robot0 role0 header query =
     (let robot = trim robot0; r = trim role0; key = pick_api_key header query in
      if robot = [] then Inl (Refused 400 ''robot_id required'')
      else if \<not> sa_uuid_ok au robot then Inl (Refused 400 ''robot_id must be a valid UUID'')
      else if r \<noteq> ''agent'' \<and> r \<noteq> ''client'' then Inl (Refused 400 ''role must be agent or client'')
      else if r = ''agent'' then
        (if key = [] then Inl (Refused 401 ''api_key required for agent signaling'')
         else case check_robot_key au robot key of Inl e \<Rightarrow> Inl e | Inr _ \<Rightarrow> Inr Agent)
      else case sa_authorize_client au robot of Inl e \<Rightarrow> Inl e | Inr _ \<Rightarrow> Inr Client)"

definition should_debounce ::
  "(string \<Rightarrow> string \<Rightarrow> bool) \<Rightarrow> 'v peer_conn option \<Rightarrow> 'v peer_conn \<Rightarrow> duration \<Rightarrow> bool" where
  "should_debounce ufold existing incoming window =
     (case existing of
        None \<Rightarrow> False
      | Some ex \<Rightarrow>
          let same = (\<lambda>a b. trim a \<noteq> [] \<and> trim b \<noteq> [] \<and> equal_fold ufold (trim a) (trim b)) in
          0 < window \<and> \<not> is_zero (pc_connected_at ex) \<and> \<not> is_zero (pc_connected_at incoming) \<and>
          \<not> window < time_sub (pc_connected_at incoming) (pc_connected_at ex) \<and>
          (same (pc_src_ip ex) (pc_src_ip incoming) \<or> same (pc_bootstrap_id ex) (pc_bootstrap_id incoming)))"

definition preempt_debounce_window :: "(string \<Rightarrow> string) \<Rightarrow> duration" where
  "preempt_debounce_window env =
     parse_env_int_default env ''ROBOTUNNEL_WEBRTC_PREEMPT_DEBOUNCE_MS'' 3000 0 60000 * millisecond"

definition holder :: "role \<Rightarrow> session \<Rightarrow> nat option" where
  "holder r s = (case r of Agent \<Rightarrow> sn_agent s | Client \<Rightarrow> sn_client s)"

definition set_holder :: "role \<Rightarrow> nat option \<Rightarrow> session \<Rightarrow> session" where
  "set_holder r p s = (case r of Agent \<Rightarrow> s\<lparr>sn_agent := p\<rparr> | Client \<Rightarrow> s\<lparr>sn_client := p\<rparr>)"

fun other_role :: "role \<Rightarrow> role" where
  "other_role Agent = Client" | "other_role Client = Agent"

text \<open>What a handler keeps in its local variables once it has its session.\<close>

record handler =
  hd_robot :: string
  hd_role :: role
  hd_peer :: nat
  hd_session :: nat
  hd_bootstrap_id :: string
  hd_src_ip :: string
  hd_route_type :: string

definition signal_text :: "string \<Rightarrow> handler \<Rightarrow> 'v go_signal" where
  "signal_text t k = \<lparr>gs_type = t, gs_payload = None, gs_robot_id = hd_robot k, gs_bootstrap_id = hd_bootstrap_id k\<rparr>"

text \<open>Calls into the relay service: the session is activated, a bootstrap or a teardown triggered.\<close>

datatype relay_call = Activate string string | Trigger string bool string string string

text \<open>The section that takes the place in the session, and the notices sent after it.\<close>

definition signal_attach ::
  "(string \<Rightarrow> string \<Rightarrow> bool) \<Rightarrow> duration \<Rightarrow> handler \<Rightarrow> 'v signalling \<Rightarrow> (bool \<times> relay_call list) \<times> 'v signalling" where
  "signal_attach ufold window k g =
     (let s = sg_sessions g ! hd_session k; prev = holder (hd_role k) s;
          counterpart = holder (other_role (hd_role k)) s in
      if should_debounce ufold (map_option ((!) (sg_peers g)) prev) (sg_peers g ! hd_peer k) window
      then ((False, []), g)
      else
        let g1 = upd_session (hd_session k) (set_holder (hd_role k) (Some (hd_peer k))) g;
            g2 = (case prev of
                    None \<Rightarrow> g1
                  | Some p \<Rightarrow>
                      if p = hd_peer k then g1
                      else close_done p
                        (if hd_role k = Client then snd (enqueue_signal (Some p) (signal_text ''session-preempted'' k) g1)
                         else g1)) in
        case hd_role k of
          Agent \<Rightarrow> ((True, []), g2)
        | Client \<Rightarrow>
            ((True, [Activate (hd_robot k) (hd_bootstrap_id k), 
                    Trigger (hd_robot k) False (hd_src_ip k) (hd_bootstrap_id k) (hd_route_type k)]),
             snd (enqueue_signal counterpart (signal_text ''client-ready'' k) g2)))"

text \<open>One message of the peer: the reader overwrites the robot, fills in the session and relays.\<close>

definition signal_inbound :: "handler \<Rightarrow> 'v go_signal \<Rightarrow> 'v signalling \<Rightarrow> bool \<times> 'v signalling" where
  "signal_inbound k msg g =
     session_relay (hd_session k)
       (msg\<lparr>gs_robot_id := hd_robot k,
            gs_bootstrap_id := (if trim (gs_bootstrap_id msg) = [] then hd_bootstrap_id k else gs_bootstrap_id msg)\<rparr>)
       (hd_role k \<noteq> Agent) g"

text \<open>The writer takes the oldest queued message.\<close>

definition signal_written :: "nat \<Rightarrow> 'v signalling \<Rightarrow> 'v signalling" where
  "signal_written p g = upd_peer p (\<lambda>c. c\<lparr>pc_send := drop 1 (pc_send c)\<rparr>) g"

text \<open>The section that gives the place up; the flag says that the session is to be removed from the
  registry, which a later step does.\<close>

definition signal_detach ::
  "handler \<Rightarrow> 'v signalling \<Rightarrow> (bool \<times> relay_call list) \<times> 'v signalling" where
  "signal_detach k g =
     (let g0 = close_done (hd_peer k) g;
          s = sg_sessions g0 ! hd_session k;
          current = (holder (hd_role k) s = Some (hd_peer k));
          s1 = (if current then set_holder (hd_role k) None s else s);
          notify = (if current then holder (other_role (hd_role k)) s else None);
          g1 = upd_session (hd_session k) (\<lambda>_. s1) g0
      in ((sn_agent s1 = None \<and> sn_client s1 = None,
           if hd_role k = Client \<and> current then [Trigger (hd_robot k) True [] (hd_bootstrap_id k) (hd_route_type k)] else []),
          snd (enqueue_signal notify (signal_text ''bye'' k) g1)))"

section \<open>Interleaved handlers\<close>

text \<open>All handlers of the service at once. Opening a connection creates the peer and gets the session
  of its robot; \<open>fresh\<close> is the identifier made up for a request without one.\<close>

record 'v signal_service =
  sv_state :: "'v signalling"
  sv_handlers :: "handler list"

datatype 'v service_event =
    SvOpen string role string string string gotime string
  | SvAttach nat
  | SvInbound nat "'v go_signal"
  | SvWritten nat
  | SvDetach nat
  | SvRemove nat

definition service_new :: "'v signal_service" where
  "service_new = \<lparr>sv_state = signalling_new, sv_handlers = []\<rparr>"

definition signal_open ::
  "string \<Rightarrow> role \<Rightarrow> string \<Rightarrow> string \<Rightarrow> string \<Rightarrow> gotime \<Rightarrow> string \<Rightarrow> 'v signal_service \<Rightarrow> 'v signal_service" where
  "signal_open robot0 r bid0 fresh ip at route v =
     (let robot = trim robot0; bid = (if trim bid0 = [] then fresh else trim bid0);
          peer = \<lparr>pc_send = [], pc_done = False, pc_connected_at = at, pc_src_ip = trim ip, pc_bootstrap_id = bid\<rparr>;
          g1 = (sv_state v)\<lparr>sg_peers := sg_peers (sv_state v) @ [peer]\<rparr>;
          (s, g2) = get_or_create robot g1
      in \<lparr>sv_state = g2,
          sv_handlers = sv_handlers v @ [\<lparr>hd_robot = robot, hd_role = r, hd_peer = length (sg_peers (sv_state v)),
            hd_session = s, hd_bootstrap_id = bid, hd_src_ip = trim ip, hd_route_type = trim route\<rparr>]\<rparr>)"

fun service_step ::
  "(string \<Rightarrow> string \<Rightarrow> bool) \<Rightarrow> duration \<Rightarrow> 'v signal_service \<Rightarrow> 'v service_event \<Rightarrow> 'v signal_service" where
  "service_step ufold w v (SvOpen robot r bid fresh ip at route) = signal_open robot r bid fresh ip at route v"
| "service_step ufold w v (SvAttach i) =
     (if i < length (sv_handlers v) then v\<lparr>sv_state := snd (signal_attach ufold w (sv_handlers v ! i) (sv_state v))\<rparr> else v)"
| "service_step ufold w v (SvInbound i m) =
     (if i < length (sv_handlers v) then v\<lparr>sv_state := snd (signal_inbound (sv_handlers v ! i) m (sv_state v))\<rparr> else v)"
| "service_step ufold w v (SvWritten i) =
     (if i < length (sv_handlers v) then v\<lparr>sv_state := signal_written (hd_peer (sv_handlers v ! i)) (sv_state v)\<rparr> else v)"
| "service_step ufold w v (SvDetach i) =
     (if i < length (sv_handlers v) then v\<lparr>sv_state := snd (signal_detach (sv_handlers v ! i) (sv_state v))\<rparr> else v)"
| "service_step ufold w v (SvRemove i) =
     (if i < length (sv_handlers v) then v\<lparr>sv_state := registry_remove (hd_robot (sv_handlers v ! i)) (sv_state v)\<rparr> else v)"

text \<open>The invariant: peers belong to their handlers; handlers that share a session share the robot; a
  session's places are held by handlers of that session and role; the queues are bounded and
  hold only messages about the handler's own robot.\<close>

definition peers_ok :: "'v peer_conn list \<Rightarrow> handler list \<Rightarrow> bool" where
  "peers_ok ps ks \<longleftrightarrow> length ps = length ks \<and>
     (\<forall>i < length ks. hd_peer (ks ! i) = i \<and> length (pc_send (ps ! i)) \<le> 32 \<and>
        (\<forall>m \<in> set (pc_send (ps ! i)). gs_robot_id m = hd_robot (ks ! i)))"

definition same_robot :: "handler list \<Rightarrow> bool" where
  "same_robot ks \<longleftrightarrow>
     (\<forall>i < length ks. \<forall>j < length ks. hd_session (ks ! i) = hd_session (ks ! j) \<longrightarrow> hd_robot (ks ! i) = hd_robot (ks ! j))"

definition sessions_ok :: "session list \<Rightarrow> handler list \<Rightarrow> bool" where
  "sessions_ok ss ks \<longleftrightarrow>
     (\<forall>i < length ks. hd_session (ks ! i) < length ss) \<and> same_robot ks \<and>
     (\<forall>s < length ss. \<forall>r p. holder r (ss ! s) = Some p \<longrightarrow>
        p < length ks \<and> hd_session (ks ! p) = s \<and> hd_role (ks ! p) = r)"

definition registry_ok :: "(string \<rightharpoonup> nat) \<Rightarrow> nat \<Rightarrow> handler list \<Rightarrow> bool" where
  "registry_ok m n ks \<longleftrightarrow>
     (\<forall>r s. m r = Some s \<longrightarrow> s < n \<and> (\<forall>i < length ks. hd_session (ks ! i) = s \<longrightarrow> hd_robot (ks ! i) = r)) \<and>
     (\<forall>r r' s. m r = Some s \<and> m r' = Some s \<longrightarrow> r = r')"

definition service_ok :: "'v signal_service \<Rightarrow> bool" where
  "service_ok v \<longleftrightarrow>
     peers_ok (sg_peers (sv_state v)) (sv_handlers v) \<and> sessions_ok (sg_sessions (sv_state v)) (sv_handlers v) \<and>
     registry_ok (sg_registry (sv_state v)) (length (sg_sessions (sv_state v))) (sv_handlers v)"

lemma service_new_ok: "service_ok service_new"
  by (simp add: service_ok_def service_new_def signalling_new_def peers_ok_def sessions_ok_def registry_ok_def
      same_robot_def)

lemma peers_ok_update:
  assumes "peers_ok ps ks" and "i < length ks \<Longrightarrow> length (pc_send x) \<le> 32"
    and "\<And>m. i < length ks \<Longrightarrow> m \<in> set (pc_send x) \<Longrightarrow> gs_robot_id m = hd_robot (ks ! i)"
  shows "peers_ok (ps[i := x]) ks"
proof (cases "i < length ks")
  case True
  with assms(2,3) have "length (pc_send x) \<le> 32" "\<forall>m \<in> set (pc_send x). gs_robot_id m = hd_robot (ks ! i)" by auto
  with assms(1) True show ?thesis by (simp add: peers_ok_def nth_list_update)
next
  case False
  with assms(1) show ?thesis by (simp add: peers_ok_def list_update_beyond)
qed

lemma enqueue_signal_ok:
  assumes "peers_ok (sg_peers g) ks" and "\<And>p. po = Some p \<Longrightarrow> p < length ks \<and> gs_robot_id m = hd_robot (ks ! p)"
  shows "peers_ok (sg_peers (snd (enqueue_signal po m g))) ks"
proof (cases po)
  case None
  with assms show ?thesis by (simp add: enqueue_signal_def)
next
  case (Some p)
  with assms(2) have p: "p < length ks" "gs_robot_id m = hd_robot (ks ! p)" by simp_all
  then have "length (pc_send (sg_peers g ! p)) \<le> 32" "\<forall>m \<in> set (pc_send (sg_peers g ! p)). gs_robot_id m = hd_robot (ks ! p)"
    using assms(1) by (simp_all add: peers_ok_def)
  then have "peers_ok ((sg_peers g)[p := (sg_peers g ! p)
      \<lparr>pc_send := snd (chan_offer 32 m (pc_send (sg_peers g ! p)))\<rparr>]) ks"
    using p assms(1) by (intro peers_ok_update) (auto simp: chan_offer_def split: if_splits)
  with Some show ?thesis by (simp add: enqueue_signal_def upd_peer_def)
qed

lemma enqueue_frame [simp]:
  "sg_sessions (snd (enqueue_signal po m g)) = sg_sessions g"
  "sg_registry (snd (enqueue_signal po m g)) = sg_registry g"
  by (simp_all add: enqueue_signal_def upd_peer_def split: option.splits)

lemma close_done_frame [simp]:
  "sg_sessions (close_done p g) = sg_sessions g" "sg_registry (close_done p g) = sg_registry g"
  by (simp_all add: close_done_def upd_peer_def)

lemma upd_session_frame [simp]:
  "sg_peers (upd_session s f g) = sg_peers g" "sg_registry (upd_session s f g) = sg_registry g"
  "sg_sessions (upd_session s f g) = (sg_sessions g)[s := f (sg_sessions g ! s)]"
  by (simp_all add: upd_session_def)

lemma close_done_ok: "peers_ok (sg_peers g) ks \<Longrightarrow> peers_ok (sg_peers (close_done p g)) ks"
  unfolding close_done_def upd_peer_def by simp (rule peers_ok_update, auto simp: peers_ok_def)

lemma sessions_ok_update:
  assumes "sessions_ok ss ks"
    and "\<And>r p. s < length ss \<Longrightarrow> holder r x = Some p \<Longrightarrow> p < length ks \<and> hd_session (ks ! p) = s \<and> hd_role (ks ! p) = r"
  shows "sessions_ok (ss[s := x]) ks"
proof -
  have "p < length ks \<and> hd_session (ks ! p) = t \<and> hd_role (ks ! p) = r"
    if "t < length ss" "holder r (ss[s := x] ! t) = Some p" for t r p
  proof (cases "t = s")
    case True
    with that assms(2)[of r p] show ?thesis by simp
  next
    case False
    with that have "holder r (ss ! t) = Some p" by simp
    with that(1) assms(1) show ?thesis unfolding sessions_ok_def by blast
  qed
  then show ?thesis using assms(1) by (simp add: sessions_ok_def)
qed

lemma holder_simps [simp]:
  "holder r (set_holder r p s) = p" "holder (other_role r) (set_holder r p s) = holder (other_role r) s"
  by (cases r; simp add: holder_def set_holder_def)+

lemma holder_other: "r' \<noteq> r \<Longrightarrow> holder r' (set_holder r p s) = holder r' s"
  by (cases r; cases r') (simp_all add: holder_def set_holder_def)

lemma holder_robot:
  assumes "sessions_ok ss ks" and "i < length ks" and "holder r (ss ! hd_session (ks ! i)) = Some p"
  shows "p < length ks" and "hd_robot (ks ! p) = hd_robot (ks ! i)"
proof -
  have "hd_session (ks ! i) < length ss" using assms(1,2) by (simp add: sessions_ok_def)
  with assms(1,3) have p: "p < length ks" "hd_session (ks ! p) = hd_session (ks ! i)"
    unfolding sessions_ok_def by blast+
  show "p < length ks" by (rule p(1))
  show "hd_robot (ks ! p) = hd_robot (ks ! i)"
    using assms(1,2) p unfolding sessions_ok_def same_robot_def by blast
qed

lemma set_holder_ok:
  assumes "sessions_ok ss ks" and "i < length ks" and "\<And>p. po = Some p \<Longrightarrow> p = i"
  shows "sessions_ok (ss[hd_session (ks ! i) := set_holder (hd_role (ks ! i)) po (ss ! hd_session (ks ! i))]) ks"
proof (rule sessions_ok_update[OF assms(1)])
  fix r p
  assume s: "hd_session (ks ! i) < length ss"
    and h: "holder r (set_holder (hd_role (ks ! i)) po (ss ! hd_session (ks ! i))) = Some p"
  show "p < length ks \<and> hd_session (ks ! p) = hd_session (ks ! i) \<and> hd_role (ks ! p) = r"
  proof (cases "r = hd_role (ks ! i)")
    case True
    with h assms(2,3) show ?thesis by simp
  next
    case False
    with h have "holder r (ss ! hd_session (ks ! i)) = Some p" by (simp add: holder_other)
    with s assms(1) show ?thesis unfolding sessions_ok_def by blast
  qed
qed

lemma signal_text_robot [simp]: "gs_robot_id (signal_text t k) = hd_robot k"
  by (simp add: signal_text_def)

lemma attach_ok:
  assumes ok: "peers_ok (sg_peers g) ks" "sessions_ok (sg_sessions g) ks" and i: "i < length ks"
  shows "peers_ok (sg_peers (snd (signal_attach ufold w (ks ! i) g))) ks"
    and "sessions_ok (sg_sessions (snd (signal_attach ufold w (ks ! i) g))) ks"
    and "sg_registry (snd (signal_attach ufold w (ks ! i) g)) = sg_registry g"
    and "length (sg_sessions (snd (signal_attach ufold w (ks ! i) g))) = length (sg_sessions g)"
proof -
  let ?k = "ks ! i"
  let ?s = "sg_sessions g ! hd_session ?k"
  have peer: "hd_peer ?k = i" using ok(1) i by (simp add: peers_ok_def)
  have own: "p < length ks \<and> hd_robot ?k = hd_robot (ks ! p)" if "holder r ?s = Some p" for r p
    using holder_robot[OF ok(2) i that] by simp
  have ss: "sessions_ok ((sg_sessions g)[hd_session ?k := set_holder (hd_role ?k) (Some i) ?s]) ks"
    by (rule set_holder_ok[OF ok(2) i]) simp
  let ?g1 = "upd_session (hd_session ?k) (set_holder (hd_role ?k) (Some i)) g"
  define g2 where "g2 = (case holder (hd_role ?k) ?s of None \<Rightarrow> ?g1
    | Some p \<Rightarrow> if p = i then ?g1 else close_done p
        (if hd_role ?k = Client then snd (enqueue_signal (Some p) (signal_text ''session-preempted'' ?k) ?g1) else ?g1))"
  have g2: "peers_ok (sg_peers g2) ks" "sg_sessions g2 = sg_sessions ?g1" "sg_registry g2 = sg_registry g"
    unfolding g2_def using ok(1) own[of "hd_role ?k"]
    by (auto split: option.splits intro!: close_done_ok enqueue_signal_ok)
  let ?g3 = "snd (enqueue_signal (holder (other_role (hd_role ?k)) ?s) (signal_text ''client-ready'' ?k) g2)"
  have g3: "peers_ok (sg_peers ?g3) ks" using g2(1) own by (intro enqueue_signal_ok) auto
  have "snd (signal_attach ufold w ?k g) \<in> {g, g2, ?g3}"
    unfolding signal_attach_def g2_def Let_def peer by (simp split: role.split)
  then consider "snd (signal_attach ufold w ?k g) = g" | "snd (signal_attach ufold w ?k g) = g2"
    | "snd (signal_attach ufold w ?k g) = ?g3" by blast
  note three = this
  show "peers_ok (sg_peers (snd (signal_attach ufold w ?k g))) ks"
    by (rule three) (use ok(1) g2(1) g3 in \<open>simp_all only:\<close>)
  show "sessions_ok (sg_sessions (snd (signal_attach ufold w ?k g))) ks"
    by (rule three) (use ok(2) g2(2) ss in simp_all)
  show "sg_registry (snd (signal_attach ufold w ?k g)) = sg_registry g"
    by (rule three) (use g2(3) in simp_all)
  show "length (sg_sessions (snd (signal_attach ufold w ?k g))) = length (sg_sessions g)"
    by (rule three) (use g2(2) in simp_all)
qed

lemma detach_ok:
  assumes ok: "peers_ok (sg_peers g) ks" "sessions_ok (sg_sessions g) ks" and i: "i < length ks"
  shows "peers_ok (sg_peers (snd (signal_detach (ks ! i) g))) ks"
    and "sessions_ok (sg_sessions (snd (signal_detach (ks ! i) g))) ks"
    and "sg_registry (snd (signal_detach (ks ! i) g)) = sg_registry g"
    and "length (sg_sessions (snd (signal_detach (ks ! i) g))) = length (sg_sessions g)"
proof -
  let ?k = "ks ! i"
  let ?s = "sg_sessions g ! hd_session ?k"
  let ?cur = "holder (hd_role ?k) ?s = Some (hd_peer ?k)"
  let ?s1 = "if ?cur then set_holder (hd_role ?k) None ?s else ?s"
  have own: "p < length ks \<and> hd_robot ?k = hd_robot (ks ! p)" if "holder r ?s = Some p" for r p
    using holder_robot[OF ok(2) i that] by simp
  have ss: "sessions_ok ((sg_sessions g)[hd_session ?k := ?s1]) ks"
    using set_holder_ok[OF ok(2) i, of None] ok(2) by (cases ?cur) simp_all
  have eq: "snd (signal_detach ?k g) = snd (enqueue_signal (if ?cur then holder (other_role (hd_role ?k)) ?s else None)
      (signal_text ''bye'' ?k) (upd_session (hd_session ?k) (\<lambda>_. ?s1) (close_done (hd_peer ?k) g)))"
    by (simp only: signal_detach_def Let_def snd_conv close_done_frame)
  show "peers_ok (sg_peers (snd (signal_detach ?k g))) ks"
    unfolding eq
  proof (rule enqueue_signal_ok)
    fix p
    assume "(if ?cur then holder (other_role (hd_role ?k)) ?s else None) = Some p"
    then have "holder (other_role (hd_role ?k)) ?s = Some p" by (simp split: if_splits)
    from own[OF this] show "p < length ks \<and> gs_robot_id (signal_text ''bye'' ?k) = hd_robot (ks ! p)" by simp
  qed (simp add: ok(1) close_done_ok)
  show "sessions_ok (sg_sessions (snd (signal_detach ?k g))) ks"
    unfolding eq using ss by simp
  show "sg_registry (snd (signal_detach ?k g)) = sg_registry g" unfolding eq by simp
  show "length (sg_sessions (snd (signal_detach ?k g))) = length (sg_sessions g)" unfolding eq by simp
qed

lemma inbound_ok:
  assumes ok: "peers_ok (sg_peers g) ks" "sessions_ok (sg_sessions g) ks" and i: "i < length ks"
  shows "peers_ok (sg_peers (snd (signal_inbound (ks ! i) m g))) ks"
proof -
  have "p < length ks \<and> hd_robot (ks ! i) = hd_robot (ks ! p)"
    if "(if b then sn_agent (sg_sessions g ! hd_session (ks ! i)) else sn_client (sg_sessions g ! hd_session (ks ! i))) = Some p" for b p
    using holder_robot[OF ok(2) i, of "if b then Agent else Client" p] that by (cases b) (simp_all add: holder_def)
  then show ?thesis
    unfolding signal_inbound_def session_relay_def using ok(1) by (intro enqueue_signal_ok) auto
qed

lemma peers_ok_open:
  "peers_ok ps ks \<Longrightarrow> pc_send c = [] \<Longrightarrow> hd_peer k = length ps \<Longrightarrow> peers_ok (ps @ [c]) (ks @ [k])"
  by (auto simp: peers_ok_def nth_append less_Suc_eq)

lemma same_robot_open:
  assumes "same_robot ks" and "\<And>i. i < length ks \<Longrightarrow> hd_session (ks ! i) = hd_session k \<Longrightarrow> hd_robot (ks ! i) = hd_robot k"
  shows "same_robot (ks @ [k])"
  unfolding same_robot_def
proof (intro allI impI)
  fix i j
  assume ij: "i < length (ks @ [k])" "j < length (ks @ [k])" "hd_session ((ks @ [k]) ! i) = hd_session ((ks @ [k]) ! j)"
  then consider "i < length ks" "j < length ks" | "i < length ks" "j = length ks" | "i = length ks" "j < length ks"
    | "i = length ks" "j = length ks" by (auto simp: less_Suc_eq)
  then show "hd_robot ((ks @ [k]) ! i) = hd_robot ((ks @ [k]) ! j)"
  proof cases
    case 1
    then have "hd_session (ks ! i) = hd_session (ks ! j)" using ij(3) by (simp add: nth_append)
    with 1 assms(1) have "hd_robot (ks ! i) = hd_robot (ks ! j)" unfolding same_robot_def by blast
    with 1 show ?thesis by (simp add: nth_append)
  next
    case 2
    then have "hd_session (ks ! i) = hd_session k" using ij(3) by (simp add: nth_append)
    from assms(2)[OF 2(1) this] 2 show ?thesis by (simp add: nth_append)
  next
    case 3
    then have "hd_session (ks ! j) = hd_session k" using ij(3) by (simp add: nth_append)
    from assms(2)[OF 3(2) this] 3 show ?thesis by (simp add: nth_append)
  qed simp
qed

lemma sessions_ok_open:
  assumes "sessions_ok ss ks" and "hd_session k < length ss"
    and "\<And>i. i < length ks \<Longrightarrow> hd_session (ks ! i) = hd_session k \<Longrightarrow> hd_robot (ks ! i) = hd_robot k"
  shows "sessions_ok ss (ks @ [k])"
proof -
  have "same_robot (ks @ [k])" using assms(1,3) by (intro same_robot_open) (auto simp: sessions_ok_def)
  moreover have "p < length (ks @ [k]) \<and> hd_session ((ks @ [k]) ! p) = s \<and> hd_role ((ks @ [k]) ! p) = r"
    if "s < length ss" "holder r (ss ! s) = Some p" for s r p
  proof -
    have "p < length ks \<and> hd_session (ks ! p) = s \<and> hd_role (ks ! p) = r"
      using that assms(1) unfolding sessions_ok_def by blast
    then show ?thesis by (simp add: nth_append)
  qed
  moreover have "\<forall>i < length (ks @ [k]). hd_session ((ks @ [k]) ! i) < length ss"
    using assms(1,2) by (auto simp: sessions_ok_def nth_append less_Suc_eq)
  ultimately show ?thesis unfolding sessions_ok_def by blast
qed

lemma sessions_ok_new: "sessions_ok ss ks \<Longrightarrow> sessions_ok (ss @ [\<lparr>sn_agent = None, sn_client = None\<rparr>]) ks"
  (is "_ \<Longrightarrow> sessions_ok (ss @ [?e]) ks")
proof -
  assume ok: "sessions_ok ss ks"
  have "p < length ks \<and> hd_session (ks ! p) = s \<and> hd_role (ks ! p) = r"
    if "s < length (ss @ [?e])" "holder r ((ss @ [?e]) ! s) = Some p" for s r p
  proof (cases "s < length ss")
    case True
    with that ok show ?thesis unfolding sessions_ok_def by (metis nth_append)
  next
    case False
    with that(1) have "s = length ss" by simp
    with that(2) show ?thesis by (cases r) (simp_all add: holder_def)
  qed
  moreover have "\<forall>i < length ks. hd_session (ks ! i) < length (ss @ [?e])"
    using ok by (simp add: sessions_ok_def less_Suc_eq)
  ultimately show ?thesis using ok unfolding sessions_ok_def by blast
qed

lemma registry_ok_open:
  assumes "registry_ok m n ks" and "m (hd_robot k) = Some (hd_session k)"
  shows "registry_ok m n (ks @ [k])"
proof -
  have "hd_robot ((ks @ [k]) ! i) = r" if "m r = Some s" "i < length (ks @ [k])" "hd_session ((ks @ [k]) ! i) = s" for r s i
  proof (cases "i < length ks")
    case True
    then have "hd_session (ks ! i) = s" using that(3) by (simp add: nth_append)
    with True that(1) assms(1) have "hd_robot (ks ! i) = r" unfolding registry_ok_def by blast
    with True show ?thesis by (simp add: nth_append)
  next
    case False
    then have "hd_session k = s" and i: "i = length ks" using that(2,3) by (auto simp: nth_append)
    then have "hd_robot k = r" using that(1) assms unfolding registry_ok_def by blast
    with i show ?thesis by simp
  qed
  then show ?thesis using assms(1) unfolding registry_ok_def by blast
qed

lemma registry_ok_new:
  assumes "registry_ok m n ks" and "\<forall>i < length ks. hd_session (ks ! i) < n"
  shows "registry_ok (m(r \<mapsto> n)) (Suc n) ks"
proof -
  have bound: "s < n" if "m q = Some s" for q s using that assms(1) unfolding registry_ok_def by blast
  have "s < Suc n \<and> (\<forall>i < length ks. hd_session (ks ! i) = s \<longrightarrow> hd_robot (ks ! i) = q)"
    if "(m(r \<mapsto> n)) q = Some s" for q s
  proof (cases "q = r")
    case True
    with that assms(2) show ?thesis by auto
  next
    case False
    with that have "m q = Some s" by simp
    with bound[OF this] assms(1) show ?thesis unfolding registry_ok_def by (metis less_SucI)
  qed
  moreover have "q = q'" if "(m(r \<mapsto> n)) q = Some s" "(m(r \<mapsto> n)) q' = Some s" for q q' s
    using that bound assms(1) unfolding registry_ok_def by (metis fun_upd_apply less_irrefl option.inject)
  ultimately show ?thesis unfolding registry_ok_def by blast
qed

lemma registry_ok_remove: "registry_ok m n ks \<Longrightarrow> registry_ok (m(r := None)) n ks"
  unfolding registry_ok_def by (metis fun_upd_apply option.distinct(1))

lemma get_or_create_ok:
  assumes "sessions_ok (sg_sessions g) ks" and "registry_ok (sg_registry g) (length (sg_sessions g)) ks"
    and "get_or_create robot g = (s, g')"
  shows "sessions_ok (sg_sessions g') ks" and "registry_ok (sg_registry g') (length (sg_sessions g')) ks"
    and "sg_registry g' robot = Some s" and "sg_peers g' = sg_peers g"
proof -
  have "\<forall>i < length ks. hd_session (ks ! i) < length (sg_sessions g)" using assms(1) by (simp add: sessions_ok_def)
  note new = sessions_ok_new[OF assms(1)] registry_ok_new[OF assms(2) this, of robot]
  show "sessions_ok (sg_sessions g') ks" "registry_ok (sg_registry g') (length (sg_sessions g')) ks"
    "sg_registry g' robot = Some s" "sg_peers g' = sg_peers g"
    using assms new by (auto simp: get_or_create_def split: option.splits)
qed

lemma open_ok:
  assumes "service_ok v"
  shows "service_ok (signal_open robot r bid fresh ip at route v)"
proof -
  let ?ks = "sv_handlers v" and ?c = "\<lparr>pc_send = [], pc_done = False, pc_connected_at = at, pc_src_ip = trim ip,
      pc_bootstrap_id = (if trim bid = [] then fresh else trim bid)\<rparr>"
  let ?g1 = "(sv_state v)\<lparr>sg_peers := sg_peers (sv_state v) @ [?c]\<rparr>"
  obtain s g2 where g: "get_or_create (trim robot) ?g1 = (s, g2)" by (cases "get_or_create (trim robot) ?g1")
  let ?k = "\<lparr>hd_robot = trim robot, hd_role = r, hd_peer = length (sg_peers (sv_state v)), hd_session = s,
      hd_bootstrap_id = (if trim bid = [] then fresh else trim bid), hd_src_ip = trim ip, hd_route_type = trim route\<rparr>"
  have base: "peers_ok (sg_peers (sv_state v)) ?ks" "sessions_ok (sg_sessions ?g1) ?ks"
      "registry_ok (sg_registry ?g1) (length (sg_sessions ?g1)) ?ks"
    using assms by (simp_all add: service_ok_def)
  note goc = get_or_create_ok[OF base(2,3) g]
  have "peers_ok (sg_peers g2) (?ks @ [?k])" unfolding goc(4) using base(1) by (simp add: peers_ok_open)
  moreover have "registry_ok (sg_registry g2) (length (sg_sessions g2)) (?ks @ [?k])"
    using goc(2,3) by (intro registry_ok_open) simp_all
  moreover have "sessions_ok (sg_sessions g2) (?ks @ [?k])"
    using goc(1-3) by (intro sessions_ok_open) (auto simp: registry_ok_def)
  moreover have "signal_open robot r bid fresh ip at route v = \<lparr>sv_state = g2, sv_handlers = ?ks @ [?k]\<rparr>"
    by (simp add: signal_open_def Let_def g)
  ultimately show ?thesis by (simp add: service_ok_def)
qed

lemma written_ok: "peers_ok (sg_peers g) ks \<Longrightarrow> peers_ok (sg_peers (signal_written p g)) ks"
  unfolding signal_written_def upd_peer_def
  by simp (rule peers_ok_update, auto simp: peers_ok_def dest: in_set_dropD)

lemma inbound_frame:
  "sg_sessions (snd (signal_inbound k m g)) = sg_sessions g" "sg_registry (snd (signal_inbound k m g)) = sg_registry g"
  by (simp_all add: signal_inbound_def session_relay_def)

lemma written_frame:
  "sg_sessions (signal_written p g) = sg_sessions g" "sg_registry (signal_written p g) = sg_registry g"
  by (simp_all add: signal_written_def upd_peer_def)

lemma service_step_ok:
  assumes "service_ok v"
  shows "service_ok (service_step ufold w v e)"
proof (cases e)
  case (SvOpen a b c d f g h)
  with open_ok[OF assms] show ?thesis by simp
next
  case (SvAttach i)
  with attach_ok[of "sv_state v" "sv_handlers v" i ufold w] assms show ?thesis by (simp add: service_ok_def)
next
  case (SvInbound i m)
  with inbound_ok[of "sv_state v" "sv_handlers v" i m] assms show ?thesis
    by (simp add: service_ok_def inbound_frame)
next
  case (SvWritten i)
  with written_ok[of "sv_state v" "sv_handlers v"] assms show ?thesis
    by (simp add: service_ok_def written_frame)
next
  case (SvDetach i)
  with detach_ok[of "sv_state v" "sv_handlers v" i] assms show ?thesis by (simp add: service_ok_def)
next
  case (SvRemove i)
  with assms show ?thesis by (simp add: service_ok_def registry_remove_def registry_ok_remove)
qed

interpretation sig: step_system "service_step ufold w" service_ok
  by unfold_locales (rule service_step_ok)

text \<open>C23: Robots never see each other's signalling, however the handlers interleave and whatever the
  peers send: every message waiting for a peer carries the robot the peer is connected for (the
  server overwrites what a sender claims), at most 32 wait, and whoever holds the place of the
  agent or of the client in a peer's session connected in that role for that peer's robot.\<close>

theorem signals_stay_with_robot:
  assumes "v = run_steps (service_step ufold w) service_new es" and "i < length (sv_handlers v)"
    and "k = sv_handlers v ! i" and "c = sg_peers (sv_state v) ! hd_peer k"
  shows "length (pc_send c) \<le> 32 \<and> (\<forall>m \<in> set (pc_send c). gs_robot_id m = hd_robot k) \<and>
    (\<forall>r p. holder r (sg_sessions (sv_state v) ! hd_session k) = Some p \<longrightarrow>
       p < length (sv_handlers v) \<and> hd_role (sv_handlers v ! p) = r \<and> hd_robot (sv_handlers v ! p) = hd_robot k)"
proof -
  have ok: "service_ok v" unfolding assms(1) by (rule sig.run_inv[OF service_new_ok])
  then have p: "peers_ok (sg_peers (sv_state v)) (sv_handlers v)" and s: "sessions_ok (sg_sessions (sv_state v)) (sv_handlers v)"
    by (simp_all add: service_ok_def)
  have hold: "p < length (sv_handlers v) \<and> hd_role (sv_handlers v ! p) = r \<and> hd_robot (sv_handlers v ! p) = hd_robot k"
    if h: "holder r (sg_sessions (sv_state v) ! hd_session k) = Some p" for r p
  proof -
    have "hd_session k < length (sg_sessions (sv_state v))" using s assms(2,3) by (simp add: sessions_ok_def)
    with s h have "hd_role (sv_handlers v ! p) = r" unfolding sessions_ok_def by blast
    with holder_robot[OF s assms(2) h[unfolded assms(3)]] show ?thesis by (simp add: assms(3))
  qed
  have "length (pc_send c) \<le> 32" "\<forall>m \<in> set (pc_send c). gs_robot_id m = hd_robot k"
    using p assms(2-4) by (simp_all add: peers_ok_def)
  with hold show ?thesis by blast
qed

text \<open>Two peers of one robot meet, and a peer of another robot; used by the examples.\<close>

definition demo_run :: "nat service_event list" where
  "demo_run = [SvOpen ''r'' Agent ''b'' [] [] 1 [], SvAttach 0, SvOpen ''r'' Client ''b'' [] [] 2 [], SvAttach 1,
     SvOpen ''q'' Agent ''c'' [] [] 3 [], SvAttach 2,
     SvInbound 1 \<lparr>gs_type = ''offer'', gs_payload = Some 5, gs_robot_id = ''q'', gs_bootstrap_id = []\<rparr>]"

definition demo_service :: "nat signal_service" where
  "demo_service = run_steps (service_step (\<lambda>_ _. False) 0) service_new demo_run"

lemma demo_service_facts:
  "length (sv_handlers demo_service) = 3"
  "map gs_type (pc_send (sg_peers (sv_state demo_service) ! hd_peer (sv_handlers demo_service ! 0))) = [''client-ready'', ''offer'']"
  "hd_robot (sv_handlers demo_service ! 0) = ''r''"
  by code_simp+

theorem signals_stay_with_robot_witness:
  "map gs_type (pc_send (sg_peers (sv_state demo_service) ! hd_peer (sv_handlers demo_service ! 0))) = [''client-ready'', ''offer''] \<and>
   list_all (\<lambda>m. gs_robot_id m = ''r'') (pc_send (sg_peers (sv_state demo_service) ! hd_peer (sv_handlers demo_service ! 0)))"
  using signals_stay_with_robot[OF demo_service_def _ refl refl, of 0] demo_service_facts by (simp add: list_all_iff)

text \<open>What the server makes of a message before it relays it.\<close>

definition stamped :: "handler \<Rightarrow> 'v go_signal \<Rightarrow> 'v go_signal" where
  "stamped k msg = msg\<lparr>gs_robot_id := hd_robot k,
     gs_bootstrap_id := (if trim (gs_bootstrap_id msg) = [] then hd_bootstrap_id k else gs_bootstrap_id msg)\<rparr>"

lemma inbound_to_holder:
  assumes "holder (other_role (hd_role k)) (sg_sessions g ! hd_session k) = Some p"
    and "p < length (sg_peers g)" and "length (pc_send (sg_peers g ! p)) < 32"
  shows "signal_inbound k m g = (True, upd_peer p (\<lambda>c. c\<lparr>pc_send := pc_send c @ [stamped k m]\<rparr>) g)"
  using assms
  by (cases "hd_role k")
    (simp_all add: signal_inbound_def session_relay_def enqueue_signal_def chan_offer_def holder_def stamped_def
      upd_peer_def)


lemma demo_service_holder:
  "holder (other_role (hd_role (sv_handlers demo_service ! 1)))
     (sg_sessions (sv_state demo_service) ! hd_session (sv_handlers demo_service ! 1)) = Some 0"
  "0 < length (sg_peers (sv_state demo_service))"
  "length (pc_send (sg_peers (sv_state demo_service) ! 0)) = 2"
  "hd_robot (sv_handlers demo_service ! 1) = ''r''" "hd_bootstrap_id (sv_handlers demo_service ! 1) = ''b''"
  by code_simp+


section \<open>A lost session\<close>

text \<open>The registry entry is removed after the session's lock is released. A client that finds the
  session in between takes its place in a session nobody can find again: the agent that connects
  next gets a new one, and the two never meet although both are connected for the same robot.\<close>

definition orphan_run :: "nat service_event list" where
  "orphan_run = [SvOpen ''r'' Agent ''a'' [] [] 1 [], SvAttach 0, SvDetach 0,
     SvOpen ''r'' Client ''b'' [] [] 2 [], SvAttach 1, SvRemove 0, SvOpen ''r'' Agent ''c'' [] [] 3 [], SvAttach 2,
     SvInbound 2 \<lparr>gs_type = ''offer'', gs_payload = Some 5, gs_robot_id = ''r'', gs_bootstrap_id = []\<rparr>]"

lemma removed_session_orphans_client:
  "let v = run_steps (service_step (\<lambda>_ _. False) 0) service_new orphan_run;
       s1 = sg_sessions (sv_state v) ! hd_session (sv_handlers v ! 1);
       s2 = sg_sessions (sv_state v) ! hd_session (sv_handlers v ! 2)
   in hd_robot (sv_handlers v ! 1) = hd_robot (sv_handlers v ! 2) \<and> sn_client s1 = Some 1 \<and> sn_agent s1 = None \<and>
      sn_agent s2 = Some 2 \<and> sn_client s2 = None \<and> pc_send (sg_peers (sv_state v) ! 1) = []"
  by code_simp

end
