(* ===== verification/Base64.thy ===== *)
theory Base64
  imports Go_Runtime
begin

text \<open>
  \<open>base64.StdEncoding\<close> of Go's standard library, which the platform services and the Go client use:
  encoding with padding, and decoding, which skips line ends, insists on padding and returns what it
  decoded before the first corrupt group.
\<close>

definition base64_alphabet :: string where
  "base64_alphabet = ''ABCDEFGHIJKLMNOPQRSTUVWXYZabcdefghijklmnopqrstuvwxyz0123456789+/''"

definition base64_char :: "nat \<Rightarrow> char" where
  "base64_char n = base64_alphabet ! (n mod 64)"

fun base64_std :: "bytes \<Rightarrow> string" where
  "base64_std [] = []"
| "base64_std [a] =
     (let n = unat a * 16 in [base64_char (n div 64), base64_char n, CHR ''='', CHR ''=''])"
| "base64_std [a, b] =
     (let n = (unat a * 256 + unat b) * 4 in
      [base64_char (n div 4096), base64_char (n div 64), base64_char n, CHR ''=''])"
| "base64_std (a # b # c # bs) =
     (let n = (unat a * 256 + unat b) * 256 + unat c in
      [base64_char (n div 262144), base64_char (n div 4096), base64_char (n div 64), base64_char n] @ base64_std bs)"

fun index_from :: "nat \<Rightarrow> 'a list \<Rightarrow> 'a \<Rightarrow> nat option" where
  "index_from i [] c = None"
| "index_from i (x # xs) c = (if x = c then Some i else index_from (Suc i) xs c)"

definition base64_value :: "char \<Rightarrow> nat option" where
  "base64_value c = index_from 0 base64_alphabet c"

text \<open>One group of four characters; the bytes it stands for, or nothing if it is corrupt. A padded
  group must be the last.\<close>

definition base64_group :: "char \<Rightarrow> char \<Rightarrow> char \<Rightarrow> char \<Rightarrow> bytes option" where
  "base64_group a b c d =
     (case (base64_value a, base64_value b) of
        (Some i, Some j) \<Rightarrow>
          (if c = CHR ''='' \<and> d = CHR ''='' then Some [word_of_nat ((i * 64 + j) div 16)]
           else case base64_value c of
             None \<Rightarrow> None
           | Some k \<Rightarrow>
               if d = CHR ''='' then
                 let n = (i * 64 + j) * 64 + k in Some [word_of_nat (n div 1024), word_of_nat (n div 4)]
               else case base64_value d of
                 None \<Rightarrow> None
               | Some l \<Rightarrow>
                   let n = ((i * 64 + j) * 64 + k) * 64 + l in
                   Some [word_of_nat (n div 65536), word_of_nat (n div 256), word_of_nat n])
      | _ \<Rightarrow> None)"

fun base64_groups :: "string \<Rightarrow> bytes \<times> bool" where
  "base64_groups [] = ([], True)"
| "base64_groups (a # b # c # d # rest) =
     (case base64_group a b c d of
        None \<Rightarrow> ([], False)
      | Some bs \<Rightarrow>
          if d = CHR ''='' then (if rest = [] then (bs, True) else ([], False))
          else case base64_groups rest of (bs', ok) \<Rightarrow> (bs @ bs', ok))"
| "base64_groups _ = ([], False)"

definition base64_decode :: "string \<Rightarrow> bytes \<times> bool" where
  "base64_decode s = base64_groups (filter (\<lambda>c. c \<noteq> CHR 0x0A \<and> c \<noteq> CHR 0x0D) s)"

section \<open>Round trip\<close>

lemma base64_alphabet_facts:
  "list_all (\<lambda>i. base64_value (base64_alphabet ! i) = Some i \<and> base64_alphabet ! i \<notin> {CHR ''='', CHR 0x0A, CHR 0x0D} \<and>
     visible (base64_alphabet ! i)) [0..<64]"
  by code_simp

lemma base64_char_facts [simp]:
  "base64_value (base64_char n) = Some (n mod 64)" "base64_char n \<noteq> CHR ''=''"
  "base64_char n \<noteq> CHR 0x0A" "base64_char n \<noteq> CHR 0x0D" "visible (base64_char n)"
  using base64_alphabet_facts by (auto simp: base64_char_def list_all_iff)

lemma base64_no_line_ends: "filter (\<lambda>c. c \<noteq> CHR 0x0A \<and> c \<noteq> CHR 0x0D) (base64_std bs) = base64_std bs"
  by (induction bs rule: base64_std.induct) (simp_all add: Let_def)

lemma digits_64_two: "n < 4096 \<Longrightarrow> n div 64 mod 64 * 64 + n mod 64 = (n :: nat)"
  by (simp add: less_mult_imp_div_less)

lemma digits_64_three: "n < 262144 \<Longrightarrow> (n div 4096 mod 64 * 64 + n div 64 mod 64) * 64 + n mod 64 = (n :: nat)"
  using digits_64_two[of "n div 64"] by (simp add: less_mult_imp_div_less div_mult2_eq[symmetric])

lemma digits_64_four:
  "n < 16777216 \<Longrightarrow>
     ((n div 262144 mod 64 * 64 + n div 4096 mod 64) * 64 + n div 64 mod 64) * 64 + n mod 64 = (n :: nat)"
  using digits_64_three[of "n div 64"] by (simp add: less_mult_imp_div_less div_mult2_eq[symmetric])

lemma byte_bound: "unat (a :: byte) < 256"
proof -
  have "unat a < 2 ^ LENGTH(8)" by (rule unsigned_less)
  then show ?thesis by simp
qed

lemma last_byte: "word_of_nat (n * 256 + unat b) = (b :: byte)"
proof -
  have "(256 :: byte) = 0" by simp
  then have "word_of_nat (n * 256 + unat b) = (word_of_nat (unat b) :: byte)"
    by (simp only: of_nat_add of_nat_mult of_nat_numeral mult_zero_right add_0)
  then show ?thesis by simp
qed

lemma div_256: "(n * 256 + unat (b :: byte)) div 256 = n"
  using byte_bound[of b] by simp

lemma base64_group_chars:
  "n < 4096 \<Longrightarrow> base64_group (base64_char (n div 64)) (base64_char n) (CHR ''='') (CHR ''='') = Some [word_of_nat (n div 16)]"
  "n < 262144 \<Longrightarrow> base64_group (base64_char (n div 4096)) (base64_char (n div 64)) (base64_char n) (CHR ''='') =
     Some [word_of_nat (n div 1024), word_of_nat (n div 4)]"
  "n < 16777216 \<Longrightarrow>
     base64_group (base64_char (n div 262144)) (base64_char (n div 4096)) (base64_char (n div 64)) (base64_char n) =
     Some [word_of_nat (n div 65536), word_of_nat (n div 256), word_of_nat n]"
  using digits_64_two[of n] digits_64_three[of n] digits_64_four[of n]
  unfolding base64_group_def base64_char_facts(1) by (simp_all only: option.case prod.case Let_def simp_thms if_True if_False base64_char_facts)

lemma base64_groups_std: "base64_groups (base64_std bs) = (bs, True)"
proof (induction bs rule: base64_std.induct)
  case (2 a)
  define n where "n = unat a * 16"
  have "n < 4096" using byte_bound[of a] by (simp add: n_def)
  note g = base64_group_chars(1)[OF this]
  have "word_of_nat (n div 16) = a" by (simp add: n_def)
  then show ?case by (simp only: base64_std.simps Let_def n_def[symmetric] base64_groups.simps g option.case simp_thms if_True)
next
  case (3 a b)
  define n where "n = (unat a * 256 + unat b) * 4"
  have "n < 262144" using byte_bound[of a] byte_bound[of b] by (simp add: n_def)
  note g = base64_group_chars(2)[OF this]
  have lo: "n div 4 = unat a * 256 + unat b" by (simp add: n_def)
  then have "n div 1024 = unat a" using div_256[of "unat a" b] by (simp add: div_mult2_eq[of n 4 256, simplified])
  then have "word_of_nat (n div 1024) = a" "word_of_nat (n div 4) = b" unfolding lo last_byte by simp_all
  then show ?case by (simp only: base64_std.simps Let_def n_def[symmetric] base64_groups.simps g option.case simp_thms if_True)
next
  case (4 a b c bs)
  define n where "n = (unat a * 256 + unat b) * 256 + unat c"
  have "n < 16777216" using byte_bound[of a] byte_bound[of b] byte_bound[of c] by (simp add: n_def)
  note g = base64_group_chars(3)[OF this]
  have hi: "n div 256 = unat a * 256 + unat b" unfolding n_def by (rule div_256)
  then have "n div 65536 = unat a" using div_256[of "unat a" b] by (simp add: div_mult2_eq[of n 256 256, simplified])
  then have "word_of_nat (n div 65536) = a" by simp
  moreover have "word_of_nat (n div 256) = b" unfolding hi by (rule last_byte)
  moreover have "word_of_nat n = c" unfolding n_def by (rule last_byte)
  ultimately show ?case
    using 4 by (simp only: base64_std.simps Let_def n_def[symmetric] append.simps base64_groups.simps g option.case
        base64_char_facts(2) if_False prod.case)
qed simp

text \<open>Decoding inverts encoding.\<close>

lemma base64_roundtrip [simp]: "base64_decode (base64_std bs) = (bs, True)"
  by (simp add: base64_decode_def base64_no_line_ends base64_groups_std)

lemma base64_std_empty [simp]: "base64_std bs = [] \<longleftrightarrow> bs = []"
  by (cases bs rule: base64_std.cases) (simp_all add: Let_def)

end
