(* ===== verification/Turn_Service.thy ===== *)
theory Turn_Service
  imports Base64 Signalling Webrtc_Laws
begin

text \<open>
  The TURN credentials of the platform, \<open>go/webrtc/turn.go\<close>, and what the agent's WebRTC client
  makes of them. The HMAC is a parameter; the reply's JSON object is its fields, which carry the
  names the client's decoder expects.
\<close>

section \<open>The handler\<close>

record go_turn_credentials =
  gt_urls :: "string list"
  gt_username :: string
  gt_credential :: string
  gt_ttl :: nat

datatype turn_reply = TurnRefused refusal | TurnUnavailable | TurnIssued "string list" go_turn_credentials

definition turn_urls :: "string \<Rightarrow> bool \<Rightarrow> string list" where
  "turn_urls host advertise_tls =
     [''turn:'' @ host @ '':3478''] @ (if advertise_tls then [''turns:'' @ host @ '':5349''] else [])"

text \<open>\<open>now\<close> is the Unix time in seconds.\<close>

definition turn_credential_handler ::
  "signal_auth \<Rightarrow> (bytes \<Rightarrow> bytes \<Rightarrow> bytes) \<Rightarrow> nat \<Rightarrow> string \<Rightarrow> string \<Rightarrow> bool \<Rightarrow> string \<Rightarrow> string \<Rightarrow> string \<Rightarrow> turn_reply" where
  "turn_credential_handler au hmac_sha1 now host secret advertise_tls robot0 header query =
     (let robot = trim robot0; key = pick_api_key header query in
      if robot = [] then TurnRefused (Refused 400 ''robot_id required'')
      else if \<not> sa_uuid_ok au robot then TurnRefused (Refused 400 ''robot_id must be a valid UUID'')
      else
        case (if key \<noteq> [] then check_robot_key au robot key
              else sa_authorize_client au robot) of
          Inl e \<Rightarrow> TurnRefused e
        | Inr _ \<Rightarrow>
            if host = [] \<or> secret = [] then TurnUnavailable
            else
              let username = show_nat (now + 3600) @ '':'' @ robot in
              TurnIssued [''stun:stun.l.google.com:19302'']
                \<lparr>gt_urls = turn_urls host advertise_tls, gt_username = username,
                 gt_credential = base64_std (hmac_sha1 (as_bytes secret) (as_bytes username)), gt_ttl = 3600\<rparr>)"

text \<open>The JSON object of a reply, field by field, as the client decodes it; a refusal is not one.\<close>

definition turn_reply_response :: "turn_reply \<Rightarrow> turn_credential_response option" where
  "turn_reply_response r =
     (case r of
        TurnRefused _ \<Rightarrow> None
      | TurnUnavailable \<Rightarrow> Some \<lparr>tr_turn_available = False, tr_stun_urls = [], tr_turn = None\<rparr>
      | TurnIssued stun c \<Rightarrow>
          Some \<lparr>tr_turn_available = True, tr_stun_urls = stun,
                tr_turn = Some \<lparr>tc_urls = gt_urls c, tc_username = gt_username c, tc_credential = gt_credential c,
                  tc_ttl_seconds = word_of_nat (gt_ttl c)\<rparr>\<rparr>)"

section \<open>From the platform to the client's ICE servers\<close>

text \<open>A host name as an operator would configure it.\<close>

definition plain_host :: "string \<Rightarrow> bool" where
  "plain_host host \<longleftrightarrow>
     host \<noteq> [] \<and> host \<noteq> ''turn'' \<and> host \<noteq> ''turns'' \<and> CHR ''?'' \<notin> set host \<and> CHR '':'' \<notin> set host \<and>
     to_ascii_lowercase host = host"

lemma to_ascii_lowercase_append: "to_ascii_lowercase (a @ b) = to_ascii_lowercase a @ to_ascii_lowercase b"
  by (simp add: to_ascii_lowercase_def)

lemma turn_url_parts:
  assumes "plain_host host" and "scheme = ''turn:'' \<or> scheme = ''turns:''" and "port = '':3478'' \<or> port = '':5349''"
  shows "split_turn_url (scheme @ host @ port) = (scheme @ host @ port, None)"
proof -
  have "visible (hd (scheme @ host @ port))" using assms(2) by (auto, code_simp+)
  moreover have "visible (last (scheme @ host @ port))" using assms(3) by (auto, code_simp+)
  ultimately have t: "trim (scheme @ host @ port) = scheme @ host @ port" by (rule trim_visible)
  have "to_ascii_lowercase scheme = scheme" using assms(2) by (auto, code_simp+)
  moreover have "to_ascii_lowercase port = port" using assms(3) by (auto, code_simp+)
  ultimately have "to_ascii_lowercase (scheme @ host @ port) = scheme @ host @ port"
    using assms(1) by (simp add: to_ascii_lowercase_append plain_host_def)
  moreover have "CHR ''?'' \<notin> set (scheme @ host @ port)" using assms by (auto simp: plain_host_def)
  ultimately show ?thesis using t by (simp add: split_turn_url_def split_once_def Let_def)
qed

lemma strip_once:
  assumes "\<not> starts_with s p" and "p \<noteq> []"
  shows "trim_start_matches p (p @ s) = s"
proof -
  have "find (\<lambda>q. q \<noteq> [] \<and> starts_with (p @ s) q) [p] = Some p" using assms(2) by (simp add: starts_with_append)
  then have "strip_pats [p] (p @ s) = strip_pats [p] (drop (length p) (p @ s))" by (rule strip_pats_Some)
  also have "\<dots> = s" using assms(1) by (simp add: strip_pats_none)
  finally show ?thesis by (simp add: trim_start_matches_def)
qed

lemma host_port_no_scheme:
  assumes "plain_host host" and "q = ''turn'' \<or> q = ''turns''"
  shows "\<not> starts_with (host @ CHR '':'' # ds) (q @ [CHR '':''])"
proof
  assume "starts_with (host @ CHR '':'' # ds) (q @ [CHR '':''])"
  then have "host @ CHR '':'' # ds = q @ CHR '':'' # drop (length (q @ [CHR '':''])) (host @ CHR '':'' # ds)"
    unfolding starts_with_def by (metis append.assoc append_Cons append_Nil append_take_drop_id)
  then have "takeWhile (\<lambda>d. d \<noteq> CHR '':'') (host @ CHR '':'' # ds)
      = takeWhile (\<lambda>d. d \<noteq> CHR '':'') (q @ CHR '':'' # drop (length (q @ [CHR '':''])) (host @ CHR '':'' # ds))"
    by (rule arg_cong)
  moreover have "CHR '':'' \<notin> set q" using assms(2) by auto
  moreover have "CHR '':'' \<notin> set host" using assms(1) by (simp add: plain_host_def)
  ultimately have "host = q" by (metis takeWhile_neq_append)
  with assms show False by (auto simp: plain_host_def)
qed

lemma expand_platform_urls:
  assumes "plain_host host"
  shows "expand_turn_urls (''turn:'' @ host @ '':3478'') tcp =
      (if tcp then [turn_udp_url (host @ '':3478''), turn_tcp_url (host @ '':3478'')] else [turn_udp_url (host @ '':3478'')])"
    and "expand_turn_urls (''turns:'' @ host @ '':5349'') tcp = (if tcp then [turn_tcp_url (host @ '':5349'')] else [])"
proof -
  have plain: "trim_start_matches ''turn:'' (''turn:'' @ host @ '':3478'') = host @ '':3478''"
    using host_port_no_scheme[OF assms, of "''turn''" "''3478''"] by (intro strip_once) simp_all
  have "starts_with (''turn:'' @ host @ '':3478'') ''turn:''" by (rule starts_with_append)
  moreover have "\<not> starts_with (''turn:'' @ host @ '':3478'') ''turns:''" by (simp add: starts_with_def)
  ultimately show "expand_turn_urls (''turn:'' @ host @ '':3478'') tcp =
      (if tcp then [turn_udp_url (host @ '':3478''), turn_tcp_url (host @ '':3478'')] else [turn_udp_url (host @ '':3478'')])"
    using turn_url_parts[OF assms, of "''turn:''" "'':3478''"] plain
    by (simp only: expand_turn_urls_def Let_def) simp
  have tls: "trim_start_matches ''turns:'' (''turns:'' @ host @ '':5349'') = host @ '':5349''"
    using host_port_no_scheme[OF assms, of "''turns''" "''5349''"] by (intro strip_once) simp_all
  have "starts_with (''turns:'' @ host @ '':5349'') ''turns:''" by (rule starts_with_append)
  then show "expand_turn_urls (''turns:'' @ host @ '':5349'') tcp = (if tcp then [turn_tcp_url (host @ '':5349'')] else [])"
    using turn_url_parts[OF assms, of "''turns:''" "'':5349''"] tls
    by (simp only: expand_turn_urls_def Let_def) simp
qed

lemma turn_url_inj: "turn_udp_url a \<noteq> turn_tcp_url b" "turn_tcp_url a = turn_tcp_url b \<longleftrightarrow> a = b"
proof -
  have "rev (turn_udp_url a) \<noteq> rev (turn_tcp_url b)" by (simp add: turn_udp_url_def turn_tcp_url_def)
  then show "turn_udp_url a \<noteq> turn_tcp_url b" by auto
qed (simp add: turn_tcp_url_def)

lemma filter_platform_urls:
  assumes "plain_host host" and "tcp = env_flag_enabled_with_default var ''ROBOAT_WEBRTC_TCP_ENABLED'' False"
    and "\<not> env_flag_enabled_with_default var ''ROBOAT_WEBRTC_TURN_TLS_ONLY'' False"
  shows "filter_supported_turn_urls var (turn_urls host tls) =
    turn_udp_url (host @ '':3478'') #
      (if tcp then turn_tcp_url (host @ '':3478'') # (if tls then [turn_tcp_url (host @ '':5349'')] else []) else [])"
proof -
  define u1 where "u1 = ''turn:'' @ host @ '':3478''"
  define u2 where "u2 = ''turns:'' @ host @ '':5349''"
  note e = expand_platform_urls[OF assms(1), of tcp, folded u1_def u2_def]
  have "turn_urls host tls = u1 # (if tls then [u2] else [])" by (simp only: turn_urls_def u1_def u2_def append.simps)
  moreover define a where "a = turn_udp_url (host @ '':3478'')"
  moreover define b where "b = turn_tcp_url (host @ '':3478'')"
  moreover define c where "c = turn_tcp_url (host @ '':5349'')"
  ultimately have all: "map fst (expand_all tcp (turn_urls host tls)) =
      a # (if tcp then b # (if tls then [c] else []) else [])"
    using e by (cases tcp; cases tls) (simp_all add: expand_all_urls)
  have distinct: "a \<noteq> b" "a \<noteq> c" unfolding a_def b_def c_def by (rule turn_url_inj(1))+
  have "b \<noteq> c" unfolding b_def c_def turn_url_inj(2) by simp
  then have "filter_supported_turn_urls var (turn_urls host tls) = a # (if tcp then b # (if tls then [c] else []) else [])"
    using assms(3) distinct unfolding filter_supported_turn_urls_def Let_def assms(2)[symmetric] all by simp
  then show ?thesis by (simp only: a_def b_def c_def)
qed

text \<open>C28: A robot that authenticates with its key and needs a relay gets one it can use: the credentials
  the platform issues give the agent's client exactly one ICE server, with the TURN service over UDP
  (and over TCP where the client enables it), the user name the TURN server checks, which expires an
  hour later, and the password derived from it under the shared secret.\<close>

theorem turn_service_serves_agent:
  assumes "trim robot \<noteq> []" and "sa_uuid_ok au (trim robot)" and "trim key \<noteq> []"
    and "sa_verify_key au (trim robot) (trim key) = Inr True" and "plain_host host" and "secret \<noteq> []"
    and "tcp = env_flag_enabled_with_default var ''ROBOAT_WEBRTC_TCP_ENABLED'' False"
    and "\<not> env_flag_enabled_with_default var ''ROBOAT_WEBRTC_TURN_TLS_ONLY'' False"
    and "username = show_nat (now + 3600) @ '':'' @ trim robot"
    and "turn_reply_response (turn_credential_handler au hmac now host secret tls robot key query) = Some creds"
  shows "snd (build_ice_servers var True (Inr creds)) =
    Inr ([\<lparr>is_urls = turn_udp_url (host @ '':3478'') #
        (if tcp then turn_tcp_url (host @ '':3478'') # (if tls then [turn_tcp_url (host @ '':5349'')] else []) else []),
      is_username = username, is_credential = base64_std (hmac (as_bytes secret) (as_bytes username))\<rparr>], True)"
proof -
  have "host \<noteq> []" using assms(5) by (simp add: plain_host_def)
  with assms(1-4,6,9,10) have creds: "tr_turn_available creds"
      "tr_turn creds = Some \<lparr>tc_urls = turn_urls host tls, tc_username = username,
         tc_credential = base64_std (hmac (as_bytes secret) (as_bytes username)), tc_ttl_seconds = 3600\<rparr>"
    by (auto simp: turn_credential_handler_def pick_api_key_def check_robot_key_def turn_reply_response_def Let_def)
  show ?thesis
    unfolding build_ice_servers_def Let_def using creds filter_platform_urls[OF assms(5,7,8), of tls] by simp
qed

definition demo_signal_auth :: signal_auth where
  "demo_signal_auth = \<lparr>sa_uuid_ok = (\<lambda>_. True), sa_verify_key = (\<lambda>_ k. Inr (k = ''k'')), sa_authorize_client = (\<lambda>_. Inl (Refused 401 []))\<rparr>"

lemma demo_turn:
  "trim ''r'' = ''r''" "trim ''k'' = ''k''" "plain_host ''h''"
  "\<not> env_flag_enabled_with_default (\<lambda>_. None) ''ROBOAT_WEBRTC_TURN_TLS_ONLY'' False"
  "env_flag_enabled_with_default (\<lambda>_. None) ''ROBOAT_WEBRTC_TCP_ENABLED'' False = False"
  "turn_udp_url (''h'' @ '':3478'') = ''turn:h:3478?transport=udp''"
  by code_simp+

lemma demo_username: "show_nat (0 + 3600) @ '':'' @ trim ''r'' = ''3600:r''"
  unfolding demo_turn(1) by (simp add: show_nat.simps) code_simp

lemma demo_credential: "base64_std [77, 97] = ''TWE=''"
  by (simp add: base64_char_def base64_alphabet_def)

theorem turn_service_serves_agent_witness:
  "\<exists>creds. turn_reply_response (turn_credential_handler demo_signal_auth (\<lambda>_ _. [77, 97]) 0 ''h'' ''s'' True ''r'' ''k'' []) = Some creds \<and>
     snd (build_ice_servers (\<lambda>_. None) True (Inr creds)) =
     Inr ([\<lparr>is_urls = [''turn:h:3478?transport=udp''], is_username = ''3600:r'', is_credential = ''TWE=''\<rparr>], True)"
proof -
  obtain creds where c: "turn_reply_response (turn_credential_handler demo_signal_auth (\<lambda>_ _. [77, 97]) 0 ''h'' ''s'' True ''r'' ''k'' [])
      = Some creds"
    by (simp add: turn_credential_handler_def pick_api_key_def check_robot_key_def turn_reply_response_def
        demo_signal_auth_def demo_turn(1,2) Let_def)
  have "snd (build_ice_servers (\<lambda>_. None) True (Inr creds)) =
      Inr ([\<lparr>is_urls = [turn_udp_url (''h'' @ '':3478'')], is_username = ''3600:r'',
        is_credential = base64_std [77, 97]\<rparr>], True)"
    using turn_service_serves_agent[OF _ _ _ _ demo_turn(3) _ demo_turn(5)[symmetric] demo_turn(4) demo_username[symmetric] c]
    by (simp add: demo_turn(1,2) demo_signal_auth_def)
  then have "snd (build_ice_servers (\<lambda>_. None) True (Inr creds)) =
      Inr ([\<lparr>is_urls = [''turn:h:3478?transport=udp''], is_username = ''3600:r'', is_credential = ''TWE=''\<rparr>], True)"
    by (simp only: demo_turn(6) demo_credential)
  with c show ?thesis by (intro exI conjI)
qed

text \<open>A client that insists on TLS is handed the TLS port over plain TCP.\<close>

lemma tls_only_client_gets_plain_tcp:
  assumes "plain_host host" and "env_flag_enabled_with_default var ''ROBOAT_WEBRTC_TCP_ENABLED'' False"
    and "env_flag_enabled_with_default var ''ROBOAT_WEBRTC_TURN_TLS_ONLY'' False"
  shows "filter_supported_turn_urls var [''turns:'' @ host @ '':5349''] = [turn_tcp_url (host @ '':5349'')]"
proof -
  define u where "u = ''turns:'' @ host @ '':5349''"
  have e: "expand_turn_urls u True = [turn_tcp_url (host @ '':5349'')]"
    using expand_platform_urls(2)[OF assms(1), of True] by (simp add: u_def)
  define t where "t = turn_tcp_url (host @ '':5349'')"
  have all: "map fst (expand_all True [u]) = [t]" by (simp add: expand_all_urls e t_def)
  have "map fst (filter snd (expand_all True [u])) = (if starts_with (to_ascii_lowercase (trim u)) ''turns:'' then [t] else [])"
    unfolding expand_all_tls by (simp add: e t_def)
  then consider "map fst (filter snd (expand_all True [u])) = []" | "map fst (filter snd (expand_all True [u])) = [t]"
    by (metis (full_types))
  then have "filter_supported_turn_urls var [u] = [t]"
    by cases (simp_all add: filter_supported_turn_urls_def Let_def assms(2,3) all)
  then show ?thesis by (simp only: u_def t_def)
qed

text \<open>A TURN host that is itself called \<open>turn\<close> is lost: the client strips the scheme twice.\<close>

lemma turn_host_named_turn: "expand_turn_urls (hd (turn_urls ''turn'' False)) False = [''turn:3478?transport=udp'']"
  by code_simp

end
