(* ===== verification/Evidence.thy ===== *)
theory Evidence
  imports Complex_Main Connstate
begin

text \<open>
  Connection evidence, \<open>go/connstate/evidence.go\<close>: self-reported profiles, platform observations and
  the bootstrap sessions that bind them, with their retention. The package-level maps are passed
  explicitly. Writing and reading timestamps (\<open>time.RFC3339\<close>) is a parameter. Copies of values
  (\<open>cloneProfile\<close>, \<open>cloneSession\<close>) are the values themselves. The confidence of a profile is a number;
  \<open>None\<close> is a NaN. The reasons against routes are listed in the order in which the map is iterated.
\<close>

section \<open>Data\<close>

record last_known_good_route =
  lk_route_type :: string
  lk_public_ip :: string
  lk_private_addrs :: "string list"
  lk_observed_at :: string

record endpoint_profile =
  ep_private_addrs :: "string list"
  ep_default_iface :: string
  ep_default_gateway :: string
  ep_public_ip_hint :: string
  ep_transport_caps :: "string list"
  ep_network_tags :: "string list"
  ep_last_known_good :: "last_known_good_route option"
  ep_source :: string
  ep_observed_at :: string
  ep_ttl_seconds :: int
  ep_confidence :: "rat option"

record platform_observation =
  po_observed_src_ip :: string
  po_observed_via :: string
  po_proxy_trusted :: bool
  po_connected_at :: string
  po_last_heartbeat_at :: string
  po_cp_rtt_ms :: int
  po_ws_upgrade_ok :: bool
  po_turn_cred_fetch_ok :: bool
  po_bootstrap_id :: string
  po_phase :: string
  po_phase_elapsed_ms :: int

record bootstrap_session =
  bs_session_id :: string
  bs_bootstrap_id :: string
  bs_robot_id :: string
  bs_user_id :: string
  bs_cli_id :: string
  bs_started_at :: string
  bs_updated_at :: string
  bs_agent_profile :: "endpoint_profile option"
  bs_cli_profile :: "endpoint_profile option"
  bs_observation :: "platform_observation option"
  bs_phase :: string
  bs_phase_elapsed_ms :: int
  bs_selected_route :: string
  bs_why_chosen :: "string list"
  bs_why_not :: "(string \<times> string list) list"

record evidence =
  ev_agents :: "string \<rightharpoonup> endpoint_profile"
  ev_clis :: "string \<rightharpoonup> endpoint_profile"
  ev_sessions :: "string \<rightharpoonup> bootstrap_session"

definition evidence_new :: evidence where
  "evidence_new = \<lparr>ev_agents = Map.empty, ev_clis = Map.empty, ev_sessions = Map.empty\<rparr>"

record rfc3339 =
  rf_format :: "gotime \<Rightarrow> string"
  rf_parse :: "string \<Rightarrow> gotime option"

definition session_retention :: duration where "session_retention = 30 * minute"

section \<open>Normalisation\<close>

definition first_non_empty :: "string list \<Rightarrow> string" where
  "first_non_empty vs = (case filter (\<lambda>v. v \<noteq> []) (map trim vs) of [] \<Rightarrow> [] | v # _ \<Rightarrow> v)"

fun keep_first :: "string list \<Rightarrow> string list \<Rightarrow> string list" where
  "keep_first out [] = out"
| "keep_first out (v # vs) = keep_first (if trim v = [] \<or> trim v \<in> set out then out else out @ [trim v]) vs"

definition clean_strings :: "string list \<Rightarrow> string list" where
  "clean_strings vs = sort (keep_first [] vs)"

definition parse_rfc3339_safe :: "rfc3339 \<Rightarrow> string \<Rightarrow> gotime" where
  "parse_rfc3339_safe rf raw = (if trim raw = [] then 0 else case rf_parse rf (trim raw) of None \<Rightarrow> 0 | Some t \<Rightarrow> t)"

definition clamp_confidence :: "rat option \<Rightarrow> rat option" where
  "clamp_confidence c = map_option (\<lambda>x. if x < 0 then 0 else if 1 < x then 1 else x) c"

definition normalize_profile :: "rfc3339 \<Rightarrow> gotime \<Rightarrow> gotime \<Rightarrow> endpoint_profile \<Rightarrow> endpoint_profile" where
  "normalize_profile rf clk t p =
     p\<lparr>ep_private_addrs := clean_strings (ep_private_addrs p),
       ep_transport_caps := clean_strings (ep_transport_caps p),
       ep_network_tags := clean_strings (ep_network_tags p),
       ep_default_iface := trim (ep_default_iface p),
       ep_default_gateway := trim (ep_default_gateway p),
       ep_public_ip_hint := trim (ep_public_ip_hint p),
       ep_source := trim (ep_source p),
       ep_observed_at := first_non_empty [trim (ep_observed_at p), rf_format rf (normalize_at clk t)],
       ep_confidence := clamp_confidence (ep_confidence p),
       ep_ttl_seconds := (if ep_ttl_seconds p < 0 then 0 else ep_ttl_seconds p),
       ep_last_known_good := map_option (\<lambda>l. l\<lparr>lk_route_type := trim (lk_route_type l),
         lk_public_ip := trim (lk_public_ip l), lk_private_addrs := clean_strings (lk_private_addrs l),
         lk_observed_at := trim (lk_observed_at l)\<rparr>) (ep_last_known_good p)\<rparr>"

definition normalize_observation :: "rfc3339 \<Rightarrow> gotime \<Rightarrow> gotime \<Rightarrow> platform_observation \<Rightarrow> platform_observation" where
  "normalize_observation rf clk t ob =
     ob\<lparr>po_observed_src_ip := trim (po_observed_src_ip ob),
       po_observed_via := trim (po_observed_via ob),
       po_connected_at := first_non_empty [trim (po_connected_at ob), rf_format rf (normalize_at clk t)],
       po_last_heartbeat_at := trim (po_last_heartbeat_at ob),
       po_bootstrap_id := trim (po_bootstrap_id ob),
       po_phase := trim (po_phase ob),
       po_cp_rtt_ms := (if po_cp_rtt_ms ob < 0 then 0 else po_cp_rtt_ms ob),
       po_phase_elapsed_ms := (if po_phase_elapsed_ms ob < 0 then 0 else po_phase_elapsed_ms ob)\<rparr>"

fun put_entry :: "'k \<Rightarrow> 'v \<Rightarrow> ('k \<times> 'v) list \<Rightarrow> ('k \<times> 'v) list" where
  "put_entry k v [] = [(k, v)]"
| "put_entry k v ((k', v') # m) = (if k' = k then (k, v) # m else (k', v') # put_entry k v m)"

fun normalize_why_not :: "(string \<times> string list) list \<Rightarrow> (string \<times> string list) list \<Rightarrow> (string \<times> string list) list" where
  "normalize_why_not out [] = out"
| "normalize_why_not out ((route, reasons) # rest) =
     normalize_why_not
       (if trim route = [] \<or> clean_strings reasons = [] then out else put_entry (trim route) (clean_strings reasons) out)
       rest"

section \<open>Operations\<close>

definition upsert_agent_profile ::
  "rfc3339 \<Rightarrow> gotime \<Rightarrow> string \<Rightarrow> endpoint_profile \<Rightarrow> gotime \<Rightarrow> evidence \<Rightarrow> evidence" where
  "upsert_agent_profile rf clk robot p t ev =
     (if trim robot = [] then ev
      else ev\<lparr>ev_agents := (ev_agents ev)(trim robot \<mapsto> normalize_profile rf clk t p)\<rparr>)"

definition agent_profile :: "string \<Rightarrow> evidence \<Rightarrow> endpoint_profile option" where
  "agent_profile robot ev = (if trim robot = [] then None else ev_agents ev (trim robot))"

definition upsert_cli_profile ::
  "rfc3339 \<Rightarrow> gotime \<Rightarrow> string \<Rightarrow> endpoint_profile \<Rightarrow> gotime \<Rightarrow> evidence \<Rightarrow> evidence" where
  "upsert_cli_profile rf clk cli p t ev =
     (if trim cli = [] then ev else ev\<lparr>ev_clis := (ev_clis ev)(trim cli \<mapsto> normalize_profile rf clk t p)\<rparr>)"

definition cli_profile :: "string \<Rightarrow> evidence \<Rightarrow> endpoint_profile option" where
  "cli_profile cli ev = (if trim cli = [] then None else ev_clis ev (trim cli))"

definition session_ref_time :: "rfc3339 \<Rightarrow> bootstrap_session \<Rightarrow> gotime" where
  "session_ref_time rf s =
     (let u = parse_rfc3339_safe rf (bs_updated_at s) in
      if is_zero u then parse_rfc3339_safe rf (bs_started_at s) else u)"

definition prune_expired_sessions ::
  "rfc3339 \<Rightarrow> gotime \<Rightarrow> (string \<rightharpoonup> bootstrap_session) \<Rightarrow> (string \<rightharpoonup> bootstrap_session)" where
  "prune_expired_sessions rf now m =
     (\<lambda>key. case m key of
        None \<Rightarrow> None
      | Some s \<Rightarrow>
          let ref = session_ref_time rf s in
          if \<not> is_zero ref \<and> ref < now - session_retention then None else Some s)"

definition normalize_session ::
  "rfc3339 \<Rightarrow> gotime \<Rightarrow> bootstrap_session option \<Rightarrow> bootstrap_session \<Rightarrow> bootstrap_session" where
  "normalize_session rf now prev s =
     (let started = (case prev of
                       None \<Rightarrow> bs_started_at s
                     | Some p \<Rightarrow> first_non_empty [bs_started_at s, bs_started_at p])
      in s\<lparr>bs_started_at := (if trim started = [] then rf_format rf now else started),
           bs_updated_at := rf_format rf now,
           bs_session_id := trim (bs_session_id s),
           bs_bootstrap_id := trim (bs_bootstrap_id s),
           bs_robot_id := trim (bs_robot_id s),
           bs_user_id := trim (bs_user_id s),
           bs_cli_id := trim (bs_cli_id s),
           bs_phase := trim (bs_phase s),
           bs_selected_route := trim (bs_selected_route s),
           bs_why_chosen := clean_strings (bs_why_chosen s),
           bs_why_not := normalize_why_not [] (bs_why_not s),
           bs_agent_profile := map_option (normalize_profile rf now now) (bs_agent_profile s),
           bs_cli_profile := map_option (normalize_profile rf now now) (bs_cli_profile s),
           bs_observation := map_option (normalize_observation rf now now) (bs_observation s)\<rparr>)"

text \<open>The saved session, or nothing where the code returns an empty one.\<close>

definition upsert_session ::
  "rfc3339 \<Rightarrow> gotime \<Rightarrow> bootstrap_session \<Rightarrow> gotime \<Rightarrow> evidence \<Rightarrow> bootstrap_session option \<times> evidence" where
  "upsert_session rf clk s t ev =
     (let sid = trim (bs_session_id s); now = normalize_at clk t in
      if sid = [] then (None, ev)
      else
        let m = prune_expired_sessions rf now (ev_sessions ev); s' = normalize_session rf now (m sid) s in
        (Some s', ev\<lparr>ev_sessions := m(sid \<mapsto> s')\<rparr>))"

definition session_snapshot :: "string \<Rightarrow> evidence \<Rightarrow> bootstrap_session option" where
  "session_snapshot sid ev = (if trim sid = [] then None else ev_sessions ev (trim sid))"

section \<open>Clean lists\<close>

lemma keep_first_props:
  "distinct out \<Longrightarrow> distinct (keep_first out vs)"
  "set (keep_first out vs) = set out \<union> {v \<in> trim ` set vs. v \<noteq> []}"
  by (induction out vs rule: keep_first.induct) auto

text \<open>A cleaned list holds the trimmed, non-empty strings, each once, in ascending order; cleaning
  it again changes nothing.\<close>

lemma clean_strings_spec:
  "set (clean_strings vs) = {v \<in> trim ` set vs. v \<noteq> []} \<and> distinct (clean_strings vs) \<and> sorted (clean_strings vs)"
  using keep_first_props[of "[]" vs] by (simp add: clean_strings_def)

lemma clean_strings_idem: "clean_strings (clean_strings vs) = clean_strings vs"
proof (rule sorted_distinct_set_unique)
  have "trim ` set (clean_strings vs) = set (clean_strings vs)"
    using clean_strings_spec[of vs] trim_idem by (force simp: image_iff)
  then show "set (clean_strings (clean_strings vs)) = set (clean_strings vs)"
    using clean_strings_spec[of vs] clean_strings_spec[of "clean_strings vs"] by auto
qed (use clean_strings_spec in auto)

section \<open>Retention\<close>

lemma upsert_other:
  assumes "trim (bs_session_id s) \<noteq> sid" and "0 < t"
  shows "ev_sessions (snd (upsert_session rf clk s t ev)) sid =
    (if trim (bs_session_id s) = [] then ev_sessions ev sid else prune_expired_sessions rf t (ev_sessions ev) sid)"
  using assms by (simp add: upsert_session_def normalize_at_def is_zero_def Let_def)

lemma retention_run:
  assumes "ev_sessions ev sid = Some x" and "session_ref_time rf x = r" and "r \<noteq> 0"
    and "\<forall>e \<in> set es. trim (bs_session_id (fst e)) \<noteq> sid \<and> 0 < snd e"
  shows "ev_sessions (run_steps (\<lambda>ev e. snd (upsert_session rf clk (fst e) (snd e) ev)) ev es) sid =
    (if \<exists>e \<in> set es. trim (bs_session_id (fst e)) \<noteq> [] \<and> r < snd e - session_retention then None else Some x)"
proof -
  have gone: "ev_sessions ev sid = None \<Longrightarrow> \<forall>e \<in> set es. trim (bs_session_id (fst e)) \<noteq> sid \<and> 0 < snd e \<Longrightarrow>
      ev_sessions (run_steps (\<lambda>ev e. snd (upsert_session rf clk (fst e) (snd e) ev)) ev es) sid = None" for ev es
    by (induction es arbitrary: ev) (auto simp: upsert_other prune_expired_sessions_def)
  show ?thesis
    using assms
  proof (induction es arbitrary: ev)
    case (Cons e es)
    let ?ev = "snd (upsert_session rf clk (fst e) (snd e) ev)"
    have step: "ev_sessions ?ev sid =
        (if trim (bs_session_id (fst e)) \<noteq> [] \<and> r < snd e - session_retention then None else Some x)"
      using Cons.prems by (simp add: upsert_other prune_expired_sessions_def is_zero_def Let_def)
    show ?case
    proof (cases "trim (bs_session_id (fst e)) \<noteq> [] \<and> r < snd e - session_retention")
      case True
      with step gone[of ?ev es] Cons.prems(4) show ?thesis by simp
    next
      case False
      with step Cons.IH[of ?ev] Cons.prems show ?thesis by simp
    qed
  qed simp
qed

text \<open>A session stays available, as it was saved, until one is saved more than thirty minutes later;
  timestamps are kept to the second.\<close>

lemma session_retained:
  assumes "\<And>t. 0 < t \<Longrightarrow> parse_rfc3339_safe rf (rf_format rf t) = t div second * second"
    and "second \<le> t" and "trim (bs_session_id s) = sid" and "sid \<noteq> []"
    and "\<forall>e \<in> set es. trim (bs_session_id (fst e)) \<noteq> sid \<and> 0 < snd e"
    and "upsert_session rf clk s t ev = (saved, ev1)"
  shows "session_snapshot sid (run_steps (\<lambda>ev e. snd (upsert_session rf clk (fst e) (snd e) ev)) ev1 es) =
    (if \<exists>e \<in> set es. trim (bs_session_id (fst e)) \<noteq> [] \<and> t div second * second < snd e - session_retention
     then None else saved)"
proof -
  have t: "0 < t" "t div second * second \<noteq> 0"
    using assms(2) by (auto simp: second_def millisecond_def div_eq_0_iff zdiv_eq_0_iff)
  from assms(3,4,6) t(1) obtain x where x: "saved = Some x" "ev_sessions ev1 sid = Some x" "bs_updated_at x = rf_format rf t"
    by (auto simp: upsert_session_def normalize_session_def normalize_at_def is_zero_def Let_def)
  have "session_ref_time rf x = t div second * second"
    using assms(1)[OF t(1)] t(2) x(3) by (simp add: session_ref_time_def is_zero_def Let_def)
  from retention_run[OF x(2) this t(2) assms(5)] show ?thesis
    using assms(4) x(1) trim_idem[of "bs_session_id s"] unfolding assms(3)[symmetric] session_snapshot_def by simp
qed

end
