(* ===== verification/Relay_Endpoint.thy ===== *)
theory Relay_Endpoint
  imports Base64 Evidence Platform_Auth Relay_Laws
begin

text \<open>
  The WebSocket endpoints of the relay, the rest of \<open>go/relay/relay.go\<close>: the control and relay
  channels of agents with their readers and writers, and the relay streams of users. Every endpoint
  is a goroutine or two; what one does between two points where it waits is a step, and the steps of
  all of them interleave. A connection's reader has the messages that arrive as its input; what is
  written to a user's connection is recorded. Log lines and the counters only they show are left out.
\<close>

section \<open>The service\<close>

record relay_env =
  re_sha :: "bytes \<Rightarrow> bytes"
  re_pg :: "string \<Rightarrow> string + string"
  re_http :: ops_http
  re_user_id :: "bytes \<Rightarrow> string + string"
  re_uuid_ok :: "string \<Rightarrow> bool"
  re_ulow :: "string \<Rightarrow> string"
  re_ufold :: "string \<Rightarrow> string \<Rightarrow> bool"
  re_getenv :: "string \<Rightarrow> string"
  re_rfc :: rfc3339

datatype ws_out = WsBinary bytes | WsClose nat string

datatype 'j relay_phase = RpOpening "'j agent_control_message list" | RpOpen | RpClosed

text \<open>A user's relay stream: \<open>ur_reader\<close> says that its reader is running, \<open>ur_done\<close> that \<open>closeRelay\<close>
  has run.\<close>

record 'j user_relay =
  ur_user :: string
  ur_robot_id :: string
  ur_relay_id :: string
  ur_session_key :: string
  ur_port :: int
  ur_phase :: "'j relay_phase"
  ur_close_reason :: "string option"
  ur_reader :: bool
  ur_done :: bool
  ur_streak :: nat
  ur_out :: "ws_out list"

text \<open>\<open>rp_leaving\<close> are the control connections that are unregistered and whose disconnect is still to
  be reported; \<open>rp_control_closes\<close> and \<open>rp_relay_closes\<close> are when each reader last told its agent to
  close a stream.\<close>

record 'j relay_service =
  rp_hub :: "'j hub"
  rp_states :: conn_states
  rp_auth :: tunnel_auth
  rp_evidence :: evidence
  rp_leaving :: "nat list"
  rp_control_closes :: "nat \<Rightarrow> string \<rightharpoonup> gotime"
  rp_relay_closes :: "nat \<Rightarrow> string \<rightharpoonup> gotime"
  rp_users :: "'j user_relay list"

definition relay_service_new :: "tunnel_auth \<Rightarrow> 'j relay_service" where
  "relay_service_new a =
     \<lparr>rp_hub = new_agent_control_hub, rp_states = Map.empty, rp_auth = a, rp_evidence = evidence_new,
      rp_leaving = [], rp_control_closes = (\<lambda>_. Map.empty), rp_relay_closes = (\<lambda>_. Map.empty), rp_users = []\<rparr>"

section \<open>Agents\<close>

record agent_request =
  aq_robot_id :: string
  aq_session_id :: string
  aq_header_key :: string
  aq_query_key :: string
  aq_client_ip :: string
  aq_upgraded :: bool

datatype connect_outcome = NotAdmitted refusal | UpgradeFailed | Competing | Attached nat

definition agent_admit ::
  "(string \<Rightarrow> bool) \<Rightarrow> (string \<Rightarrow> string \<Rightarrow> string + auth_record option) \<Rightarrow> agent_request \<Rightarrow> refusal + string \<times> auth_record" where
  "agent_admit uuid_ok resolve q =
     (let robot = trim (aq_robot_id q); key = pick_api_key (aq_header_key q) (aq_query_key q) in
      if robot = [] \<or> key = [] then Inl (Refused 400 ''robot_id and api_key are required'')
      else if \<not> uuid_ok robot then Inl (Refused 400 ''robot_id must be a valid UUID'')
      else case resolve robot key of
        Inl _ \<Rightarrow> Inl (Refused 500 ''database query failed'')
      | Inr None \<Rightarrow> Inl (Refused 401 ''invalid robot credentials'')
      | Inr (Some r) \<Rightarrow> Inr (robot, r))"

definition env_resolve :: "relay_env \<Rightarrow> tunnel_auth \<Rightarrow> string \<Rightarrow> string \<Rightarrow> string + auth_record option" where
  "env_resolve env a = resolve_control (re_sha env) (re_pg env) (re_http env) a"

definition new_agent_conn :: "gotime \<Rightarrow> string \<Rightarrow> string \<Rightarrow> nat \<Rightarrow> agent_request \<Rightarrow> 'j agent_conn" where
  "new_agent_conn now fresh robot n q =
     \<lparr>ac_robot_id = robot, ac_session_id = (if trim (aq_session_id q) = [] then fresh else trim (aq_session_id q)),
      ac_observed_src_ip = trim (aq_client_ip q), ac_connected_at = now, ac_send = [], ac_cap = n,
      ac_done = False, ac_reason = []\<rparr>"

definition current_concurrency_policy :: "relay_env \<Rightarrow> string" where
  "current_concurrency_policy env =
     normalize_concurrency_policy (re_ulow env) (trim (re_getenv env ''ROBOTUNNEL_CONTROL_CONCURRENCY_POLICY''))"

definition incumbent_ip :: "'j hub \<Rightarrow> nat option \<Rightarrow> string" where
  "incumbent_ip h prev =
     (case prev of
        None \<Rightarrow> ''<unknown>''
      | Some k \<Rightarrow>
          let ip = trim (ac_observed_src_ip (hb_control_store h ! k)) in if ip = [] then ''<unknown>'' else ip)"

definition handle_agent_control_connect ::
  "relay_env \<Rightarrow> gotime \<Rightarrow> string \<Rightarrow> agent_request \<Rightarrow> 'j relay_service \<Rightarrow> connect_outcome \<times> 'j relay_service" where
  "handle_agent_control_connect env now fresh q s =
     (case agent_admit (re_uuid_ok env) (env_resolve env (rp_auth s)) q of
        Inl e \<Rightarrow> (NotAdmitted e, s)
      | Inr (robot, r) \<Rightarrow>
          if \<not> aq_upgraded q then (UpgradeFailed, s)
          else
            let p = length (hb_control_store (rp_hub s));
                c = new_agent_conn now fresh robot 256 q;
                policy = current_concurrency_policy env;
                ((accepted, prev), h) = connect_control (re_ulow env) c policy (rp_hub s)
            in
            if \<not> accepted then
              (Competing,
               s\<lparr>rp_hub := upd_control p agent_conn_close h,
                 rp_states := record_control_contention now robot (ac_observed_src_ip c) (incumbent_ip h prev) policy
                   ''competing_control_connection'' now (rp_states s)\<rparr>)
            else
              (Attached p,
               s\<lparr>rp_hub := (case prev of None \<Rightarrow> h | Some k \<Rightarrow> upd_control k agent_conn_close h),
                 rp_auth := snd (resolver_touch_last_seen (re_pg env) now (ar_id r) (rp_auth s)),
                 rp_states := upsert_control_connected now (ar_id r) (ac_observed_src_ip c)
                   (case ar_local_ip r of None \<Rightarrow> [] | Some l \<Rightarrow> trim l) ''unknown'' now (rp_states s)\<rparr>))"

definition handle_agent_relay_connect ::
  "relay_env \<Rightarrow> gotime \<Rightarrow> string \<Rightarrow> agent_request \<Rightarrow> 'j relay_service \<Rightarrow> connect_outcome \<times> 'j relay_service" where
  "handle_agent_relay_connect env now fresh q s =
     (case agent_admit (re_uuid_ok env) (env_resolve env (rp_auth s)) q of
        Inl e \<Rightarrow> (NotAdmitted e, s)
      | Inr (robot, r) \<Rightarrow>
          if \<not> aq_upgraded q then (UpgradeFailed, s)
          else
            let p = length (hb_relay_store (rp_hub s));
                (prev, h) = connect_relay (new_agent_conn now fresh robot 2048 q) (rp_hub s)
            in (Attached p, s\<lparr>rp_hub := (case prev of None \<Rightarrow> h | Some k \<Rightarrow> upd_relay k agent_conn_close h)\<rparr>))"

text \<open>What a reader gets: a text message, decoded if it is one, or another kind of message.\<close>

datatype 'j ws_in = WsText "'j agent_control_message option" | WsOther

definition send_relay_close ::
  "gotime \<Rightarrow> string \<Rightarrow> string \<Rightarrow> string \<Rightarrow> (string \<rightharpoonup> gotime) \<times> 'j hub \<Rightarrow> (string \<rightharpoonup> gotime) \<times> 'j hub" where
  "send_relay_close now robot relay0 reason x =
     (case x of (sent, h) \<Rightarrow>
        let relay = trim relay0 in
        if relay = [] \<or> (case sent relay of None \<Rightarrow> False | Some before \<Rightarrow> time_sub now before < 2 * second) then (sent, h)
        else
          (sent(relay \<mapsto> now),
           snd (hub_send_relay robot (acm_zero\<lparr>acm_type := ''relay_close'', acm_relay_id := relay,
             acm_session_key := trim (active_session robot h), acm_error := trim reason\<rparr>) h)))"

definition relay_types :: "string list" where
  "relay_types = [''relay_open_ack'', ''relay_data'', ''relay_close'']"

definition reader_relay_message ::
  "gotime \<Rightarrow> string \<Rightarrow> 'j agent_control_message \<Rightarrow> (string \<rightharpoonup> gotime) \<times> 'j hub \<Rightarrow> (string \<rightharpoonup> gotime) \<times> 'j hub" where
  "reader_relay_message now robot msg x =
     (case x of (sent, h) \<Rightarrow>
        (case deliver_relay now msg h of
           (RelayDelivered, h1) \<Rightarrow> (sent, h1)
         | (RelayChannelFull, h1) \<Rightarrow> (sent, h1)
         | (RelayNoRegistration, h1) \<Rightarrow>
             send_relay_close now robot (acm_relay_id msg) ''relay_not_registered'' (sent, h1)))"

definition control_inbound ::
  "gotime \<Rightarrow> nat \<Rightarrow> 'j ws_in \<Rightarrow> 'j relay_service \<Rightarrow> 'j relay_service" where
  "control_inbound now p m s =
     (let robot = ac_robot_id (hb_control_store (rp_hub s) ! p);
          s1 = s\<lparr>rp_states := touch_control_activity now robot now (rp_states s)\<rparr>
      in case m of
           WsText (Some msg) \<Rightarrow>
             (let t = trim (acm_type msg) in
              if t = ''command_response'' \<or> t = ''status_response'' then
                s1\<lparr>rp_hub := snd (deliver_response (acm_request_id msg) (acm_response msg) (rp_hub s1))\<rparr>
              else if t \<in> set relay_types then
                (case reader_relay_message now robot msg (rp_control_closes s1 p, rp_hub s1) of
                   (sent, h) \<Rightarrow> s1\<lparr>rp_hub := h, rp_control_closes := (rp_control_closes s1)(p := sent)\<rparr>)
              else s1)
         | _ \<Rightarrow> s1)"

text \<open>A ping or a pong of the agent, and the writer after it has written.\<close>

definition control_touch :: "gotime \<Rightarrow> nat \<Rightarrow> 'j relay_service \<Rightarrow> 'j relay_service" where
  "control_touch now p s =
     s\<lparr>rp_states := touch_control_activity now (ac_robot_id (hb_control_store (rp_hub s) ! p)) now (rp_states s)\<rparr>"

definition control_written :: "string option \<Rightarrow> nat \<Rightarrow> 'j relay_service \<Rightarrow> 'j relay_service" where
  "control_written err p s =
     s\<lparr>rp_hub := upd_control p (\<lambda>c. let c1 = c\<lparr>ac_send := drop 1 (ac_send c)\<rparr> in
       case err of
         None \<Rightarrow> c1
       | Some e \<Rightarrow> agent_conn_close (set_disconnect_reason (''control write failed: '' @ trim e) c1)) (rp_hub s)\<rparr>"

definition control_pinged :: "string option \<Rightarrow> nat \<Rightarrow> 'j relay_service \<Rightarrow> 'j relay_service" where
  "control_pinged err p s =
     (case err of
        None \<Rightarrow> s
      | Some e \<Rightarrow>
          s\<lparr>rp_hub := upd_control p (\<lambda>c. agent_conn_close (set_disconnect_reason (''control ping failed: '' @ trim e) c))
              (rp_hub s)\<rparr>)"

text \<open>How a reader ends: the peer's close frame or another error.\<close>

datatype ws_read_error = WsCloseError nat string | WsReadError string

definition describe_agent_ws_disconnect :: "ws_read_error \<Rightarrow> string" where
  "describe_agent_ws_disconnect e =
     (case e of
        WsCloseError code t \<Rightarrow>
          ''websocket close code='' @ show_nat code @ (if trim t = [] then [] else '' text='' @ trim t)
      | WsReadError t \<Rightarrow> trim t)"

text \<open>The reader's end: the connection is closed and unregistered; then the disconnect is reported if
  the connection was the registered one.\<close>

definition control_end :: "ws_read_error \<Rightarrow> nat \<Rightarrow> 'j relay_service \<Rightarrow> 'j relay_service" where
  "control_end err p s =
     (let h = upd_control p (\<lambda>c. agent_conn_close (set_disconnect_reason (describe_agent_ws_disconnect err) c)) (rp_hub s);
          (removed, h1) = hub_unregister p h
      in s\<lparr>rp_hub := h1, rp_leaving := (if removed then rp_leaving s @ [p] else rp_leaving s)\<rparr>)"

definition control_report_down :: "gotime \<Rightarrow> nat \<Rightarrow> 'j relay_service \<Rightarrow> 'j relay_service" where
  "control_report_down now p s =
     (if p \<in> set (rp_leaving s) then
        s\<lparr>rp_states := set_control_disconnected now (ac_robot_id (hb_control_store (rp_hub s) ! p)) now (rp_states s),
          rp_leaving := remove1 p (rp_leaving s)\<rparr>
      else s)"

definition relay_inbound :: "gotime \<Rightarrow> nat \<Rightarrow> 'j ws_in \<Rightarrow> 'j relay_service \<Rightarrow> 'j relay_service" where
  "relay_inbound now p m s =
     (case m of
        WsText (Some msg) \<Rightarrow>
          (if trim (acm_type msg) \<in> set relay_types then
             (case reader_relay_message now (ac_robot_id (hb_relay_store (rp_hub s) ! p)) msg
                     (rp_relay_closes s p, rp_hub s) of
                (sent, h) \<Rightarrow> s\<lparr>rp_hub := h, rp_relay_closes := (rp_relay_closes s)(p := sent)\<rparr>)
           else s)
      | _ \<Rightarrow> s)"

definition relay_written :: "string option \<Rightarrow> nat \<Rightarrow> 'j relay_service \<Rightarrow> 'j relay_service" where
  "relay_written err p s =
     s\<lparr>rp_hub := upd_relay p (\<lambda>c. let c1 = c\<lparr>ac_send := drop 1 (ac_send c)\<rparr> in
       case err of
         None \<Rightarrow> c1
       | Some e \<Rightarrow> agent_conn_close (set_disconnect_reason (''relay write failed: '' @ trim e) c1)) (rp_hub s)\<rparr>"

definition relay_pinged :: "string option \<Rightarrow> nat \<Rightarrow> 'j relay_service \<Rightarrow> 'j relay_service" where
  "relay_pinged err p s =
     (case err of
        None \<Rightarrow> s
      | Some e \<Rightarrow>
          s\<lparr>rp_hub := upd_relay p (\<lambda>c. agent_conn_close (set_disconnect_reason (''relay ping failed: '' @ trim e) c))
              (rp_hub s)\<rparr>)"

definition relay_end :: "ws_read_error \<Rightarrow> nat \<Rightarrow> 'j relay_service \<Rightarrow> 'j relay_service" where
  "relay_end err p s =
     (let h = upd_relay p (\<lambda>c. agent_conn_close (set_disconnect_reason (describe_agent_ws_disconnect err) c)) (rp_hub s)
      in s\<lparr>rp_hub := snd (unregister_relay_conn p h)\<rparr>)"

section \<open>Users\<close>

record relay_request =
  rq_auth_header :: string
  rq_robot_id :: string
  rq_port :: string
  rq_session_key :: string
  rq_upgraded :: bool

definition attach_session_snapshot ::
  "relay_env \<Rightarrow> evidence \<Rightarrow> string \<Rightarrow> string \<Rightarrow> string \<Rightarrow> bootstrap_session option" where
  "attach_session_snapshot env ev key0 robot0 user0 =
     (let key = trim key0; robot = trim robot0; user = trim user0; same = equal_fold (re_ufold env) in
      if key = [] \<or> robot = [] then None
      else case session_snapshot key ev of
        None \<Rightarrow> None
      | Some b \<Rightarrow>
          if \<not> same (trim (bs_robot_id b)) robot then None
          else if user \<noteq> [] \<and> trim (bs_user_id b) \<noteq> [] \<and> \<not> same (trim (bs_user_id b)) user then None
          else Some b)"

fun first_parsed :: "rfc3339 \<Rightarrow> string list \<Rightarrow> gotime" where
  "first_parsed rf [] = 0"
| "first_parsed rf (raw # raws) =
     (if trim raw = [] then first_parsed rf raws
      else case rf_parse rf (trim raw) of None \<Rightarrow> first_parsed rf raws | Some t \<Rightarrow> t)"

definition attach_session_ref_time :: "relay_env \<Rightarrow> bootstrap_session \<Rightarrow> gotime" where
  "attach_session_ref_time env b = first_parsed (re_rfc env) [bs_updated_at b, bs_started_at b]"

definition should_promote_attach_session ::
  "relay_env \<Rightarrow> evidence \<Rightarrow> string \<Rightarrow> string \<Rightarrow> string \<Rightarrow> string \<Rightarrow> bool" where
  "should_promote_attach_session env ev active_key requested_key robot user =
     (case attach_session_snapshot env ev requested_key robot user of
        None \<Rightarrow> False
      | Some requested \<Rightarrow>
          (case attach_session_snapshot env ev active_key robot user of
             None \<Rightarrow> True
           | Some active \<Rightarrow>
               let requested_at = attach_session_ref_time env requested; active_at = attach_session_ref_time env active in
               \<not> is_zero requested_at \<and> \<not> is_zero active_at \<and> active_at < requested_at))"

text \<open>The checks of \<open>handleRelayWS\<close> before the upgrade, which may activate the session: the user, the
  robot, the port and the session key.\<close>

definition relay_admit ::
  "relay_env \<Rightarrow> gotime \<Rightarrow> relay_request \<Rightarrow> 'j relay_service \<Rightarrow> (refusal + string \<times> string \<times> int \<times> string) \<times> 'j relay_service" where
  "relay_admit env now q s =
     (case ops_relay_user (re_http env) (re_user_id env) (ta_ops (rp_auth s)) (rq_auth_header q) of
        Inl _ \<Rightarrow> (Inl (Refused 401 ''Unauthorized''), s)
      | Inr user \<Rightarrow>
          let robot = trim (rq_robot_id q); port_raw = trim (rq_port q) in
          if robot = [] \<or> port_raw = [] then (Inl (Refused 400 ''robot_id and port are required''), s)
          else case go_atoi port_raw of
            None \<Rightarrow> (Inl (Refused 400 ''port must be between 1 and 65535''), s)
          | Some port \<Rightarrow>
              if port \<le> 0 \<or> 65535 < port then (Inl (Refused 400 ''port must be between 1 and 65535''), s)
              else case ops_robot_owned_by (re_http env) (ta_ops (rp_auth s)) robot user of
                Inl _ \<Rightarrow> (Inl (Refused 500 ''Database query failed''), s)
              | Inr owned \<Rightarrow>
                  if \<not> owned then (Inl (Refused 404 ''robot not found''), s)
                  else if \<not> has_relay_connection robot (rp_hub s) then (Inl (Refused 409 ''robot relay channel offline''), s)
                  else
                    let active = trim (active_session robot (rp_hub s));
                        key = (if trim (rq_session_key q) = [] then active else trim (rq_session_key q));
                        activated = s\<lparr>rp_hub := set_active_session (re_ufold env) now robot key (rp_hub s)\<rparr>
                    in
                    if key = [] then (Inl (Refused 409 ''robot attach session unavailable''), s)
                    else if active \<noteq> [] \<and> \<not> equal_fold (re_ufold env) active key then
                      (if (case attach_session_snapshot env (rp_evidence s) key robot user of
                             None \<Rightarrow> True | Some b \<Rightarrow> bs_session_id b = []) \<or>
                          \<not> should_promote_attach_session env (rp_evidence s) active key robot user
                       then (Inl (Refused 409 ''attach session is stale; reconnect required''), s)
                       else (Inr (user, robot, port, key), activated))
                    else if active = [] then (Inr (user, robot, port, key), activated)
                    else (Inr (user, robot, port, key), s))"

definition upd_user :: "nat \<Rightarrow> ('j user_relay \<Rightarrow> 'j user_relay) \<Rightarrow> 'j relay_service \<Rightarrow> 'j relay_service" where
  "upd_user i f s = s\<lparr>rp_users := (rp_users s)[i := f (rp_users s ! i)]\<rparr>"

definition set_close_reason :: "string \<Rightarrow> 'j user_relay \<Rightarrow> 'j user_relay" where
  "set_close_reason reason u =
     (if trim reason \<noteq> [] \<and> ur_close_reason u = None then u\<lparr>ur_close_reason := Some (trim reason)\<rparr> else u)"

definition user_writes :: "ws_out \<Rightarrow> 'j user_relay \<Rightarrow> 'j user_relay" where
  "user_writes w u = u\<lparr>ur_out := ur_out u @ [w]\<rparr>"

definition send_for_user :: "nat \<Rightarrow> 'j agent_control_message \<Rightarrow> 'j relay_service \<Rightarrow> bool \<times> 'j relay_service" where
  "send_for_user i msg s =
     (case hub_send_relay (ur_robot_id (rp_users s ! i)) msg (rp_hub s) of (ok, h) \<Rightarrow> (ok, s\<lparr>rp_hub := h\<rparr>))"

definition close_relay :: "string \<Rightarrow> nat \<Rightarrow> 'j relay_service \<Rightarrow> 'j relay_service" where
  "close_relay reason i s =
     (let u = rp_users s ! i in
      if ur_done u then s
      else
        upd_user i (\<lambda>u. (set_close_reason reason u)\<lparr>ur_done := True\<rparr>)
          (snd (send_for_user i (acm_zero\<lparr>acm_type := ''relay_close'', acm_relay_id := ur_relay_id u,
            acm_session_key := ur_session_key u, acm_error := trim reason\<rparr>) s)))"

text \<open>The handler returns: what its deferred calls do. A stream that was never established is not
  reported to the agent.\<close>

definition user_return :: "nat \<Rightarrow> 'j relay_service \<Rightarrow> 'j relay_service" where
  "user_return i s =
     (let s1 = (case ur_phase (rp_users s ! i) of RpOpen \<Rightarrow> close_relay ''client_disconnected'' i s | _ \<Rightarrow> s)
      in upd_user i (\<lambda>u. u\<lparr>ur_phase := RpClosed\<rparr>)
           (s1\<lparr>rp_hub := unregister_relay (ur_relay_id (rp_users s1 ! i)) (rp_hub s1)\<rparr>))"

definition user_fail :: "string \<Rightarrow> ws_out list \<Rightarrow> nat \<Rightarrow> 'j relay_service \<Rightarrow> 'j relay_service" where
  "user_fail reason out i s =
     user_return i (upd_user i (\<lambda>u. (set_close_reason reason u)\<lparr>ur_out := ur_out u @ out\<rparr>) s)"

definition handle_relay_ws ::
  "relay_env \<Rightarrow> gotime \<Rightarrow> string \<Rightarrow> relay_request \<Rightarrow> 'j relay_service \<Rightarrow> (refusal + nat option) \<times> 'j relay_service" where
  "handle_relay_ws env now fresh q s =
     (case relay_admit env now q s of
        (Inl e, s1) \<Rightarrow> (Inl e, s1)
      | (Inr (user, robot, port, key), s1) \<Rightarrow>
          if \<not> rq_upgraded q then (Inr None, s1)
          else
            let i = length (rp_users s1);
                u = \<lparr>ur_user = user, ur_robot_id = robot, ur_relay_id = fresh, ur_session_key = key, ur_port = port,
                     ur_phase = RpOpening [], ur_close_reason = None, ur_reader = False,
                     ur_done = False, ur_streak = 0, ur_out = []\<rparr>;
                s2 = s1\<lparr>rp_hub := register_relay fresh robot key 512 (rp_hub s1), rp_users := rp_users s1 @ [u]\<rparr>
            in case send_for_user i (acm_zero\<lparr>acm_type := ''relay_open'', acm_relay_id := fresh, acm_port := port,
                    acm_session_key := key\<rparr>) s2 of
                 (True, s3) \<Rightarrow> (Inr (Some i), s3)
               | (False, s3) \<Rightarrow>
                   (Inr (Some i), user_fail ''relay_open_send_failed'' [WsClose 1013 ''relay_open send failed''] i s3))"

text \<open>How writing to the user's connection goes; \<open>we_timeout\<close> says that the error is a timeout of the
  network or an exceeded deadline.\<close>

record write_error =
  we_timeout :: bool
  we_text :: string

definition is_timeout_like :: "relay_env \<Rightarrow> write_error \<Rightarrow> bool" where
  "is_timeout_like env e \<longleftrightarrow>
     we_timeout e \<or>
     (let msg = to_lowercase (re_ulow env) (trim (we_text e)) in
      contains_str msg ''i/o timeout'' \<or> contains_str msg ''deadline exceeded'')"

definition soft_timeout_budget :: "relay_env \<Rightarrow> int" where
  "soft_timeout_budget env =
     parse_env_int_default (re_getenv env) ''ROBOTUNNEL_RELAY_CLIENT_SOFT_TIMEOUT_BUDGET'' 6 0 256"

definition client_write_timeout :: "relay_env \<Rightarrow> duration" where
  "client_write_timeout env =
     parse_env_int_default (re_getenv env) ''ROBOTUNNEL_RELAY_CLIENT_WRITE_TIMEOUT_MS'' 20000 1000 120000 * millisecond"

definition send_to_client ::
  "relay_env \<Rightarrow> write_error option \<Rightarrow> 'j agent_control_message \<Rightarrow> nat \<Rightarrow> 'j relay_service \<Rightarrow> bool \<times> 'j relay_service" where
  "send_to_client env err msg i s =
     (let t = trim (acm_type msg) in
      if t = ''relay_data'' then
        (let raw = trim (acm_data msg) in
         if raw = [] then (True, s)
         else case base64_decode raw of
           (_, False) \<Rightarrow> (False, close_relay ''invalid_relay_payload'' i s)
         | (data, True) \<Rightarrow>
             (case err of
                None \<Rightarrow> (True, upd_user i (\<lambda>u. user_writes (WsBinary data) (u\<lparr>ur_streak := 0\<rparr>)) s)
              | Some e \<Rightarrow>
                  let soft = (0 < soft_timeout_budget env \<and> is_timeout_like env e);
                      s1 = (if soft then upd_user i (\<lambda>u. u\<lparr>ur_streak := ur_streak u + 1\<rparr>) s else s) in
                  if soft \<and> int (ur_streak (rp_users s1 ! i)) \<le> soft_timeout_budget env then (True, s1)
                  else (False, upd_user i (set_close_reason (''client_writer_error:'' @ trim (we_text e))) s1)))
      else if t = ''relay_close'' then
        (let m = (if trim (acm_error msg) = [] then ''relay closed'' else trim (acm_error msg)) in
         (False, upd_user i (\<lambda>u. user_writes (WsClose 1000 m) (set_close_reason (''upstream_relay_close:'' @ m) u)) s))
      else (True, s))"

fun send_all_to_client ::
  "relay_env \<Rightarrow> write_error option list \<Rightarrow> 'j agent_control_message list \<Rightarrow> nat \<Rightarrow> 'j relay_service \<Rightarrow> bool \<times> 'j relay_service" where
  "send_all_to_client env errs [] i s = (True, s)"
| "send_all_to_client env errs (m # ms) i s =
     (case send_to_client env (case errs of [] \<Rightarrow> None | e # _ \<Rightarrow> e) m i s of
        (True, s1) \<Rightarrow> send_all_to_client env (tl errs) ms i s1
      | (False, s1) \<Rightarrow> (False, s1))"

text \<open>The handler takes the next message of its stream; \<open>errs\<close> is how the writes go that follow.\<close>

definition user_take ::
  "relay_env \<Rightarrow> gotime \<Rightarrow> write_error option list \<Rightarrow> nat \<Rightarrow> 'j relay_service \<Rightarrow> 'j relay_service" where
  "user_take env now errs i s =
     (let u = rp_users s ! i in
      case take_relay (ur_relay_id u) (rp_hub s) of
        (None, _) \<Rightarrow> s
      | (Some msg, h) \<Rightarrow>
          let s1 = s\<lparr>rp_hub := snd (consume_relay_enqueue_wait now (ur_relay_id u) h)\<rparr> in
          case ur_phase u of
            RpClosed \<Rightarrow> s
          | RpOpen \<Rightarrow>
              (case send_to_client env (case errs of [] \<Rightarrow> None | e # _ \<Rightarrow> e) msg i s1 of
                 (True, s2) \<Rightarrow> s2 | (False, s2) \<Rightarrow> user_return i s2)
          | RpOpening pending \<Rightarrow>
              if trim (acm_type msg) \<noteq> ''relay_open_ack'' then
                upd_user i (\<lambda>u. u\<lparr>ur_phase := RpOpening (pending @ [msg])\<rparr>) s1
              else if \<not> equal_fold (re_ufold env) (trim (acm_status msg)) ''ok'' then
                (let m = (if trim (acm_error msg) = [] then ''relay_open rejected'' else trim (acm_error msg)) in
                 user_fail (''relay_open_rejected:'' @ m) [WsClose 1008 m] i s1)
              else
                (case send_all_to_client env errs pending i (upd_user i (\<lambda>u. u\<lparr>ur_phase := RpOpen, ur_reader := True\<rparr>) s1) of
                   (True, s2) \<Rightarrow> s2 | (False, s2) \<Rightarrow> user_return i s2))"

definition user_open_timeout :: "nat \<Rightarrow> 'j relay_service \<Rightarrow> 'j relay_service" where
  "user_open_timeout i s =
     (case ur_phase (rp_users s ! i) of
        RpOpening _ \<Rightarrow> user_fail ''relay_open_timeout'' [WsClose 1013 ''relay_open timeout''] i s
      | _ \<Rightarrow> s)"

text \<open>The reader of the user's connection: a text or binary message, another kind, or an error.\<close>

datatype user_in = UserData bytes | UserOther | UserError string

definition user_inbound :: "user_in \<Rightarrow> nat \<Rightarrow> 'j relay_service \<Rightarrow> 'j relay_service" where
  "user_inbound m i s =
     (let u = rp_users s ! i;
          ends = (\<lambda>reason s. close_relay ''client_reader_closed'' i
                    (upd_user i (\<lambda>u. (set_close_reason reason u)\<lparr>ur_reader := False\<rparr>) s)) in
      if \<not> ur_reader u then s
      else case m of
        UserData b \<Rightarrow>
          (case send_for_user i (acm_zero\<lparr>acm_type := ''relay_data'', acm_relay_id := ur_relay_id u,
                  acm_session_key := ur_session_key u, acm_data := base64_std b\<rparr>) s of
             (True, s1) \<Rightarrow> s1
           | (False, s1) \<Rightarrow> ends ''relay_data_send_failed'' s1)
      | UserOther \<Rightarrow> s
      | UserError e \<Rightarrow> ends (''client_reader_error:'' @ trim e) s)"

text \<open>The handler sees that the stream is done, or its ticker fires.\<close>

definition user_done :: "nat \<Rightarrow> 'j relay_service \<Rightarrow> 'j relay_service" where
  "user_done i s = (if ur_phase (rp_users s ! i) = RpOpen \<and> ur_done (rp_users s ! i) then user_return i s else s)"

definition user_tick :: "write_error option \<Rightarrow> nat \<Rightarrow> 'j relay_service \<Rightarrow> 'j relay_service" where
  "user_tick err i s =
     (case (ur_phase (rp_users s ! i), err) of
        (RpOpen, Some e) \<Rightarrow> user_return i (upd_user i (set_close_reason (''client_ping_error:'' @ trim (we_text e))) s)
      | _ \<Rightarrow> s)"

section \<open>The endpoints together\<close>

text \<open>Besides the endpoints, other parts of the process use the hub: signalling activates sessions,
  triggers are sent, and the internal API sends commands.\<close>

datatype 'j relay_event =
    ReControlConnect gotime string agent_request
  | ReControlInbound gotime nat "'j ws_in"
  | ReControlTouch gotime nat
  | ReControlWritten "string option" nat
  | ReControlPinged "string option" nat
  | ReControlEnd ws_read_error nat
  | ReControlDown gotime nat
  | ReRelayConnect gotime string agent_request
  | ReRelayInbound gotime nat "'j ws_in"
  | ReRelayWritten "string option" nat
  | ReRelayPinged "string option" nat
  | ReRelayEnd ws_read_error nat
  | ReUserConnect gotime string relay_request
  | ReUserTake gotime "write_error option list" nat
  | ReUserTimeout nat
  | ReUserInbound user_in nat
  | ReUserDone nat
  | ReUserTick "write_error option" nat
  | ReHub "'j hub_event"

fun outside_event :: "'j hub_event \<Rightarrow> bool" where
  "outside_event (HeSend r m) \<longleftrightarrow> True"
| "outside_event (HeAttach now r key) \<longleftrightarrow> True"
| "outside_event (HeDetach r key) \<longleftrightarrow> True"
| "outside_event (HeCommand r q cmd) \<longleftrightarrow> True"
| "outside_event (HeStatus r q query) \<longleftrightarrow> True"
| "outside_event (HeAwait e q ch t) \<longleftrightarrow> True"
| "outside_event e \<longleftrightarrow> False"

text \<open>A reader gets nothing more once its connection is closed, and identifiers made up for streams
  are new; an event that cannot happen changes nothing.\<close>

definition fresh_relay :: "string \<Rightarrow> 'j relay_service \<Rightarrow> bool" where
  "fresh_relay x s \<longleftrightarrow> x \<noteq> [] \<and> trim x = x \<and> list_all (\<lambda>u. ur_relay_id u \<noteq> x) (rp_users s)"

definition on_control :: "(nat \<Rightarrow> 'j relay_service \<Rightarrow> 'j relay_service) \<Rightarrow> nat \<Rightarrow> 'j relay_service \<Rightarrow> 'j relay_service" where
  "on_control f p s = (if p < length (hb_control_store (rp_hub s)) then f p s else s)"

definition on_relay :: "(nat \<Rightarrow> 'j relay_service \<Rightarrow> 'j relay_service) \<Rightarrow> nat \<Rightarrow> 'j relay_service \<Rightarrow> 'j relay_service" where
  "on_relay f p s = (if p < length (hb_relay_store (rp_hub s)) then f p s else s)"

definition on_user :: "(nat \<Rightarrow> 'j relay_service \<Rightarrow> 'j relay_service) \<Rightarrow> nat \<Rightarrow> 'j relay_service \<Rightarrow> 'j relay_service" where
  "on_user f i s = (if i < length (rp_users s) then f i s else s)"

fun relay_step :: "relay_env \<Rightarrow> 'j relay_service \<Rightarrow> 'j relay_event \<Rightarrow> 'j relay_service" where
  "relay_step env s (ReControlConnect now fresh q) = snd (handle_agent_control_connect env now fresh q s)"
| "relay_step env s (ReControlInbound now p m) =
     on_control (\<lambda>p s. if ac_done (hb_control_store (rp_hub s) ! p) then s else control_inbound now p m s) p s"
| "relay_step env s (ReControlTouch now p) = on_control (control_touch now) p s"
| "relay_step env s (ReControlWritten err p) = on_control (control_written err) p s"
| "relay_step env s (ReControlPinged err p) = on_control (control_pinged err) p s"
| "relay_step env s (ReControlEnd err p) = on_control (control_end err) p s"
| "relay_step env s (ReControlDown now p) = on_control (control_report_down now) p s"
| "relay_step env s (ReRelayConnect now fresh q) = snd (handle_agent_relay_connect env now fresh q s)"
| "relay_step env s (ReRelayInbound now p m) =
     on_relay (\<lambda>p s. if ac_done (hb_relay_store (rp_hub s) ! p) then s else relay_inbound now p m s) p s"
| "relay_step env s (ReRelayWritten err p) = on_relay (relay_written err) p s"
| "relay_step env s (ReRelayPinged err p) = on_relay (relay_pinged err) p s"
| "relay_step env s (ReRelayEnd err p) = on_relay (relay_end err) p s"
| "relay_step env s (ReUserConnect now fresh q) =
     (if fresh_relay fresh s then snd (handle_relay_ws env now fresh q s) else s)"
| "relay_step env s (ReUserTake now errs i) = on_user (user_take env now errs) i s"
| "relay_step env s (ReUserTimeout i) = on_user user_open_timeout i s"
| "relay_step env s (ReUserInbound m i) = on_user (user_inbound m) i s"
| "relay_step env s (ReUserDone i) = on_user user_done i s"
| "relay_step env s (ReUserTick err i) = on_user (user_tick err) i s"
| "relay_step env s (ReHub e) =
     (if outside_event e then s\<lparr>rp_hub := hub_step (re_ulow env) (re_ufold env) (rp_hub s) e\<rparr> else s)"

end
