(* ===== verification/Relay_Endpoint_Laws.thy ===== *)
theory Relay_Endpoint_Laws
  imports Relay_Endpoint
begin

text \<open>
  What holds of the relay endpoints however their steps interleave: every stream in the hub belongs
  to one user's handler, for a robot that user owns; data passes between the user's connection and
  the agent's relay channel in order and unchanged; and how a control channel's end is reported.
\<close>

section \<open>The streams of the hub\<close>

definition stream_of :: "'j relay_registration \<Rightarrow> string \<times> string \<times> nat" where
  "stream_of r = (rl_robot_id r, rl_session_key r, rl_cap r)"

definition streams :: "'j hub \<Rightarrow> string \<rightharpoonup> string \<times> string \<times> nat" where
  "streams h = (\<lambda>x. map_option stream_of (hb_relays h x))"

lemma streams_new: "streams new_agent_control_hub = Map.empty"
  by (simp add: streams_def new_agent_control_hub_def)

lemma streams_cong: "hb_relays h' = hb_relays h \<Longrightarrow> streams h' = streams h"
  by (simp add: streams_def)

lemma stream_of_queue [simp]:
  "stream_of (snd (rl_enqueue m t r)) = stream_of r" "stream_of (snd (drop_oldest_queued_message r)) = stream_of r"
  "stream_of (snd (pop_enqueue_timestamp r)) = stream_of r" "stream_of (r\<lparr>rl_stats := x\<rparr>) = stream_of r"
  "stream_of (r\<lparr>rl_ch := q\<rparr>) = stream_of r"
  by (auto simp: stream_of_def rl_enqueue_def drop_oldest_queued_message_def pop_enqueue_timestamp_def
      split: prod.splits bool.splits list.splits)

lemma stream_of_queueD:
  "rl_enqueue m t r = (b, r') \<Longrightarrow> stream_of r' = stream_of r"
  "drop_oldest_queued_message r = (b, r') \<Longrightarrow> stream_of r' = stream_of r"
  "pop_enqueue_timestamp r = (o', r') \<Longrightarrow> stream_of r' = stream_of r"
  by (metis snd_conv stream_of_queue)+

lemma stream_of_deliver [simp]: "stream_of (snd (deliver_to now m r)) = stream_of r"
  by (auto simp: deliver_to_def dest!: stream_of_queueD split: prod.splits bool.splits if_splits)

lemma stream_of_preempt [simp]: "stream_of (preempt_relay now m r) = stream_of r"
  by (auto simp: preempt_relay_def dest!: stream_of_queueD split: prod.splits bool.splits)

lemma streams_ops [simp]:
  "streams (snd (hub_send r m h)) = streams h"
  "streams (snd (hub_send_relay r m h)) = streams h"
  "streams (snd (clear_active_session_if_match r key h)) = streams h"
  "streams (snd (deliver_response q resp h)) = streams h"
  "streams (snd (await_response e q ch t h)) = streams h"
  "streams (upd_control p f h) = streams h"
  "streams (upd_relay p f h) = streams h"
  "streams (snd (hub_unregister p h)) = streams h"
  "streams (snd (unregister_relay_conn p h)) = streams h"
  "streams (snd (connect_control ulow c policy h)) = streams h"
  "streams (snd (connect_relay c h)) = streams h"
  by (rule streams_cong; simp add: hub_send_def hub_send_relay_def clear_active_session_if_match_def deliver_response_def
      await_response_def upd_control_def upd_relay_def hub_unregister_def unregister_relay_conn_def connect_control_def
      connect_relay_def register_with_policy_def register_relay_conn_def Let_def split: option.splits list.splits)+

lemma streams_start_request [simp]: "streams (snd (start_request r q mk h)) = streams h"
  by (rule streams_cong) (auto simp: start_request_def hub_send_def upd_control_def Let_def
      split: prod.splits bool.splits option.splits)

lemma streams_deliver [simp]: "streams (snd (deliver_relay now m h)) = streams h"
proof -
  have "deliver_to now m r = (b, r') \<Longrightarrow> stream_of r' = stream_of r" for r b r'
    by (metis snd_conv stream_of_deliver)
  then show ?thesis
    by (auto simp: deliver_relay_def streams_def fun_eq_iff Let_def split: option.splits prod.splits)
qed

lemma streams_take [simp]: "streams (snd (take_relay x h)) = streams h"
  by (auto simp: take_relay_def streams_def split: option.splits list.splits)

lemma streams_consume [simp]: "streams (snd (consume_relay_enqueue_wait now x h)) = streams h"
  by (auto simp: consume_relay_enqueue_wait_def streams_def fun_eq_iff Let_def dest!: stream_of_queueD
      split: option.splits prod.splits)

lemma streams_attach [simp]: "streams (set_active_session ufold now r key h) = streams h"
  by (auto simp: set_active_session_def preempt_relays_for_session_def streams_def Let_def split: option.splits)

lemma streams_register: "streams (register_relay x r key n h) = (if trim x = [] then streams h else (streams h)(trim x \<mapsto> (trim r, trim key, n)))"
  by (auto simp: register_relay_def streams_def stream_of_def)

lemma streams_unregister: "streams (unregister_relay x h) = (if trim x = [] then streams h else (streams h)(trim x := None))"
  by (auto simp: unregister_relay_def streams_def)

lemma streams_reader_close [simp]: "streams (snd (send_relay_close now robot x reason (sent, h))) = streams h"
  by (simp add: send_relay_close_def Let_def)

lemma streams_reader [simp]: "streams (snd (reader_relay_message now robot msg (sent, h))) = streams h"
proof (cases "deliver_relay now msg h")
  case (Pair res h1)
  then have "streams h1 = streams h" by (metis snd_conv streams_deliver)
  with Pair show ?thesis by (simp add: reader_relay_message_def split: relay_delivery_result.splits)
qed

lemma streams_outside: "outside_event e \<Longrightarrow> streams (hub_step ulow ufold h e) = streams h"
  by (cases e) (simp_all add: send_command_def send_status_query_def)

section \<open>Well-formedness\<close>

lemma hub_wf_upd:
  assumes "hub_wf h" and "\<And>c. ac_robot_id (f c) = ac_robot_id c"
    and "\<And>c. length (ac_send c) \<le> ac_cap c \<Longrightarrow> length (ac_send (f c)) \<le> ac_cap (f c)"
  shows "hub_wf (upd_control p f h)" "hub_wf (upd_relay p f h)"
  using assms by (simp_all add: hub_wf_def upd_control_def upd_relay_def conns_ok_update)

lemma conn_close_keeps [simp]:
  "ac_robot_id (agent_conn_close c) = ac_robot_id c" "ac_send (agent_conn_close c) = ac_send c"
  "ac_cap (agent_conn_close c) = ac_cap c" "ac_robot_id (set_disconnect_reason e c) = ac_robot_id c"
  "ac_send (set_disconnect_reason e c) = ac_send c" "ac_cap (set_disconnect_reason e c) = ac_cap c"
  by (simp_all add: agent_conn_close_def set_disconnect_reason_def)

lemma hub_wf_reader_close: "hub_wf h \<Longrightarrow> hub_wf (snd (send_relay_close now robot x reason (sent, h)))"
  by (simp add: send_relay_close_def hub_send_relay_wf Let_def)

lemma hub_wf_reader:
  assumes "hub_wf h"
  shows "hub_wf (snd (reader_relay_message now robot msg (sent, h)))"
proof (cases "deliver_relay now msg h")
  case (Pair res h1)
  then have "hub_wf h1" using deliver_relay_wf[OF assms, of now msg] by simp
  with Pair show ?thesis by (simp add: reader_relay_message_def hub_wf_reader_close split: relay_delivery_result.splits)
qed

lemma hub_wf_outside: "hub_wf h \<Longrightarrow> outside_event e \<Longrightarrow> hub_wf (hub_step ulow ufold h e)"
  by (rule hub_step_wf) (cases e; simp)+

section \<open>Messages for agents\<close>

text \<open>What is queued on the relay channels of agents, with the robot each channel is of.\<close>

definition relay_msgs :: "'j hub \<Rightarrow> (string \<times> 'j agent_control_message) set" where
  "relay_msgs h = (\<Union>c \<in> set (hb_relay_store h). Pair (ac_robot_id c) ` set (ac_send c))"

definition closings :: "(string \<times> 'j agent_control_message) set" where
  "closings = {y. acm_type (snd y) = ''relay_close''}"

lemma relay_msgs_cong: "hb_relay_store h' = hb_relay_store h \<Longrightarrow> relay_msgs h' = relay_msgs h"
  by (simp add: relay_msgs_def)

lemma relay_msgs_ops [simp]:
  "relay_msgs (snd (hub_send r m h)) = relay_msgs h"
  "relay_msgs (snd (clear_active_session_if_match r key h)) = relay_msgs h"
  "relay_msgs (snd (deliver_response q resp h)) = relay_msgs h"
  "relay_msgs (snd (await_response e q ch t h)) = relay_msgs h"
  "relay_msgs (upd_control p f h) = relay_msgs h"
  "relay_msgs (snd (hub_unregister p h)) = relay_msgs h"
  "relay_msgs (snd (unregister_relay_conn p h)) = relay_msgs h"
  "relay_msgs (snd (connect_control ulow c policy h)) = relay_msgs h"
  "relay_msgs (set_active_session ufold now r key h) = relay_msgs h"
  "relay_msgs (register_relay x r key n h) = relay_msgs h"
  "relay_msgs (unregister_relay x h) = relay_msgs h"
  by (rule relay_msgs_cong; simp add: hub_send_def clear_active_session_if_match_def deliver_response_def
      await_response_def upd_control_def hub_unregister_def unregister_relay_conn_def connect_control_def
      register_with_policy_def set_active_session_def preempt_relays_for_session_def register_relay_def
      unregister_relay_def Let_def split: option.splits list.splits)+

lemma relay_msgs_streams [simp]:
  "relay_msgs (snd (deliver_relay now m h)) = relay_msgs h"
  "relay_msgs (snd (take_relay x h)) = relay_msgs h"
  "relay_msgs (snd (consume_relay_enqueue_wait now x h)) = relay_msgs h"
  "relay_msgs (snd (start_request r q mk h)) = relay_msgs h"
  by (rule relay_msgs_cong; auto simp: deliver_relay_def take_relay_def consume_relay_enqueue_wait_def
      start_request_def hub_send_def upd_control_def Let_def split: option.splits list.splits prod.splits bool.splits)+

lemma relay_msgs_outside: "outside_event e \<Longrightarrow> relay_msgs (hub_step ulow ufold h e) = relay_msgs h"
  by (cases e) (simp_all add: send_command_def send_status_query_def)

lemma relay_msgs_connect: "ac_send c = [] \<Longrightarrow> relay_msgs (snd (connect_relay c h)) = relay_msgs h"
  by (simp add: connect_relay_def register_relay_conn_def upd_relay_def relay_msgs_def Let_def)

lemma relay_msgs_upd:
  assumes "\<And>c. ac_robot_id (f c) = ac_robot_id c" and "\<And>c. set (ac_send (f c)) \<subseteq> set (ac_send c)"
  shows "relay_msgs (upd_relay p f h) \<subseteq> relay_msgs h"
proof (cases "p < length (hb_relay_store h)")
  case True
  then have "set ((hb_relay_store h)[p := f (hb_relay_store h ! p)]) \<subseteq> insert (f (hb_relay_store h ! p)) (set (hb_relay_store h))"
    by (simp add: set_update_subset_insert)
  with True show ?thesis using assms(2)[of "hb_relay_store h ! p"] assms(1)
    by (auto simp: relay_msgs_def upd_relay_def dest!: subsetD intro!: bexI[of _ "hb_relay_store h ! p"])
qed (simp add: upd_relay_def relay_msgs_def list_update_beyond)

lemma relay_msgs_send:
  assumes "hub_wf h"
  shows "relay_msgs (snd (hub_send_relay rid m h)) \<subseteq> insert (trim rid, m) (relay_msgs h)"
proof (cases "trim rid = [] \<or> hb_relay h (trim rid) = None")
  case False
  then obtain p where p: "hb_relay h (trim rid) = Some p" "trim rid \<noteq> []" by auto
  with assms have c: "p < length (hb_relay_store h)" "ac_robot_id (hb_relay_store h ! p) = trim rid"
    by (auto simp: hub_wf_def conns_ok_def)
  let ?c = "snd (conn_offer m (hb_relay_store h ! p))"
  have "set ((hb_relay_store h)[p := ?c]) \<subseteq> insert ?c (set (hb_relay_store h))" by (rule set_update_subset_insert)
  moreover have "Pair (trim rid) ` set (ac_send (hb_relay_store h ! p)) \<subseteq> relay_msgs h"
    using c nth_mem[OF c(1)] unfolding relay_msgs_def by force
  then have "Pair (ac_robot_id ?c) ` set (ac_send ?c) \<subseteq> insert (trim rid, m) (relay_msgs h)"
    using c by (auto simp: conn_offer_def chan_offer_def)
  ultimately have "(\<Union>c \<in> set ((hb_relay_store h)[p := ?c]). Pair (ac_robot_id c) ` set (ac_send c))
      \<subseteq> insert (trim rid, m) (relay_msgs h)"
    unfolding relay_msgs_def by blast
  then show ?thesis using p by (simp add: hub_send_relay_def relay_msgs_def upd_relay_def)
qed (auto simp: hub_send_relay_def)

lemma relay_msgs_reader_close:
  "hub_wf h \<Longrightarrow> relay_msgs (snd (send_relay_close now robot x reason (sent, h))) \<subseteq> relay_msgs h \<union> closings"
proof -
  let ?m = "acm_zero\<lparr>acm_type := ''relay_close'', acm_relay_id := trim x,
      acm_session_key := trim (active_session robot h), acm_error := trim reason\<rparr>"
  assume "hub_wf h"
  then have "relay_msgs (snd (hub_send_relay robot ?m h)) \<subseteq> insert (trim robot, ?m) (relay_msgs h)"
    by (rule relay_msgs_send)
  then show ?thesis by (auto simp: send_relay_close_def closings_def Let_def)
qed

lemma relay_msgs_reader:
  assumes "hub_wf h"
  shows "relay_msgs (snd (reader_relay_message now robot msg (sent, h))) \<subseteq> relay_msgs h \<union> closings"
proof (cases "deliver_relay now msg h")
  case (Pair res h1)
  then have "hub_wf h1" "relay_msgs h1 = relay_msgs h"
    using deliver_relay_wf[OF assms, of now msg] relay_msgs_streams(1)[of now msg h] by simp_all
  with Pair show ?thesis
    using relay_msgs_reader_close[of h1 now robot "acm_relay_id msg" "''relay_not_registered''" sent]
    by (simp add: reader_relay_message_def split: relay_delivery_result.splits)
qed

section \<open>Views of the service\<close>

text \<open>What the ownership of streams depends on: the streams of the hub, what the handlers of users
  are for and whether they are open, and the ops client.\<close>

definition user_key :: "'j user_relay \<Rightarrow> (string \<times> string \<times> string \<times> string \<times> int) \<times> bool" where
  "user_key u = ((ur_relay_id u, ur_user u, ur_robot_id u, ur_session_key u, ur_port u), ur_phase u \<noteq> RpClosed)"

definition relay_view ::
  "'j relay_service \<Rightarrow> (string \<rightharpoonup> string \<times> string \<times> nat) \<times> ((string \<times> string \<times> string \<times> string \<times> int) \<times> bool) list \<times> ops_client" where
  "relay_view s = (streams (rp_hub s), map user_key (rp_users s), ta_ops (rp_auth s))"

lemma view_hub:
  "streams h = streams (rp_hub s) \<Longrightarrow> relay_view (s\<lparr>rp_hub := h\<rparr>) = relay_view s"
  by (simp add: relay_view_def)

lemma view_other [simp]:
  "relay_view (s\<lparr>rp_states := x\<rparr>) = relay_view s" "relay_view (s\<lparr>rp_leaving := l\<rparr>) = relay_view s"
  "relay_view (s\<lparr>rp_control_closes := c\<rparr>) = relay_view s" "relay_view (s\<lparr>rp_relay_closes := c\<rparr>) = relay_view s"
  by (simp_all add: relay_view_def)

lemma view_user:
  assumes "\<And>u. user_key (f u) = user_key u"
  shows "relay_view (upd_user i f s) = relay_view s"
proof -
  have "map user_key ((rp_users s)[i := f (rp_users s ! i)]) = map user_key (rp_users s)"
    by (metis assms list_update_id map_update)
  then show ?thesis by (simp add: relay_view_def upd_user_def)
qed

lemma upd_user_hub [simp]: "rp_hub (upd_user i f s) = rp_hub s"
  by (simp add: upd_user_def)

lemma user_key_updates [simp]:
  "user_key (set_close_reason reason u) = user_key u" "user_key (user_writes w u) = user_key u"
  "user_key (u\<lparr>ur_done := d\<rparr>) = user_key u" "user_key (u\<lparr>ur_streak := n\<rparr>) = user_key u"
  "user_key (u\<lparr>ur_out := out\<rparr>) = user_key u" "user_key (u\<lparr>ur_reader := b\<rparr>) = user_key u"
  by (simp_all add: user_key_def set_close_reason_def user_writes_def)

text \<open>What a relay channel may carry besides closings: what opens a stream, and its data, from a handler
  that is for the channel's robot.\<close>

definition msg_ok :: "((string \<times> string \<times> string \<times> string \<times> int) \<times> bool) list \<Rightarrow> string \<times> 'j agent_control_message \<Rightarrow> bool" where
  "msg_ok ks y \<longleftrightarrow> y \<in> closings \<or>
     (case y of (r, m) \<Rightarrow> acm_type m \<in> {''relay_open'', ''relay_data''} \<and>
        (\<exists>user robot port. (acm_relay_id m, user, robot, acm_session_key m, port) \<in> fst ` set ks \<and> trim robot = r \<and>
           (acm_type m = ''relay_open'' \<longrightarrow> acm_port m = port)))"

definition relay_wf :: "'j relay_service \<Rightarrow> bool" where
  "relay_wf s \<longleftrightarrow> hub_wf (rp_hub s) \<and> (\<forall>y \<in> relay_msgs (rp_hub s). msg_ok (map user_key (rp_users s)) y)"

text \<open>A step that leaves the view as it is and the service well-formed.\<close>

definition keeps :: "'j relay_service \<Rightarrow> 'j relay_service \<Rightarrow> bool" where
  "keeps s s' \<longleftrightarrow> relay_view s' = relay_view s \<and> (relay_wf s \<longrightarrow> relay_wf s')"

lemma view_keys: "relay_view s' = relay_view s \<Longrightarrow> map user_key (rp_users s') = map user_key (rp_users s)"
  by (simp add: relay_view_def)

lemma relay_wf_same: "relay_view s' = relay_view s \<Longrightarrow> rp_hub s' = rp_hub s \<Longrightarrow> relay_wf s' = relay_wf s"
  by (simp add: relay_wf_def relay_view_def)

lemma msg_ok_keys: "fst ` set ks = fst ` set ks' \<Longrightarrow> msg_ok ks y = msg_ok ks' y"
  by (simp only: msg_ok_def)

lemma relay_wf_hub:
  assumes "relay_wf s" and "hub_wf h" and "relay_msgs h \<subseteq> relay_msgs (rp_hub s) \<union> closings"
  shows "relay_wf (s\<lparr>rp_hub := h\<rparr>)"
  using assms by (auto simp: relay_wf_def msg_ok_def)

lemma keeps_refl [simp]: "keeps s s"
  by (simp add: keeps_def)

lemma keeps_trans: "keeps s s1 \<Longrightarrow> keeps s1 s2 \<Longrightarrow> keeps s s2"
  by (simp add: keeps_def)

lemma keeps_user:
  assumes "keeps s s'" and "\<And>u. user_key (f u) = user_key u"
  shows "keeps s (upd_user i f s')"
  using assms relay_wf_same[OF view_user, of f i s'] by (simp add: keeps_def view_user)

text \<open>What a handler may send.\<close>

definition user_msg :: "'j user_relay \<Rightarrow> 'j agent_control_message \<Rightarrow> bool" where
  "user_msg u m \<longleftrightarrow> acm_type m \<in> {''relay_open'', ''relay_data''} \<and> acm_relay_id m = ur_relay_id u \<and>
     acm_session_key m = ur_session_key u \<and> (acm_type m = ''relay_open'' \<longrightarrow> acm_port m = ur_port u)"

lemma keeps_send:
  assumes "keeps s s'" and "acm_type m = ''relay_close'' \<or> i < length (rp_users s') \<and> user_msg (rp_users s' ! i) m"
  shows "keeps s (snd (send_for_user i m s'))"
proof -
  let ?u = "rp_users s' ! i"
  let ?h = "snd (hub_send_relay (ur_robot_id ?u) m (rp_hub s'))"
  have s: "snd (send_for_user i m s') = s'\<lparr>rp_hub := ?h\<rparr>" by (simp add: send_for_user_def split: prod.splits)
  have "msg_ok (map user_key (rp_users s')) (trim (ur_robot_id ?u), m)"
    using assms(2)
  proof
    assume u: "i < length (rp_users s') \<and> user_msg ?u m"
    then have "fst (user_key ?u) \<in> fst ` set (map user_key (rp_users s'))" by simp
    then have "(ur_relay_id ?u, ur_user ?u, ur_robot_id ?u, ur_session_key ?u, ur_port ?u) \<in> fst ` set (map user_key (rp_users s'))"
      by (simp only: user_key_def fst_conv)
    with u show ?thesis unfolding msg_ok_def user_msg_def prod.case by metis
  qed (simp add: msg_ok_def closings_def)
  then have "relay_wf s' \<Longrightarrow> relay_wf (s'\<lparr>rp_hub := ?h\<rparr>)"
    using relay_msgs_send[of "rp_hub s'" "ur_robot_id ?u" m] by (auto simp: relay_wf_def hub_send_relay_wf)
  moreover have "relay_view (s'\<lparr>rp_hub := ?h\<rparr>) = relay_view s'" by (rule view_hub) simp
  ultimately show ?thesis using assms(1) unfolding s keeps_def by simp
qed

lemma keeps_close:
  assumes "keeps s s'"
  shows "keeps s (close_relay reason i s')"
proof -
  let ?u = "rp_users s' ! i"
  let ?m = "acm_zero\<lparr>acm_type := ''relay_close'', acm_relay_id := ur_relay_id ?u,
      acm_session_key := ur_session_key ?u, acm_error := trim reason\<rparr>"
  have "keeps s (upd_user i (\<lambda>u. (set_close_reason reason u)\<lparr>ur_done := True\<rparr>) (snd (send_for_user i ?m s')))"
    by (intro keeps_user keeps_send assms) simp_all
  then show ?thesis using assms by (simp add: close_relay_def Let_def)
qed

lemma keeps_to_client: "keeps s s' \<Longrightarrow> keeps s (snd (send_to_client env err msg i s'))"
  by (auto simp: send_to_client_def Let_def intro!: keeps_user keeps_close split: prod.splits bool.splits option.splits)

lemma keeps_all_to_client: "keeps s s' \<Longrightarrow> keeps s (snd (send_all_to_client env errs ms i s'))"
proof (induction env errs ms i s' rule: send_all_to_client.induct)
  case (2 env errs m ms i s')
  have "keeps s (snd (send_to_client env (case errs of [] \<Rightarrow> None | e # _ \<Rightarrow> e) m i s'))"
    using 2(2) by (rule keeps_to_client)
  with 2(1) show ?case by (auto split: prod.splits bool.splits)
qed simp

section \<open>Streams belong to users\<close>

lemma keeps_hub:
  assumes "keeps s s'" and "streams h = streams (rp_hub s')" and "hub_wf (rp_hub s') \<Longrightarrow> hub_wf h"
    and "hub_wf (rp_hub s') \<Longrightarrow> relay_msgs h \<subseteq> relay_msgs (rp_hub s') \<union> closings"
  shows "keeps s (s'\<lparr>rp_hub := h\<rparr>)"
  using assms relay_wf_hub[of s' h] by (auto simp: keeps_def view_hub relay_wf_def)

lemma keeps_other:
  assumes "keeps s s'"
  shows "keeps s (s'\<lparr>rp_states := x\<rparr>)" "keeps s (s'\<lparr>rp_leaving := l\<rparr>)"
    "keeps s (s'\<lparr>rp_control_closes := c\<rparr>)" "keeps s (s'\<lparr>rp_relay_closes := c\<rparr>)"
  using assms by (simp_all add: keeps_def relay_wf_def)

lemma keeps_auth: "keeps s s' \<Longrightarrow> ta_ops a = ta_ops (rp_auth s') \<Longrightarrow> keeps s (s'\<lparr>rp_auth := a\<rparr>)"
  by (auto simp: keeps_def relay_view_def relay_wf_def)

lemma touch_ops [simp]: "ta_ops (snd (resolver_touch_last_seen pg now robot a)) = ta_ops a"
  by (simp add: resolver_touch_last_seen_def split: option.splits prod.splits)

lemma keeps_reader:
  "reader_relay_message now robot msg (sent, rp_hub s) = (sent', h) \<Longrightarrow> keeps s (s\<lparr>rp_hub := h\<rparr>)"
  by (rule keeps_hub[OF keeps_refl]) (metis hub_wf_reader relay_msgs_reader snd_conv streams_reader)+

lemma keeps_control_inbound: "keeps s (control_inbound now p m s)"
proof -
  define s1 where "s1 = s\<lparr>rp_states := touch_control_activity now (ac_robot_id (hb_control_store (rp_hub s) ! p)) now (rp_states s)\<rparr>"
  have k: "keeps s s1" unfolding s1_def by (intro keeps_other keeps_refl)
  have resp: "keeps s (s1\<lparr>rp_hub := snd (deliver_response q resp (rp_hub s1))\<rparr>)" for q resp
    by (intro keeps_hub[OF k]) (simp_all add: deliver_response_wf)
  have relay: "keeps s (s1\<lparr>rp_hub := h, rp_control_closes := (rp_control_closes s1)(p := sent')\<rparr>)"
    if "reader_relay_message now robot msg (sent, rp_hub s1) = (sent', h)" for robot msg sent sent' h
    using keeps_trans[OF k keeps_reader[OF that]] by (rule keeps_other(3))
  show ?thesis
    unfolding control_inbound_def Let_def s1_def[symmetric]
    using k resp relay by (auto split: ws_in.splits option.splits prod.splits)
qed

lemma keeps_relay_inbound: "keeps s (relay_inbound now p m s)"
proof -
  have relay: "keeps s (s\<lparr>rp_hub := h, rp_relay_closes := (rp_relay_closes s)(p := sent')\<rparr>)"
    if "reader_relay_message now robot msg (sent, rp_hub s) = (sent', h)" for robot msg sent sent' h
    using keeps_reader[OF that] by (rule keeps_other(4))
  show ?thesis
    unfolding relay_inbound_def using relay by (auto split: ws_in.splits option.splits prod.splits)
qed

lemma keeps_upd:
  assumes "keeps s s'" and "\<And>c. ac_robot_id (f c) = ac_robot_id c"
    and "\<And>c. length (ac_send c) \<le> ac_cap c \<Longrightarrow> length (ac_send (f c)) \<le> ac_cap (f c)"
    and "\<And>c. set (ac_send (f c)) \<subseteq> set (ac_send c)"
  shows "keeps s (s'\<lparr>rp_hub := upd_control p f (rp_hub s')\<rparr>)" "keeps s (s'\<lparr>rp_hub := upd_relay p f (rp_hub s')\<rparr>)"
  using assms(1) hub_wf_upd[OF _ assms(2,3), of "rp_hub s'" p] relay_msgs_upd[OF assms(2,4), of p "rp_hub s'"]
  by (auto intro!: keeps_hub)

lemma keeps_writers:
  "keeps s (control_written err p s)" "keeps s (control_pinged err p s)"
  "keeps s (relay_written err p s)" "keeps s (relay_pinged err p s)"
  unfolding control_written_def control_pinged_def relay_written_def relay_pinged_def
  by (auto simp: Let_def intro!: keeps_upd dest: in_set_dropD split: option.splits)

lemma keeps_control_end: "keeps s (control_end err p s)"
proof -
  let ?f = "\<lambda>c. agent_conn_close (set_disconnect_reason (describe_agent_ws_disconnect err) c)"
  have "hub_wf (rp_hub s) \<Longrightarrow> hub_wf (snd (hub_unregister p (upd_control p ?f (rp_hub s))))"
    by (intro hub_small_steps_wf hub_wf_upd) simp_all
  then have "keeps s (s\<lparr>rp_hub := snd (hub_unregister p (upd_control p ?f (rp_hub s)))\<rparr>)"
    by (intro keeps_hub[OF keeps_refl]) simp_all
  from keeps_other(2)[OF this] this show ?thesis
    by (cases "hub_unregister p (upd_control p ?f (rp_hub s))") (simp add: control_end_def Let_def)
qed

lemma keeps_relay_end: "keeps s (relay_end err p s)"
proof -
  let ?f = "\<lambda>c. agent_conn_close (set_disconnect_reason (describe_agent_ws_disconnect err) c)"
  have "hub_wf (rp_hub s) \<Longrightarrow> hub_wf (snd (unregister_relay_conn p (upd_relay p ?f (rp_hub s))))"
    by (intro hub_small_steps_wf hub_wf_upd) simp_all
  moreover have "relay_msgs (upd_relay p ?f (rp_hub s)) \<subseteq> relay_msgs (rp_hub s)"
    by (rule relay_msgs_upd) simp_all
  ultimately show ?thesis by (auto simp: relay_end_def Let_def intro!: keeps_hub)
qed

lemma keeps_reports: "keeps s (control_touch now p s)" "keeps s (control_report_down now p s)"
  by (simp_all add: control_touch_def control_report_down_def keeps_other)

lemma keeps_control_connect: "keeps s (snd (handle_agent_control_connect env now fresh q s))"
proof (cases "agent_admit (re_uuid_ok env) (env_resolve env (rp_auth s)) q")
  case (Inr x)
  then obtain robot r where adm: "agent_admit (re_uuid_ok env) (env_resolve env (rp_auth s)) q = Inr (robot, r)"
    by (cases x) auto
  let ?c = "new_agent_conn now fresh robot 256 q :: 'a agent_conn"
  obtain accepted prev h where c: "connect_control (re_ulow env) ?c (current_concurrency_policy env) (rp_hub s) = ((accepted, prev), h)"
    by (metis prod.collapse)
  have m: "relay_msgs h = relay_msgs (rp_hub s)" using c by (metis snd_conv relay_msgs_ops(8))
  have "streams h = streams (rp_hub s)" using c by (metis snd_conv streams_ops(10))
  moreover have "hub_wf h" if "hub_wf (rp_hub s)"
    using connect_control_wf[OF that, of ?c "re_ulow env" "current_concurrency_policy env"] c by (simp add: new_agent_conn_def)
  ultimately have h: "streams h = streams (rp_hub s)" "hub_wf (rp_hub s) \<Longrightarrow> hub_wf h" by auto
  have "keeps s (s\<lparr>rp_hub := upd_control k agent_conn_close h\<rparr>)" for k
    by (rule keeps_hub[OF keeps_refl]) (simp_all add: h m hub_wf_upd)
  moreover have "keeps s (s\<lparr>rp_hub := h\<rparr>)" by (rule keeps_hub[OF keeps_refl]) (simp_all add: h m)
  ultimately have "keeps s (s\<lparr>rp_hub := upd_control k agent_conn_close h, rp_states := st\<rparr>)"
    "keeps s (s\<lparr>rp_hub := (case prev of None \<Rightarrow> h | Some k \<Rightarrow> upd_control k agent_conn_close h),
       rp_auth := snd (resolver_touch_last_seen pg now robot' (rp_auth s)), rp_states := st\<rparr>)" for k st pg robot'
    by (auto intro!: keeps_other keeps_auth split: option.splits)
  then show ?thesis using adm c by (simp add: handle_agent_control_connect_def Let_def)
qed (simp add: handle_agent_control_connect_def)

lemma keeps_relay_connect: "keeps s (snd (handle_agent_relay_connect env now fresh q s))"
proof (cases "agent_admit (re_uuid_ok env) (env_resolve env (rp_auth s)) q")
  case (Inr x)
  then obtain robot r where adm: "agent_admit (re_uuid_ok env) (env_resolve env (rp_auth s)) q = Inr (robot, r)"
    by (cases x) auto
  let ?c = "new_agent_conn now fresh robot 2048 q :: 'a agent_conn"
  obtain prev h where c: "connect_relay ?c (rp_hub s) = (prev, h)" by (metis prod.collapse)
  have m: "relay_msgs h = relay_msgs (rp_hub s)"
    using c relay_msgs_connect[of ?c "rp_hub s"] by (simp add: new_agent_conn_def)
  have "streams h = streams (rp_hub s)" using c by (metis snd_conv streams_ops(11))
  moreover have "hub_wf h" if "hub_wf (rp_hub s)"
    using connect_relay_wf[OF that, of ?c] c by (simp add: new_agent_conn_def)
  ultimately have h: "streams h = streams (rp_hub s)" "hub_wf (rp_hub s) \<Longrightarrow> hub_wf h" by auto
  have "relay_msgs (upd_relay k agent_conn_close h) \<subseteq> relay_msgs (rp_hub s)" for k
    using relay_msgs_upd[of agent_conn_close k h] m by simp
  then have "keeps s (s\<lparr>rp_hub := upd_relay k agent_conn_close h\<rparr>)" "keeps s (s\<lparr>rp_hub := h\<rparr>)" for k
    by (rule_tac keeps_hub[OF keeps_refl]; simp add: h m hub_wf_upd le_supI1)+
  then show ?thesis using adm c by (simp add: handle_agent_relay_connect_def Let_def split: option.splits)
qed (simp add: handle_agent_relay_connect_def)

text \<open>Ownership: every open handler has its stream in the hub, for its robot and session and with a
  queue of 512 messages, and no other streams are there; the user of each handler was
  authenticated by ops, which says that the robot is theirs.\<close>

definition stream_key_ok ::
  "relay_env \<Rightarrow> ops_client \<Rightarrow> (string \<rightharpoonup> string \<times> string \<times> nat) \<Rightarrow> (string \<times> string \<times> string \<times> string \<times> int) \<times> bool \<Rightarrow> bool" where
  "stream_key_ok env cl st k \<longleftrightarrow>
     (case k of ((x, user, robot, key, port), op) \<Rightarrow>
        x \<noteq> [] \<and> trim x = x \<and> trim robot = robot \<and> trim key = key \<and> 1 \<le> port \<and> port \<le> 65535 \<and>
        (\<exists>header. ops_relay_user (re_http env) (re_user_id env) cl header = Inr user) \<and>
        ops_robot_owned_by (re_http env) cl robot user = Inr True \<and>
        st x = (if op then Some (robot, key, 512) else None))"

definition owned_ok ::
  "relay_env \<Rightarrow> (string \<rightharpoonup> string \<times> string \<times> nat) \<times> ((string \<times> string \<times> string \<times> string \<times> int) \<times> bool) list \<times> ops_client \<Rightarrow> bool" where
  "owned_ok env v \<longleftrightarrow>
     (case v of (st, ks, cl) \<Rightarrow>
        distinct (map (fst \<circ> fst) ks) \<and> list_all (stream_key_ok env cl st) ks \<and>
        (\<forall>x. x \<notin> fst ` fst ` set ks \<longrightarrow> st x = None))"

definition relay_ok :: "relay_env \<Rightarrow> 'j relay_service \<Rightarrow> bool" where
  "relay_ok env s \<longleftrightarrow> relay_wf s \<and> owned_ok env (relay_view s)"

lemma relay_ok_new: "relay_ok env (relay_service_new a)"
  by (simp add: relay_ok_def relay_wf_def relay_service_new_def relay_view_def owned_ok_def hub_wf_new streams_new)
    (simp add: relay_msgs_def new_agent_control_hub_def)

lemma keeps_ok: "keeps s s' \<Longrightarrow> relay_ok env s \<Longrightarrow> relay_ok env s'"
  by (simp add: keeps_def relay_ok_def)

lemma owned_close:
  assumes "owned_ok env (st, ks, cl)" and "i < length ks" and "fst (fst (ks ! i)) = x"
  shows "owned_ok env (st(x := None), ks[i := (fst (ks ! i), False)], cl)"
proof -
  let ?ks = "ks[i := (fst (ks ! i), False)]"
  have ids: "map (fst \<circ> fst) ?ks = map (fst \<circ> fst) ks" by (rule nth_equalityI) (simp_all add: nth_list_update assms(2))
  have d: "distinct (map (fst \<circ> fst) ks)" using assms(1) by (simp add: owned_ok_def)
  have old: "\<exists>op'. (k, op') \<in> set ks \<and> (if fst k = x then op = False else op' = op)" if "(k, op) \<in> set ?ks" for k op
  proof -
    from that obtain j where j: "j < length ks" "?ks ! j = (k, op)" by (metis in_set_conv_nth length_list_update)
    show ?thesis
    proof (cases "j = i")
      case True
      with j assms(2) have "k = fst (ks ! i)" "op = False" by simp_all
      with assms(2,3) show ?thesis by (metis nth_mem prod.collapse)
    next
      case False
      with j have "ks ! j = (k, op)" by simp
      moreover have "map (fst \<circ> fst) ks ! j \<noteq> map (fst \<circ> fst) ks ! i"
        using d False j(1) assms(2) by (metis length_map nth_eq_iff_index_eq)
      then have "fst k \<noteq> x" using j(1) assms(2,3) \<open>ks ! j = (k, op)\<close> by simp
      ultimately show ?thesis using j(1) by (metis nth_mem)
    qed
  qed
  have set_ids: "fst ` fst ` set ?ks = fst ` fst ` set ks"
    using arg_cong[OF ids, of set] by (simp add: image_comp)
  have "stream_key_ok env cl (st(x := None)) k" if k: "k \<in> set ?ks" for k
  proof -
    obtain k' op where [simp]: "k = (k', op)" by (cases k)
    obtain op' where o': "(k', op') \<in> set ks" "if fst k' = x then op = False else op' = op" using old[of k' op] k by auto
    then have "stream_key_ok env cl st (k', op')" using assms(1) by (auto simp: owned_ok_def list_all_iff)
    then show ?thesis using o'(2) by (cases k') (simp add: stream_key_ok_def split: if_splits)
  qed
  moreover have "x \<in> fst ` fst ` set ks" using assms(2,3) by (metis image_eqI nth_mem)
  ultimately show ?thesis
    using assms(1) unfolding owned_ok_def by (simp only: prod.case ids set_ids list_all_iff) simp
qed

lemma view_return:
  assumes "i < length (rp_users s)" and "relay_view s = (st, ks, cl)"
    and "fst (fst (ks ! i)) = x" and "x \<noteq> []" and "trim x = x"
  shows "relay_view (user_return i s) = (st(x := None), ks[i := (fst (ks ! i), False)], cl)"
    and "relay_wf s \<Longrightarrow> relay_wf (user_return i s)"
proof -
  define s1 where "s1 = (case ur_phase (rp_users s ! i) of RpOpen \<Rightarrow> close_relay ''client_disconnected'' i s | _ \<Rightarrow> s)"
  have k: "keeps s s1" unfolding s1_def by (auto intro: keeps_close split: relay_phase.splits)
  then have v: "relay_view s1 = (st, ks, cl)" using assms(2) by (simp add: keeps_def)
  then have len: "i < length (rp_users s1)" using assms(1,2) by (auto simp: relay_view_def dest: map_eq_imp_length_eq)
  have ks: "ks = map user_key (rp_users s1)" "st = streams (rp_hub s1)" "cl = ta_ops (rp_auth s1)"
    using v by (simp_all add: relay_view_def)
  then have id: "ur_relay_id (rp_users s1 ! i) = x" using assms(3) len by (simp add: user_key_def)
  let ?s2 = "s1\<lparr>rp_hub := unregister_relay (ur_relay_id (rp_users s1 ! i)) (rp_hub s1)\<rparr>"
  have ret: "user_return i s = upd_user i (\<lambda>u. u\<lparr>ur_phase := RpClosed\<rparr>) ?s2"
    by (simp add: user_return_def s1_def Let_def)
  show "relay_view (user_return i s) = (st(x := None), ks[i := (fst (ks ! i), False)], cl)"
    unfolding ret using ks len id assms(4,5)
    by (simp add: relay_view_def upd_user_def streams_unregister map_update user_key_def)
  have "map fst (map user_key (rp_users (user_return i s))) = map fst (map user_key (rp_users s1))"
    unfolding ret upd_user_def using len by (intro nth_equalityI) (simp_all add: nth_list_update user_key_def)
  then have keys: "fst ` set (map user_key (rp_users (user_return i s))) = fst ` set (map user_key (rp_users s1))"
    by (metis set_map)
  have "msg_ok (map user_key (rp_users (user_return i s))) y = msg_ok (map user_key (rp_users s1)) y" for y :: "string \<times> 'a agent_control_message"
    by (rule msg_ok_keys[OF keys])
  then show "relay_wf (user_return i s)" if "relay_wf s"
    using k that by (simp add: relay_wf_def keeps_def hub_small_steps_wf ret)
qed

lemma relay_ok_key:
  assumes "relay_ok env s" and "i < length (rp_users s)"
  shows "ur_relay_id (rp_users s ! i) \<noteq> []" "trim (ur_relay_id (rp_users s ! i)) = ur_relay_id (rp_users s ! i)"
proof -
  have "user_key (rp_users s ! i) \<in> set (map user_key (rp_users s))" using assms(2) by simp
  with assms(1) show "ur_relay_id (rp_users s ! i) \<noteq> []" "trim (ur_relay_id (rp_users s ! i)) = ur_relay_id (rp_users s ! i)"
    by (auto simp: relay_ok_def relay_view_def owned_ok_def list_all_iff stream_key_ok_def user_key_def)
qed

lemma return_ok:
  assumes "relay_ok env s" and "i < length (rp_users s)"
  shows "relay_ok env (user_return i s)"
proof -
  let ?ks = "map user_key (rp_users s)" and ?x = "ur_relay_id (rp_users s ! i)"
  have x: "fst (fst (?ks ! i)) = ?x" using assms(2) by (simp add: user_key_def)
  have "relay_view s = (streams (rp_hub s), ?ks, ta_ops (rp_auth s))" by (simp add: relay_view_def)
  note r = view_return[OF assms(2) this x relay_ok_key[OF assms]]
  have "owned_ok env (streams (rp_hub s), ?ks, ta_ops (rp_auth s))" using assms(1) by (simp add: relay_ok_def relay_view_def)
  from owned_close[OF this _ x] assms show ?thesis unfolding relay_ok_def r(1) using r(2) by (simp add: relay_ok_def)
qed

lemma keeps_users: "keeps s s' \<Longrightarrow> length (rp_users s') = length (rp_users s)"
  by (auto simp: keeps_def relay_view_def dest: map_eq_imp_length_eq)

lemma keeps_return: "keeps s s' \<Longrightarrow> relay_ok env s \<Longrightarrow> i < length (rp_users s) \<Longrightarrow> relay_ok env (user_return i s')"
  using keeps_users keeps_ok return_ok by metis

lemma keeps_fail:
  "keeps s s' \<Longrightarrow> relay_ok env s \<Longrightarrow> i < length (rp_users s) \<Longrightarrow> relay_ok env (user_fail reason out i s')"
  unfolding user_fail_def by (rule keeps_return) (auto intro: keeps_user)

lemma keeps_phase:
  assumes "keeps s s'" and "i < length (rp_users s')" and "user_key (f (rp_users s' ! i)) = user_key (rp_users s' ! i)"
  shows "keeps s (upd_user i f s')"
proof -
  have "map user_key ((rp_users s')[i := f (rp_users s' ! i)]) = map user_key (rp_users s')"
    using assms(2,3) by (metis list_update_id map_update)
  then have "relay_view (upd_user i f s') = relay_view s'" by (simp add: relay_view_def upd_user_def)
  moreover from this have "relay_wf (upd_user i f s') = relay_wf s'" by (rule relay_wf_same) simp
  ultimately show ?thesis using assms(1) by (simp add: keeps_def)
qed

lemma take_ok:
  assumes ok: "relay_ok env s" and i: "i < length (rp_users s)"
  shows "relay_ok env (user_take env now errs i s)"
proof (cases "take_relay (ur_relay_id (rp_users s ! i)) (rp_hub s)")
  case (Pair mo h)
  show ?thesis
  proof (cases mo)
    case None
    with Pair ok show ?thesis by (simp add: user_take_def Let_def)
  next
    case (Some msg)
    define s1 where "s1 = s\<lparr>rp_hub := snd (consume_relay_enqueue_wait now (ur_relay_id (rp_users s ! i)) h)\<rparr>"
    have h: "streams h = streams (rp_hub s)" "hub_wf (rp_hub s) \<Longrightarrow> hub_wf h" "relay_msgs h = relay_msgs (rp_hub s)"
      using Pair by (metis snd_conv streams_take, metis snd_conv take_relay_wf, metis snd_conv relay_msgs_streams(2))
    have k1: "keeps s s1"
      unfolding s1_def by (rule keeps_hub[OF keeps_refl]) (simp_all add: h consume_wait_wf)
    have u: "rp_users s1 = rp_users s" by (simp add: s1_def)
    note opened = keeps_phase[OF k1, of i "\<lambda>u. u\<lparr>ur_phase := RpOpen, ur_reader := True\<rparr>"]
    note waiting = keeps_phase[OF k1, of i "\<lambda>u. u\<lparr>ur_phase := RpOpening (pending @ [msg])\<rparr>" for pending]
    have client: "relay_ok env (case send_to_client env err msg i s1 of (True, s2) \<Rightarrow> s2 | (False, s2) \<Rightarrow> user_return i s2)" for err
      using keeps_to_client[OF k1, of env err msg i] keeps_ok[OF _ ok] keeps_return[OF _ ok i]
      by (auto split: prod.splits bool.splits)
    have all: "relay_ok env (case send_all_to_client env errs pending i s2 of (True, s2) \<Rightarrow> s2 | (False, s2) \<Rightarrow> user_return i s2)"
      if "keeps s s2" for pending s2
      using keeps_all_to_client[OF that, of env errs pending i] keeps_ok[OF _ ok] keeps_return[OF _ ok i]
      by (auto split: prod.splits bool.splits)
    show ?thesis
    proof (cases "ur_phase (rp_users s ! i)")
      case (RpOpening pending)
      have w: "relay_ok env (upd_user i (\<lambda>u. u\<lparr>ur_phase := RpOpening (pending @ [msg])\<rparr>) s1)"
        using RpOpening i u by (intro keeps_ok[OF waiting ok]) (simp_all add: user_key_def)
      have "keeps s (upd_user i (\<lambda>u. u\<lparr>ur_phase := RpOpen, ur_reader := True\<rparr>) s1)"
        using RpOpening i u by (intro opened) (simp_all add: user_key_def)
      note a = all[OF this, of pending] and f = keeps_fail[OF k1 ok i]
      show ?thesis using w f a by (simp add: user_take_def Let_def Pair Some RpOpening s1_def)
    next
      case RpOpen
      show ?thesis using client by (simp add: user_take_def Let_def Pair Some RpOpen s1_def)
    next
      case RpClosed
      with ok show ?thesis unfolding user_take_def Let_def Pair Some by simp
    qed
  qed
qed

lemma user_events_ok:
  assumes "relay_ok env s" and "i < length (rp_users s)"
  shows "relay_ok env (user_open_timeout i s)" "relay_ok env (user_done i s)" "relay_ok env (user_tick err i s)"
    "relay_ok env (user_inbound m i s)"
proof -
  show "relay_ok env (user_open_timeout i s)"
    using assms(1) keeps_fail[OF keeps_refl assms] by (simp add: user_open_timeout_def split: relay_phase.splits)
  show "relay_ok env (user_done i s)"
    using assms(1) keeps_return[OF keeps_refl assms] by (simp add: user_done_def)
  have "relay_ok env (user_return i (upd_user i (set_close_reason reason) s))" for reason
    by (rule keeps_return[OF keeps_user[OF keeps_refl] assms]) simp
  then show "relay_ok env (user_tick err i s)"
    using assms(1) by (simp add: user_tick_def split: relay_phase.splits option.splits)
  have ends: "keeps s (close_relay ''client_reader_closed'' i
      (upd_user i (\<lambda>u. (set_close_reason reason u)\<lparr>ur_reader := False\<rparr>) s1))" if "keeps s s1" for reason s1
    using that by (intro keeps_close keeps_user) simp_all
  have sent: "keeps s s1" if "send_for_user i msg s = (b, s1)" "user_msg (rp_users s ! i) msg" for msg b s1
    using keeps_send[OF keeps_refl, of msg i s] that assms(2) by simp
  have "keeps s (user_inbound m i s)"
    using ends sent by (auto simp: user_inbound_def user_msg_def Let_def split: user_in.splits prod.splits bool.splits)
  then show "relay_ok env (user_inbound m i s)" using assms(1) by (rule keeps_ok)
qed

text \<open>A user that connects gets a stream of their own.\<close>

lemma msg_ok_more: "msg_ok ks y \<Longrightarrow> msg_ok (ks @ ks') y"
  by (auto simp: msg_ok_def split: prod.splits)

lemma owned_open:
  assumes "owned_ok env (st, ks, cl)" and "k \<notin> fst ` fst ` set ks"
    and "stream_key_ok env cl (st(k \<mapsto> (robot, key, 512))) ((k, user, robot, key, port), True)"
  shows "owned_ok env (st(k \<mapsto> (robot, key, 512)), ks @ [((k, user, robot, key, port), True)], cl)"
proof -
  have "stream_key_ok env cl (st(k \<mapsto> (robot, key, 512))) y" if y: "y \<in> set ks" for y
  proof -
    have "stream_key_ok env cl st y" using assms(1) y by (auto simp: owned_ok_def list_all_iff)
    moreover have "fst (fst y) \<noteq> k" using assms(2) y by (metis image_eqI)
    ultimately show ?thesis by (auto simp: stream_key_ok_def split: prod.splits)
  qed
  then show ?thesis using assms by (simp add: owned_ok_def list_all_iff image_comp comp_def)
qed

lemma keeps_admit: "keeps s (snd (relay_admit env now q s))"
proof -
  have "keeps s (s\<lparr>rp_hub := set_active_session ufold now r key (rp_hub s)\<rparr>)" for ufold r key
    by (rule keeps_hub[OF keeps_refl]) (simp_all add: set_active_session_wf)
  then show ?thesis by (simp add: relay_admit_def Let_def split: sum.splits option.splits)
qed

lemma relay_admit_granted:
  assumes "fst (relay_admit env now q s) = Inr (user, robot, port, key)"
  shows "ops_relay_user (re_http env) (re_user_id env) (ta_ops (rp_auth s)) (rq_auth_header q) = Inr user"
    "ops_robot_owned_by (re_http env) (ta_ops (rp_auth s)) robot user = Inr True"
    "robot = trim (rq_robot_id q)" "1 \<le> port" "port \<le> 65535" "key \<noteq> []" "trim key = key"
    "has_relay_connection robot (rp_hub s)" "go_atoi (trim (rq_port q)) = Some port"
  using assms by (auto simp: relay_admit_def Let_def trim_idem split: sum.splits option.splits if_splits)

lemma connect_ok:
  assumes ok: "relay_ok env s" and f: "fresh_relay fresh s"
  shows "relay_ok env (snd (handle_relay_ws env now fresh q s))"
proof (cases "relay_admit env now q s")
  case (Pair res s1)
  have k: "keeps s s1" using keeps_admit[of s env now q] Pair by simp
  note ok1 = keeps_ok[OF k ok]
  show ?thesis
  proof (cases res)
    case (Inl e)
    with Pair ok1 show ?thesis by (simp add: handle_relay_ws_def)
  next
    case (Inr x)
    obtain user robot port key where [simp]: "res = Inr (user, robot, port, key)" using Inr by (cases x) auto
    note g = relay_admit_granted[of env now q s user robot port key]
    define u :: "'a user_relay" where "u = \<lparr>ur_user = user, ur_robot_id = robot, ur_relay_id = fresh, ur_session_key = key, ur_port = port,
                     ur_phase = RpOpening [], ur_close_reason = None, ur_reader = False,
                     ur_done = False, ur_streak = 0, ur_out = []\<rparr>"
    define s2 where "s2 = s1\<lparr>rp_hub := register_relay fresh robot key 512 (rp_hub s1), rp_users := rp_users s1 @ [u]\<rparr>"
    have v: "relay_view s1 = relay_view s" using k by (simp add: keeps_def)
    have fr: "fresh \<noteq> []" "trim fresh = fresh" "fresh \<notin> fst ` fst ` set (map user_key (rp_users s1))"
      using f v by (auto simp: fresh_relay_def list_all_iff relay_view_def user_key_def dest!: arg_cong[of _ _ set])
    have g: "stream_key_ok env (ta_ops (rp_auth s1)) ((streams (rp_hub s1))(fresh \<mapsto> (robot, key, 512))) ((fresh, user, robot, key, port), True)"
      using g v fr Pair by (auto simp: stream_key_ok_def relay_view_def trim_idem)
    have "owned_ok env (streams (rp_hub s1), map user_key (rp_users s1), ta_ops (rp_auth s1))"
      using ok1 by (simp add: relay_ok_def relay_view_def)
    note o2 = owned_open[OF this fr(3) g]
    have tr: "trim robot = robot" "trim key = key" using g by (simp_all add: stream_key_ok_def)
    have "relay_view s2 = ((streams (rp_hub s1))(fresh \<mapsto> (robot, key, 512)),
        map user_key (rp_users s1) @ [((fresh, user, robot, key, port), True)], ta_ops (rp_auth s1))"
      by (simp add: relay_view_def s2_def streams_register fr tr user_key_def u_def)
    moreover have "relay_wf s2"
      using ok1 by (auto simp: relay_ok_def relay_wf_def s2_def hub_small_steps_wf intro: msg_ok_more)
    ultimately have ok2: "relay_ok env s2" using o2 by (simp add: relay_ok_def)
    define m :: "'a agent_control_message" where
      "m = acm_zero\<lparr>acm_type := ''relay_open'', acm_relay_id := fresh, acm_port := port, acm_session_key := key\<rparr>"
    obtain b s3 where send: "send_for_user (length (rp_users s1)) m s2 = (b, s3)" by (metis prod.collapse)
    have "user_msg u m" by (simp add: user_msg_def u_def m_def)
    then have k3: "keeps s2 s3"
      using keeps_send[OF keeps_refl, of m "length (rp_users s1)" s2] send by (simp add: s2_def)
    note fin = keeps_ok[OF k3 ok2] and failed = keeps_fail[OF k3 ok2, of "length (rp_users s1)"]
    show ?thesis
      using ok1 fin failed send[unfolded s2_def u_def m_def] Pair
      by (cases b) (simp_all add: handle_relay_ws_def Let_def s2_def)
  qed
qed

lemma relay_step_ok: "relay_ok env s \<Longrightarrow> relay_ok env (relay_step env s e)"
proof (cases e)
  case (ReUserConnect now fresh q)
  moreover assume "relay_ok env s"
  ultimately show ?thesis by (simp add: connect_ok)
next
  case (ReHub e)
  moreover assume "relay_ok env s"
  moreover have "keeps s (s\<lparr>rp_hub := hub_step (re_ulow env) (re_ufold env) (rp_hub s) e\<rparr>)" if "outside_event e"
    using that by (intro keeps_hub[OF keeps_refl]) (simp_all add: streams_outside hub_wf_outside relay_msgs_outside)
  ultimately show ?thesis by (auto intro: keeps_ok)
qed (auto simp: on_control_def on_relay_def on_user_def take_ok user_events_ok
    intro: keeps_ok[OF keeps_control_connect] keeps_ok[OF keeps_relay_connect] keeps_ok[OF keeps_control_inbound]
      keeps_ok[OF keeps_relay_inbound] keeps_ok[OF keeps_writers(1)] keeps_ok[OF keeps_writers(2)]
      keeps_ok[OF keeps_writers(3)] keeps_ok[OF keeps_writers(4)] keeps_ok[OF keeps_control_end]
      keeps_ok[OF keeps_relay_end] keeps_ok[OF keeps_reports(1)] keeps_ok[OF keeps_reports(2)])

interpretation relay_svc: step_system "relay_step env" "relay_ok env"
  by unfold_locales (rule relay_step_ok)

text \<open>The service keeps the ops client it was started with.\<close>

lemma relay_auth_frame [simp]:
  "rp_auth (upd_user i f s) = rp_auth s" "rp_auth (snd (send_for_user i m s)) = rp_auth s"
  "rp_auth (close_relay reason i s) = rp_auth s" "rp_auth (user_return i s) = rp_auth s"
  "rp_auth (user_fail reason out i s) = rp_auth s"
proof -
  show u: "rp_auth (upd_user i f s) = rp_auth s" for i f and s :: "'a relay_service" by (simp add: upd_user_def)
  show m: "rp_auth (snd (send_for_user i m s)) = rp_auth s" for m and s :: "'a relay_service"
    by (simp add: send_for_user_def split: prod.splits)
  show c: "rp_auth (close_relay reason i s) = rp_auth s" for reason and s :: "'a relay_service"
    by (simp add: close_relay_def Let_def u m)
  show r: "rp_auth (user_return i s) = rp_auth s" for s :: "'a relay_service"
    by (simp add: user_return_def Let_def u c split: relay_phase.splits)
  show "rp_auth (user_fail reason out i s) = rp_auth s" by (simp add: user_fail_def u r)
qed

lemma relay_ops_frame:
  "keeps s s' \<Longrightarrow> ta_ops (rp_auth s') = ta_ops (rp_auth s)"
  by (simp add: keeps_def relay_view_def)

lemma send_auth: "send_for_user i m s = (b, s') \<Longrightarrow> rp_auth s' = rp_auth s"
  by (metis relay_auth_frame(2) snd_conv)

lemma to_client_auth: "rp_auth (snd (send_to_client env err m i s)) = rp_auth s"
  by (simp add: send_to_client_def Let_def split: prod.splits bool.splits option.splits)

lemma all_to_client_auth: "rp_auth (snd (send_all_to_client env errs ms i s)) = rp_auth s"
proof (induction env errs ms i s rule: send_all_to_client.induct)
  case (2 env errs m ms i s)
  obtain b s1 where c: "send_to_client env (case errs of [] \<Rightarrow> None | e # _ \<Rightarrow> e) m i s = (b, s1)" by fastforce
  then have "rp_auth s1 = rp_auth s" by (metis snd_conv to_client_auth)
  with c 2[OF c[symmetric]] show ?case by (cases b) simp_all
qed simp

lemma take_ops: "rp_auth (user_take env now errs i s) = rp_auth s"
proof (cases "take_relay (ur_relay_id (rp_users s ! i)) (rp_hub s)")
  case (Pair mo h)
  have c: "rp_auth (case send_to_client env err m i t of (True, s2) \<Rightarrow> s2 | (False, s2) \<Rightarrow> user_return i s2) = rp_auth t"
    for err m and t :: "'a relay_service"
    using to_client_auth[of env err m i t] by (auto split: prod.splits bool.splits)
  have a: "rp_auth (case send_all_to_client env errs ms i t of (True, s2) \<Rightarrow> s2 | (False, s2) \<Rightarrow> user_return i s2) = rp_auth t"
    for ms and t :: "'a relay_service"
    using all_to_client_auth[of env errs ms i t] by (auto split: prod.splits bool.splits)
  show ?thesis
    unfolding user_take_def Let_def Pair prod.case
    by (cases mo; cases "ur_phase (rp_users s ! i)") (simp_all add: c a)
qed

lemma connect_ops: "ta_ops (rp_auth (snd (handle_relay_ws env now fresh q s))) = ta_ops (rp_auth s)"
proof -
  obtain res s1 where adm: "relay_admit env now q s = (res, s1)" by fastforce
  then have s1: "ta_ops (rp_auth s1) = ta_ops (rp_auth s)" using relay_ops_frame[OF keeps_admit] by (metis snd_conv)
  have "rp_auth (snd (case send_for_user i m t of (True, s3) \<Rightarrow> (x, s3) | (False, s3) \<Rightarrow> (x, user_fail reason out i s3)))
      = rp_auth t" for i m reason out and x :: "refusal + nat option" and t :: "'a relay_service"
    by (auto dest: send_auth split: prod.splits bool.splits)
  with adm s1 show ?thesis by (simp add: handle_relay_ws_def Let_def split: sum.splits)
qed

lemmas kept_ops = keeps_control_connect[THEN relay_ops_frame] keeps_relay_connect[THEN relay_ops_frame]
  keeps_control_inbound[THEN relay_ops_frame] keeps_relay_inbound[THEN relay_ops_frame] keeps_writers[THEN relay_ops_frame]
  keeps_control_end[THEN relay_ops_frame] keeps_relay_end[THEN relay_ops_frame] keeps_reports[THEN relay_ops_frame]

lemma relay_step_ops: "ta_ops (rp_auth (relay_step env s e)) = ta_ops (rp_auth s)"
proof (cases e)
  case (ReUserInbound m i)
  have "rp_auth (user_inbound m i s) = rp_auth s"
    by (auto simp: user_inbound_def Let_def dest: send_auth split: user_in.splits prod.splits bool.splits)
  with ReUserInbound show ?thesis by (simp add: on_user_def)
qed (simp_all add: on_control_def on_relay_def on_user_def take_ops connect_ops user_open_timeout_def user_done_def user_tick_def
    kept_ops split: relay_phase.splits option.splits)

lemma relay_run_ops: "ta_ops (rp_auth (run_steps (relay_step env) s es)) = ta_ops (rp_auth s)"
  by (induction es arbitrary: s) (simp_all add: relay_step_ops)

text \<open>C19: Only owners reach a robot through the relay. However the endpoints interleave, whatever is
  queued on a robot's relay channel, other than the closing of a stream, opens a stream of, or
  carries data from, a user's connection for exactly that robot, session and port; that user was
  authenticated by ops and owns the robot according to ops. Every stream in the hub belongs to one
  such connection that is still open, and holds at most 512 messages.\<close>

theorem relay_traffic_from_owners:
  assumes "s = run_steps (relay_step env) (relay_service_new a) es"
  shows "(\<forall>c \<in> set (hb_relay_store (rp_hub s)). \<forall>m \<in> set (ac_send c). acm_type m \<noteq> ''relay_close'' \<longrightarrow>
      (\<exists>u \<in> set (rp_users s). ur_relay_id u = acm_relay_id m \<and> ur_robot_id u = ac_robot_id c \<and>
         ur_session_key u = acm_session_key m \<and> (acm_type m = ''relay_open'' \<longrightarrow> acm_port m = ur_port u))) \<and>
    (\<forall>x r. hb_relays (rp_hub s) x = Some r \<longrightarrow> length (rl_ch r) \<le> 512 \<and>
      (\<exists>u \<in> set (rp_users s). ur_relay_id u = x \<and> ur_phase u \<noteq> RpClosed \<and> ur_robot_id u = rl_robot_id r \<and>
         ur_session_key u = rl_session_key r)) \<and>
    (\<forall>u \<in> set (rp_users s).
      (\<exists>header. ops_relay_user (re_http env) (re_user_id env) (ta_ops a) header = Inr (ur_user u)) \<and>
      ops_robot_owned_by (re_http env) (ta_ops a) (ur_robot_id u) (ur_user u) = Inr True \<and>
      1 \<le> ur_port u \<and> ur_port u \<le> 65535) \<and>
    distinct (map ur_relay_id (rp_users s))"
proof -
  have ok: "relay_ok env s" unfolding assms by (rule relay_svc.run_inv[OF relay_ok_new])
  have cl: "ta_ops (rp_auth s) = ta_ops a" unfolding assms relay_run_ops by (simp add: relay_service_new_def)
  let ?ks = "map user_key (rp_users s)"
  have keys: "stream_key_ok env (ta_ops a) (streams (rp_hub s)) (user_key u)" if "u \<in> set (rp_users s)" for u
    using ok that cl by (auto simp: relay_ok_def owned_ok_def relay_view_def list_all_iff)
  have user: "\<exists>u \<in> set (rp_users s). k = (ur_relay_id u, ur_user u, ur_robot_id u, ur_session_key u, ur_port u)"
    if "k \<in> fst ` set ?ks" for k using that by (auto simp: user_key_def)
  have msgs: "msg_ok ?ks (ac_robot_id c, m)" if "c \<in> set (hb_relay_store (rp_hub s))" "m \<in> set (ac_send c)" for c m
    using ok that by (auto simp: relay_ok_def relay_wf_def relay_msgs_def)
  have "\<exists>u \<in> set (rp_users s). ur_relay_id u = acm_relay_id m \<and> ur_robot_id u = ac_robot_id c \<and>
         ur_session_key u = acm_session_key m \<and> (acm_type m = ''relay_open'' \<longrightarrow> acm_port m = ur_port u)"
    if m: "c \<in> set (hb_relay_store (rp_hub s))" "m \<in> set (ac_send c)" "acm_type m \<noteq> ''relay_close''" for c m
  proof -
    obtain user robot port where k: "(acm_relay_id m, user, robot, acm_session_key m, port) \<in> fst ` set ?ks"
      "trim robot = ac_robot_id c" "acm_type m = ''relay_open'' \<longrightarrow> acm_port m = port"
      using msgs[OF m(1,2)] m(3) unfolding msg_ok_def closings_def prod.case mem_Collect_eq snd_conv by metis
    from user[OF k(1)] obtain u where u: "u \<in> set (rp_users s)" "ur_relay_id u = acm_relay_id m"
      "robot = ur_robot_id u" "ur_session_key u = acm_session_key m" "port = ur_port u" by auto
    moreover have "trim robot = robot" using keys[OF u(1)] u(3) by (simp add: stream_key_ok_def user_key_def)
    ultimately show ?thesis using k(2,3) by auto
  qed
  moreover have "length (rl_ch r) \<le> 512 \<and>
      (\<exists>u \<in> set (rp_users s). ur_relay_id u = x \<and> ur_phase u \<noteq> RpClosed \<and> ur_robot_id u = rl_robot_id r \<and>
         ur_session_key u = rl_session_key r)" if r: "hb_relays (rp_hub s) x = Some r" for x r
  proof -
    have st: "streams (rp_hub s) x = Some (stream_of r)" using r by (simp add: streams_def)
    moreover have "\<forall>y. y \<notin> fst ` fst ` set ?ks \<longrightarrow> streams (rp_hub s) y = None"
      using ok by (simp add: relay_ok_def owned_ok_def relay_view_def)
    ultimately have "x \<in> fst ` fst ` set ?ks" by (metis option.distinct(1))
    then obtain u where u: "u \<in> set (rp_users s)" "ur_relay_id u = x" by (auto simp: user_key_def)
    moreover have "queue_ok r" using ok r by (auto simp: relay_ok_def relay_wf_def hub_wf_def)
    ultimately show ?thesis using keys[OF u(1)] st
      by (auto simp: stream_key_ok_def user_key_def stream_of_def queue_ok_def split: if_splits)
  qed
  moreover have "distinct (map ur_relay_id (rp_users s))"
    using ok by (simp add: relay_ok_def owned_ok_def relay_view_def comp_def user_key_def)
  ultimately show ?thesis using keys by (auto simp: stream_key_ok_def user_key_def)
qed

definition demo_relay_env :: relay_env where
  "demo_relay_env =
     \<lparr>re_sha = (\<lambda>b. b), re_pg = Inr,
      re_http = (\<lambda>url secret b. case b of
         OpsAuthzUser h \<Rightarrow> if h = ''Bearer ann'' then OpsStatus 200 (as_bytes ''ann'') else OpsStatus 401 []
       | OpsAuthzOwns r u \<Rightarrow> if r = ''r'' \<and> u = ''ann'' then OpsStatus 200 [] else OpsStatus 404 []
       | OpsAuthzRobot r k \<Rightarrow> if k = ''key'' then OpsStatus 200 [] else OpsStatus 401 []
       | _ \<Rightarrow> OpsStatus 404 []),
      re_user_id = (\<lambda>b. Inr (if b = as_bytes ''ann'' then ''ann'' else ''other'')), re_uuid_ok = (\<lambda>_. True),
      re_ulow = id, re_ufold = (\<lambda>_ _. False), re_getenv = (\<lambda>_. []),
      re_rfc = \<lparr>rf_format = (\<lambda>_. []), rf_parse = (\<lambda>_. None)\<rparr>\<rparr>"

definition demo_relay_events :: "nat relay_event list" where
  "demo_relay_events =
     [ReRelayConnect 1 ''s'' \<lparr>aq_robot_id = ''r'', aq_session_id = [], aq_header_key = ''key'', aq_query_key = [],
        aq_client_ip = [], aq_upgraded = True\<rparr>,
      ReUserConnect 2 ''x'' \<lparr>rq_auth_header = ''Bearer ann'', rq_robot_id = ''r'', rq_port = ''22'', rq_session_key = ''k'',
        rq_upgraded = True\<rparr>,
      ReUserConnect 3 ''y'' \<lparr>rq_auth_header = ''Bearer bob'', rq_robot_id = ''r'', rq_port = ''22'', rq_session_key = ''k'',
        rq_upgraded = True\<rparr>]"

lemmas demo_relay_eval = demo_relay_env_def relay_service_new_def ops_new_def relay_step.simps
  handle_agent_relay_connect_def agent_admit_def env_resolve_def resolve_control_def ops_verify_robot_api_key_def ops_post_def
  pick_api_key_def new_agent_conn_def connect_relay_def register_relay_conn_def upd_relay_def new_agent_control_hub_def
  fresh_relay_def handle_relay_ws_def relay_admit_def ops_relay_user_def ops_robot_owned_by_def has_relay_connection_def
  active_session_def set_active_session_def preempt_relays_for_session_def get_or_def register_relay_def send_for_user_def
  hub_send_relay_def conn_offer_def chan_offer_def Let_def

lemma demo_relay_strings:
  "trim ''r'' = ''r''" "trim ''x'' = ''x''" "trim ''k'' = ''k''" "trim ''key'' = ''key''" "trim ''22'' = ''22''" "trim [] = []"
  "trim ''y'' = ''y''" "trim ''ack'' = ''ack''" "go_atoi ''22'' = Some 22"
  by code_simp+

theorem relay_traffic_from_owners_witness:
  "let a = \<lparr>ta_store = None, ta_ops = ops_new [] []\<rparr>;
       s = run_steps (relay_step demo_relay_env) (relay_service_new a) demo_relay_events
   in map (map acm_type \<circ> ac_send) (hb_relay_store (rp_hub s)) = [[''relay_open'']] \<and>
      map ur_relay_id (rp_users s) = [''x''] \<and>
      ops_robot_owned_by (re_http demo_relay_env) (ta_ops a) (ur_robot_id (hd (rp_users s))) (ur_user (hd (rp_users s))) = Inr True"
proof -
  let ?a = "\<lparr>ta_store = None, ta_ops = ops_new [] []\<rparr>"
  let ?s = "run_steps (relay_step demo_relay_env) (relay_service_new ?a) demo_relay_events"
  have run: "map (map acm_type \<circ> ac_send) (hb_relay_store (rp_hub ?s)) = [[''relay_open'']]" "map ur_relay_id (rp_users ?s) = [''x'']"
    by (simp_all add: demo_relay_events_def demo_relay_eval demo_relay_strings)
  then have "hd (rp_users ?s) \<in> set (rp_users ?s)" by (intro hd_in_set) auto
  with run show ?thesis
    using relay_traffic_from_owners[of ?s demo_relay_env ?a demo_relay_events, OF refl] by (simp add: Let_def)
qed

section \<open>Agents and their keys\<close>

context robot_resolver
begin

lemma admitted_as_itself:
  "agent_admit uuid_ok resolve q = Inr (robot, r) \<Longrightarrow>
     ar_id r = robot \<and> robot = trim (aq_robot_id q) \<and> robot \<noteq> [] \<and>
     resolve robot (pick_api_key (aq_header_key q) (aq_query_key q)) = Inr (Some r)"
  by (auto simp: agent_admit_def Let_def resolves_itself split: if_splits sum.splits option.splits)

end

lemma env_admitted:
  assumes "agent_admit (re_uuid_ok env) (env_resolve env a) q = Inr (robot, r)"
  shows "ar_id r = robot" "robot = trim (aq_robot_id q)" "trim robot = robot" "robot \<noteq> []"
    "verify_robot_api_key (re_sha env) (re_pg env) (re_http env) a robot (pick_api_key (aq_header_key q) (aq_query_key q)) = Inr True"
proof -
  note adm = tunnel.admitted_as_itself[OF assms[unfolded env_resolve_def]]
  show "ar_id r = robot" "robot = trim (aq_robot_id q)" "robot \<noteq> []" using adm by blast+
  then show "trim robot = robot" by (metis trim_idem)
  show "verify_robot_api_key (re_sha env) (re_pg env) (re_http env) a robot (pick_api_key (aq_header_key q) (aq_query_key q)) = Inr True"
    unfolding resolve_agrees_verify[symmetric] using adm by auto
qed

text \<open>C21: A robot's control channel is taken only with the robot's own key. When a connection gets the
  channel, the key it presented was verified for the robot it names; it then holds that robot's
  channel, and no other robot's channel or reported state is affected. Without a verified key
  nothing changes at all.\<close>

theorem control_channel_needs_key:
  assumes "handle_agent_control_connect env now fresh q s = (out, s')" and "robot = trim (aq_robot_id q)"
    and "verified = verify_robot_api_key (re_sha env) (re_pg env) (re_http env) (rp_auth s) robot
           (pick_api_key (aq_header_key q) (aq_query_key q))"
  shows "(verified \<noteq> Inr True \<longrightarrow> s' = s \<and> (\<exists>e. out = NotAdmitted e)) \<and>
    (\<forall>p. out = Attached p \<longrightarrow> hb_conns (rp_hub s') robot = Some p) \<and>
    (\<forall>other. other \<noteq> robot \<longrightarrow>
       hb_conns (rp_hub s') other = hb_conns (rp_hub s) other \<and> rp_states s' other = rp_states s other)"
proof (cases "agent_admit (re_uuid_ok env) (env_resolve env (rp_auth s)) q")
  case (Inl e)
  with assms(1) show ?thesis by (auto simp: handle_agent_control_connect_def)
next
  case (Inr x)
  obtain robot' r where x: "x = (robot', r)" by fastforce
  note adm = env_admitted[OF Inr[unfolded x]]
  have r: "robot' = robot" "verified = Inr True" "ar_id r = robot" "trim robot = robot" using adm assms(2,3) by simp_all
  have other: "upsert_control_connected clk robot pub loc nt t st other = st other"
    "record_control_contention clk robot i j pol reason t st other = st other"
    if "other \<noteq> robot" for clk pub loc nt t st other i j pol reason
    using conn_apply_other[of "CuConnected robot pub loc nt t" other clk st]
      conn_apply_other[of "CuContention robot i j pol reason t" other clk st] that r(4) by simp_all
  show ?thesis
    using assms(1) Inr x r other
    by (auto simp: handle_agent_control_connect_def new_agent_conn_def connect_control_def register_with_policy_def
        upd_control_def Let_def split: if_splits option.splits)
qed

theorem control_channel_needs_key_witness:
  "let s = relay_service_new \<lparr>ta_store = None, ta_ops = ops_new [] []\<rparr> :: nat relay_service;
       q = (\<lambda>key. \<lparr>aq_robot_id = '' r'', aq_session_id = [], aq_header_key = key, aq_query_key = [],
              aq_client_ip = [], aq_upgraded = True\<rparr>);
       good = handle_agent_control_connect demo_relay_env 1 ''s'' (q ''key'') s;
       bad = handle_agent_control_connect demo_relay_env 1 ''s'' (q ''k'') s
   in fst good = Attached 0 \<and> hb_conns (rp_hub (snd good)) ''r'' = Some 0 \<and> snd bad = s"
proof -
  let ?s = "relay_service_new \<lparr>ta_store = None, ta_ops = ops_new [] []\<rparr> :: nat relay_service"
  let ?q = "\<lambda>key. \<lparr>aq_robot_id = '' r'', aq_session_id = [], aq_header_key = key, aq_query_key = [],
              aq_client_ip = [], aq_upgraded = True\<rparr>"
  let ?h = "\<lambda>key. handle_agent_control_connect demo_relay_env 1 ''s'' (?q key) ?s"
  have r: "trim '' r'' = ''r''" by code_simp
  have "fst (?h ''key'') = Attached 0"
    by (simp add: handle_agent_control_connect_def demo_relay_eval demo_relay_strings r connect_control_def
        register_with_policy_def current_concurrency_policy_def normalize_concurrency_policy_def reject_new_def)
  moreover have "verify_robot_api_key (re_sha demo_relay_env) (re_pg demo_relay_env) (re_http demo_relay_env) (rp_auth ?s) ''r'' ''k'' = Inr False"
    by (simp add: verify_robot_api_key_def demo_relay_eval)
  ultimately show ?thesis
    using control_channel_needs_key[of demo_relay_env 1 "''s''" "?q ''key''" ?s "Attached 0" "snd (?h ''key'')", OF _ refl refl]
      control_channel_needs_key[of demo_relay_env 1 "''s''" "?q ''k''" ?s "fst (?h ''k'')" "snd (?h ''k'')", OF _ refl refl]
    by (simp add: r pick_api_key_def demo_relay_strings prod_eq_iff Let_def)
qed

text \<open>The end of a control connection is reported after it is unregistered: an agent that reconnects in
  between is reported as disconnected although it holds the channel.\<close>

lemma reconnect_reported_down:
  assumes "p \<in> set (rp_leaving s)" and "robot = ac_robot_id (hb_control_store (rp_hub s) ! p)"
    and "trim robot = robot" and "robot \<noteq> []" and "rp_states s robot = Some st" and "has_connection robot (rp_hub s)"
  shows "has_connection robot (rp_hub (control_report_down now p s)) \<and>
    (\<exists>st'. rp_states (control_report_down now p s) robot = Some st' \<and> \<not> rrs_control_connected st')"
  using assms by (simp add: control_report_down_def set_control_disconnected_def Let_def)
end
