(* ===== verification/Relay_Flow.thy ===== *)
theory Relay_Flow
  imports Relay_Endpoint_Laws "HOL-Library.Sublist"
begin

text \<open>
  The data of relay streams: what a user's connection is sent, out of what the agent sends for the
  stream, however the endpoints interleave.
\<close>

section \<open>Payloads\<close>

definition relay_payload :: "'j agent_control_message \<Rightarrow> bytes list" where
  "relay_payload m =
     (if trim (acm_type m) = ''relay_data'' \<and> trim (acm_data m) \<noteq> [] \<and> snd (base64_decode (trim (acm_data m)))
      then [fst (base64_decode (trim (acm_data m)))] else [])"

definition relay_payloads :: "'j agent_control_message list \<Rightarrow> bytes list" where
  "relay_payloads ms = concat (map relay_payload ms)"

fun binary :: "ws_out \<Rightarrow> bytes list" where
  "binary (WsBinary d) = [d]"
| "binary (WsClose code reason) = []"

definition user_written :: "ws_out list \<Rightarrow> bytes list" where
  "user_written out = concat (map binary out)"

lemma relay_payloads_simps [simp]:
  "relay_payloads [] = []" "relay_payloads (m # ms) = relay_payload m @ relay_payloads ms" "relay_payloads (ms @ ms') = relay_payloads ms @ relay_payloads ms'"
  by (simp_all add: relay_payloads_def)

lemma user_written_simps [simp]:
  "user_written [] = []" "user_written (out @ out') = user_written out @ user_written out'" "user_written [w] = binary w"
  by (simp_all add: user_written_def)

lemma relay_payload_close [simp]: "trim (acm_type m) \<noteq> ''relay_data'' \<Longrightarrow> relay_payload m = []"
  by (simp add: relay_payload_def)

lemma subseq_front [simp]: "subseq xs (xs @ ys)"
  by (induction xs) simp_all

lemma relay_payloads_drop: "subseq (relay_payloads (tl ms)) (relay_payloads ms)"
  by (cases ms) auto

text \<open>What an agent encodes is what its message carries.\<close>

lemma visible_equals: "visible (CHR ''='')"
  by code_simp

lemma base64_visible: "list_all visible (base64_std d)"
  by (induction d rule: base64_std.induct) (simp_all add: Let_def visible_equals)

lemma trim_base64 [simp]: "trim (base64_std d) = base64_std d"
proof (cases "d = []")
  case True
  have "trim [] = []" by code_simp
  with True show ?thesis by simp
next
  case False
  then have "base64_std d \<noteq> []" by simp
  then show ?thesis using base64_visible[of d]
    by (intro trim_visible) (simp_all add: list_all_iff)
qed

lemma relay_payload_encoded:
  "trim (acm_type m) = ''relay_data'' \<Longrightarrow> acm_data m = base64_std d \<Longrightarrow> d \<noteq> [] \<Longrightarrow> relay_payload m = [d]"
  by (simp add: relay_payload_def)

section \<open>Queues\<close>

definition queue_of :: "'j hub \<Rightarrow> string \<Rightarrow> 'j agent_control_message list" where
  "queue_of h x = (case hb_relays h x of None \<Rightarrow> [] | Some r \<Rightarrow> rl_ch r)"

lemma queue_cong: "hb_relays h' = hb_relays h \<Longrightarrow> queue_of h' = queue_of h"
  by (simp add: queue_of_def fun_eq_iff)

lemma queue_ops [simp]:
  "queue_of (snd (hub_send r m h)) = queue_of h"
  "queue_of (snd (hub_send_relay r m h)) = queue_of h"
  "queue_of (snd (clear_active_session_if_match r key h)) = queue_of h"
  "queue_of (snd (deliver_response q resp h)) = queue_of h"
  "queue_of (snd (await_response e q ch t h)) = queue_of h"
  "queue_of (upd_control p f h) = queue_of h"
  "queue_of (upd_relay p f h) = queue_of h"
  "queue_of (snd (hub_unregister p h)) = queue_of h"
  "queue_of (snd (unregister_relay_conn p h)) = queue_of h"
  "queue_of (snd (connect_control ulow c policy h)) = queue_of h"
  "queue_of (snd (connect_relay c h)) = queue_of h"
  by (rule queue_cong; simp add: hub_send_def hub_send_relay_def clear_active_session_if_match_def deliver_response_def
      await_response_def upd_control_def upd_relay_def hub_unregister_def unregister_relay_conn_def connect_control_def
      connect_relay_def register_with_policy_def register_relay_conn_def Let_def split: option.splits list.splits)+

lemma queue_start_request [simp]: "queue_of (snd (start_request r q mk h)) = queue_of h"
  by (rule queue_cong) (auto simp: start_request_def hub_send_def upd_control_def Let_def
      split: prod.splits bool.splits option.splits)

lemma queue_consume [simp]: "queue_of (snd (consume_relay_enqueue_wait now x h)) = queue_of h"
  by (auto simp: consume_relay_enqueue_wait_def queue_of_def pop_enqueue_timestamp_def fun_eq_iff Let_def
      split: option.splits prod.splits list.splits)

lemma queue_take:
  "take_relay x h = (mo, h') \<Longrightarrow>
     queue_of h' = (case mo of None \<Rightarrow> queue_of h | Some m \<Rightarrow> (queue_of h)(x := tl (queue_of h x))) \<and>
     (\<forall>m. mo = Some m \<longrightarrow> queue_of h x = m # tl (queue_of h x))"
  by (auto simp: take_relay_def queue_of_def fun_eq_iff split: option.splits list.splits)

lemma queue_register: "queue_of (register_relay x r key n h) = (if trim x = [] then queue_of h else (queue_of h)(trim x := []))"
  by (auto simp: register_relay_def queue_of_def fun_eq_iff)

lemma queue_unregister: "queue_of (unregister_relay x h) = (if trim x = [] then queue_of h else (queue_of h)(trim x := []))"
  by (auto simp: unregister_relay_def queue_of_def fun_eq_iff)

text \<open>Queueing a message loses the oldest one at most.\<close>

lemma enqueue_ch: "rl_enqueue m t r = (b, r') \<Longrightarrow> rl_ch r' = (if b then rl_ch r @ [m] else rl_ch r)"
  by (auto simp: rl_enqueue_def chan_offer_def split: if_splits)

lemma drop_oldest_ch: "drop_oldest_queued_message r = (b, r') \<Longrightarrow> rl_ch r' = tl (rl_ch r)"
  by (auto simp: drop_oldest_queued_message_def split: list.splits)

lemma drop_oldest_tl [simp]: "rl_ch (snd (drop_oldest_queued_message r)) = tl (rl_ch r)"
  by (metis drop_oldest_ch prod.collapse)

lemma deliver_to_ch: "subseq (relay_payloads (rl_ch (snd (deliver_to now m r)))) (relay_payloads (rl_ch r) @ relay_payload m)"
  using relay_payloads_drop[of "rl_ch r"]
  by (auto simp: deliver_to_def dest!: enqueue_ch drop_oldest_ch split: prod.splits bool.splits if_splits)

lemma deliver_to_chD:
  "deliver_to now m r = (res, r') \<Longrightarrow> subseq (relay_payloads (rl_ch r')) (relay_payloads (rl_ch r) @ relay_payload m)"
  using deliver_to_ch[of now m r] by simp

lemma preempt_ch:
  "trim (acm_type m) \<noteq> ''relay_data'' \<Longrightarrow> subseq (relay_payloads (rl_ch (preempt_relay now m r))) (relay_payloads (rl_ch r))"
  using relay_payloads_drop[of "rl_ch r"]
  by (auto simp: preempt_relay_def dest!: enqueue_ch drop_oldest_ch split: prod.splits bool.splits)

lemma queue_deliver:
  "subseq (relay_payloads (queue_of (snd (deliver_relay now m h)) x))
     (relay_payloads (queue_of h x) @ (if trim (acm_relay_id m) = x then relay_payload m else []))"
  by (auto simp: deliver_relay_def queue_of_def Let_def dest!: deliver_to_chD split: option.splits prod.splits)

lemma queue_attach: "subseq (relay_payloads (queue_of (set_active_session ufold now r key h) x)) (relay_payloads (queue_of h x))"
proof -
  have "trim (acm_type (preempt_message x k)) \<noteq> ''relay_data''" for k :: string and x
    by (simp add: preempt_message_def) code_simp
  then show ?thesis
    using preempt_ch[of "preempt_message x (trim key)" now]
    by (auto simp: set_active_session_def preempt_relays_for_session_def queue_of_def trim_idem Let_def split: option.splits)
qed

section \<open>What a handler has sent and still holds\<close>

definition download :: "'j relay_service \<Rightarrow> nat \<Rightarrow> bytes list" where
  "download s i =
     (let u = rp_users s ! i; q = relay_payloads (queue_of (rp_hub s) (ur_relay_id u)) in
      user_written (ur_out u) @
      (case ur_phase u of RpOpening pending \<Rightarrow> relay_payloads pending @ q | RpOpen \<Rightarrow> q | RpClosed \<Rightarrow> []))"

definition stream_ids :: "'j relay_service \<Rightarrow> string list" where
  "stream_ids s = map ur_relay_id (rp_users s)"

definition ids_ok :: "'j relay_service \<Rightarrow> bool" where
  "ids_ok s \<longleftrightarrow> distinct (stream_ids s) \<and> list_all (\<lambda>x. trim x = x \<and> x \<noteq> []) (stream_ids s)"

definition flows :: "nat \<Rightarrow> 'j relay_service \<Rightarrow> 'j relay_service \<Rightarrow> bytes list \<Rightarrow> bool" where
  "flows i s s' a \<longleftrightarrow> stream_ids s' = stream_ids s \<and> subseq (download s' i) (download s i @ a)"

lemma flows_refl [simp]: "flows i s s []"
  by (simp add: flows_def)

lemma flows_trans: "flows i s s1 a \<Longrightarrow> flows i s1 s2 [] \<Longrightarrow> flows i s s2 a"
  by (auto simp: flows_def intro: subseq_order.trans)

lemma flows_length: "flows i s s' a \<Longrightarrow> length (rp_users s') = length (rp_users s)"
  by (auto simp: flows_def stream_ids_def dest: map_eq_imp_length_eq)

lemma flows_hub:
  assumes "rp_users s' = rp_users s"
    and "subseq (relay_payloads (queue_of (rp_hub s') (ur_relay_id (rp_users s ! i))))
           (relay_payloads (queue_of (rp_hub s) (ur_relay_id (rp_users s ! i))) @ a)"
  shows "flows i s s' a"
  using assms by (auto simp: flows_def stream_ids_def download_def Let_def subseq_append' split: relay_phase.splits)

lemma flows_calm: "rp_users s' = rp_users s \<Longrightarrow> queue_of (rp_hub s') = queue_of (rp_hub s) \<Longrightarrow> flows i s s' []"
  by (rule flows_hub) simp_all

lemma flows_at:
  assumes "ids_ok s" and "i < length (rp_users s)" and "j < length (rp_users s)"
    and users: "rp_users s' = (rp_users s)[j := u]" and "ur_relay_id u = ur_relay_id (rp_users s ! j)"
    and queues: "\<And>x. x \<noteq> ur_relay_id (rp_users s ! j) \<Longrightarrow> queue_of (rp_hub s') x = queue_of (rp_hub s) x"
    and "i = j \<Longrightarrow> subseq (download s' j) (download s j)"
  shows "flows i s s' []"
proof -
  have ids: "stream_ids s' = stream_ids s"
    using assms(3,5) unfolding stream_ids_def users by (intro nth_equalityI) (simp_all add: nth_list_update)
  show ?thesis
  proof (cases "i = j")
    case False
    then have "ur_relay_id (rp_users s ! i) \<noteq> ur_relay_id (rp_users s ! j)"
      using assms(1-3) by (simp add: ids_ok_def stream_ids_def distinct_conv_nth)
    with False have "download s' i = download s i" by (simp add: download_def users queues)
    with ids show ?thesis by (simp add: flows_def)
  qed (use ids assms(7) in \<open>simp add: flows_def\<close>)
qed

text \<open>Closing a stream changes neither what was sent nor what is held.\<close>

definition same_stream :: "'j user_relay \<Rightarrow> 'j user_relay \<Rightarrow> bool" where
  "same_stream u u' \<longleftrightarrow> ur_relay_id u' = ur_relay_id u \<and> ur_phase u' = ur_phase u"

lemma same_stream_simps [simp]:
  "same_stream u u" "same_stream u (set_close_reason reason u)" "same_stream u (user_writes w (u'\<lparr>ur_streak := n\<rparr>)) = same_stream u u'"
  by (simp_all add: same_stream_def set_close_reason_def user_writes_def)

definition handed :: "nat \<Rightarrow> 'j relay_service \<Rightarrow> 'j relay_service \<Rightarrow> bytes list \<Rightarrow> bool" where
  "handed j s s' z \<longleftrightarrow> queue_of (rp_hub s') = queue_of (rp_hub s) \<and>
     (\<exists>u. rp_users s' = (rp_users s)[j := u] \<and> same_stream (rp_users s ! j) u \<and>
        user_written (ur_out u) = user_written (ur_out (rp_users s ! j)) @ z)"

lemma handed_upd:
  assumes "same_stream (rp_users s ! j) (f (rp_users s ! j))"
    and "user_written (ur_out (f (rp_users s ! j))) = user_written (ur_out (rp_users s ! j)) @ z"
  shows "handed j s (upd_user j f s) z"
  using assms by (auto simp: handed_def upd_user_def)

lemma handed_refl: "handed j s s []"
  by (auto simp: handed_def intro!: exI[of _ "rp_users s ! j"])

lemma handed_trans:
  assumes "handed j s s1 a" and "handed j s1 s2 b" and "j < length (rp_users s)"
  shows "handed j s s2 (a @ b)"
  using assms by (auto simp: handed_def same_stream_def)

lemma send_for_user_same:
  "rp_users (snd (send_for_user i m s)) = rp_users s" "queue_of (rp_hub (snd (send_for_user i m s))) = queue_of (rp_hub s)"
proof -
  have s: "snd (send_for_user i m s) = s\<lparr>rp_hub := snd (hub_send_relay (ur_robot_id (rp_users s ! i)) m (rp_hub s))\<rparr>"
    by (simp add: send_for_user_def split: prod.splits)
  show "rp_users (snd (send_for_user i m s)) = rp_users s" "queue_of (rp_hub (snd (send_for_user i m s))) = queue_of (rp_hub s)"
    unfolding s by simp_all
qed

lemma handed_close: "handed j s (close_relay reason j s) []"
proof (cases "ur_done (rp_users s ! j)")
  case True
  then show ?thesis by (simp add: close_relay_def Let_def handed_refl)
next
  case False
  let ?f = "\<lambda>u. (set_close_reason reason u)\<lparr>ur_done := True\<rparr>"
  have "same_stream u (?f u) \<and> user_written (ur_out (?f u)) = user_written (ur_out u)" for u :: "'a user_relay"
    by (simp add: same_stream_def set_close_reason_def)
  with False show ?thesis
    by (auto simp: handed_def close_relay_def upd_user_def Let_def send_for_user_same)
qed

lemma handed_to_client:
  "\<exists>z. handed j s (snd (send_to_client env err m j s)) z \<and> subseq z (relay_payload m)"
proof -
  have nothing: "\<exists>z. handed j s s z \<and> subseq z a" for a using handed_refl by blast
  have closed: "\<exists>z. handed j s (close_relay reason j s) z \<and> subseq z a" for reason a using handed_close by blast
  have quiet: "\<exists>z. handed j s (upd_user j f s) z \<and> subseq z a"
    if "\<And>u. same_stream u (f u)" "\<And>u. user_written (ur_out (f u)) = user_written (ur_out u)" for f a
    using handed_upd[of s j f "[]"] that by fastforce
  have twice: "upd_user j g (upd_user j f s) = upd_user j (g \<circ> f) s" for f g
    by (cases "j < length (rp_users s)") (simp_all add: upd_user_def list_update_beyond)
  show ?thesis
  proof (cases "trim (acm_type m) = ''relay_data'' \<and> trim (acm_data m) \<noteq> []")
    case True
    obtain d ok where dec: "base64_decode (trim (acm_data m)) = (d, ok)" by fastforce
    show ?thesis
    proof (cases ok)
      case False
      with True dec show ?thesis by (simp add: send_to_client_def closed)
    next
      case ok: True
      then have pl: "relay_payload m = [d]" using True dec by (simp add: relay_payload_def)
      show ?thesis
      proof (cases err)
        case None
        have "handed j s (upd_user j (\<lambda>u. user_writes (WsBinary d) (u\<lparr>ur_streak := 0\<rparr>)) s) [d]"
          by (rule handed_upd) (simp_all add: user_writes_def same_stream_def)
        with True dec ok None pl show ?thesis by (auto simp: send_to_client_def)
      next
        case (Some e)
        with True dec ok show ?thesis
          by (auto simp: send_to_client_def Let_def twice same_stream_def set_close_reason_def intro!: quiet nothing)
      qed
    qed
  next
    case False
    let ?f = "\<lambda>t u. user_writes (WsClose 1000 t) (set_close_reason (''upstream_relay_close:'' @ t) u)"
    have "handed j s (upd_user j (?f t) s) []" for t
      by (rule handed_upd) (simp_all add: same_stream_def set_close_reason_def user_writes_def)
    with False have "handed j s (snd (send_to_client env err m j s)) []"
      by (simp add: send_to_client_def handed_refl Let_def)
    then show ?thesis by (intro exI[of _ "[]"]) simp
  qed
qed

lemma handed_all_to_client:
  "j < length (rp_users s) \<Longrightarrow>
     \<exists>z. handed j s (snd (send_all_to_client env errs ms j s)) z \<and> subseq z (relay_payloads ms)"
proof (induction env errs ms j s rule: send_all_to_client.induct)
  case (1 env errs j s)
  then show ?case using handed_refl by fastforce
next
  case (2 env errs m ms j s)
  obtain b s1 where c: "send_to_client env (case errs of [] \<Rightarrow> None | e # _ \<Rightarrow> e) m j s = (b, s1)" by fastforce
  then obtain z where z: "handed j s s1 z" "subseq z (relay_payload m)" by (metis handed_to_client snd_conv)
  show ?case
  proof (cases b)
    case True
    have "j < length (rp_users s1)" using z(1) 2(2) by (auto simp: handed_def)
    from 2(1)[OF c[symmetric] _ this] True obtain z' where
      z': "handed j s1 (snd (send_all_to_client env (tl errs) ms j s1)) z'" "subseq z' (relay_payloads ms)" by auto
    from handed_trans[OF z(1) z'(1) 2(2)] list_emb_append_mono[OF z(2) z'(2)] c True show ?thesis by auto
  next
    case False
    moreover have "subseq z (relay_payloads (m # ms))" using z(2) by (simp add: subseq_order.trans[OF z(2)])
    ultimately show ?thesis using c z(1) by auto
  qed
qed

text \<open>What is sent to a client was held.\<close>

lemma flows_handed:
  assumes "ids_ok s" and "i < length (rp_users s)" and "j < length (rp_users s)" and "handed j s s' []"
  shows "flows i s s' []"
proof -
  obtain u where u: "rp_users s' = (rp_users s)[j := u]" "same_stream (rp_users s ! j) u"
    "user_written (ur_out u) = user_written (ur_out (rp_users s ! j))" "queue_of (rp_hub s') = queue_of (rp_hub s)"
    using assms(4) by (auto simp: handed_def)
  have "download s' j = download s j" using u assms(3) by (simp add: download_def same_stream_def Let_def split: relay_phase.splits)
  then show ?thesis using u by (intro flows_at[OF assms(1-3) u(1)]) (simp_all add: same_stream_def)
qed

lemma flows_return:
  assumes "ids_ok s" and "i < length (rp_users s)" and "j < length (rp_users s)"
  shows "flows i s (user_return j s) []"
proof -
  define s1 where "s1 = (case ur_phase (rp_users s ! j) of RpOpen \<Rightarrow> close_relay ''client_disconnected'' j s | _ \<Rightarrow> s)"
  have "handed j s s1 []" unfolding s1_def using handed_close handed_refl by (auto split: relay_phase.splits)
  then have f: "flows i s s1 []" by (rule flows_handed[OF assms])
  let ?s2 = "s1\<lparr>rp_hub := unregister_relay (ur_relay_id (rp_users s1 ! j)) (rp_hub s1)\<rparr>"
  have ret: "user_return j s = upd_user j (\<lambda>u. u\<lparr>ur_phase := RpClosed\<rparr>) ?s2"
    by (simp add: user_return_def s1_def Let_def)
  have "flows i s1 (user_return j s) []"
  proof (rule flows_at)
    show "rp_users (user_return j s) = (rp_users s1)[j := (rp_users s1 ! j)\<lparr>ur_phase := RpClosed\<rparr>]"
      unfolding ret by (simp add: upd_user_def)
    show ok: "ids_ok s1" "i < length (rp_users s1)" "j < length (rp_users s1)"
      using assms f flows_length[OF f] by (simp_all add: flows_def ids_ok_def)
    then show "subseq (download (user_return j s) j) (download s1 j)" unfolding ret
      by (simp add: download_def upd_user_def Let_def)
    have "trim (ur_relay_id (rp_users s1 ! j)) = ur_relay_id (rp_users s1 ! j)"
      using ok(1,3) by (auto simp: ids_ok_def stream_ids_def list_all_length)
    then    show "queue_of (rp_hub (user_return j s)) x = queue_of (rp_hub s1) x" if "x \<noteq> ur_relay_id (rp_users s1 ! j)" for x
      unfolding ret using that by (simp add: upd_user_def queue_unregister)
  qed simp
  with f show ?thesis by (rule flows_trans)
qed

lemma flows_fail:
  assumes "ids_ok s" and "i < length (rp_users s)" and "j < length (rp_users s)" and "user_written out = []"
  shows "flows i s (user_fail reason out j s) []"
proof -
  let ?f = "\<lambda>u. (set_close_reason reason u)\<lparr>ur_out := ur_out u @ out\<rparr>"
  have "handed j s (upd_user j ?f s) []"
    using assms(4) by (intro handed_upd) (simp_all add: same_stream_def set_close_reason_def)
  note f = flows_handed[OF assms(1-3) this]
  have "flows i (upd_user j ?f s) (user_fail reason out j s) []"
    unfolding user_fail_def using assms f flows_length[OF f] by (intro flows_return) (simp_all add: flows_def ids_ok_def)
  with f show ?thesis by (rule flows_trans)
qed

lemma flows_then_return:
  assumes "flows i s s1 []" and "ids_ok s" and "i < length (rp_users s)" and "j < length (rp_users s)"
  shows "flows i s (user_return j s1) []"
  using assms flows_length[OF assms(1)] by (intro flows_trans[OF assms(1)] flows_return) (simp_all add: flows_def ids_ok_def)

text \<open>The handler takes a message out of the queue and sends as much as it held.\<close>

lemma flows_taken:
  assumes "ids_ok s" and "i < length (rp_users s)" and "j < length (rp_users s)"
    and q: "\<And>x. x \<noteq> ur_relay_id (rp_users s ! j) \<Longrightarrow> queue_of h x = queue_of (rp_hub s) x"
    and u: "ur_relay_id u = ur_relay_id (rp_users s ! j)" "ur_out u = ur_out (rp_users s ! j)"
    and s1: "s1 = s\<lparr>rp_hub := h, rp_users := (rp_users s)[j := u]\<rparr>" and "handed j s1 s2 z"
    and held: "subseq (user_written (ur_out u) @ z @ (case ur_phase u of RpOpening pending \<Rightarrow> relay_payloads pending | _ \<Rightarrow> []) @
        relay_payloads (queue_of h (ur_relay_id u))) (download s j)" and live: "ur_phase u \<noteq> RpClosed"
  shows "flows i s s2 []"
proof -
  obtain u2 where u2: "rp_users s2 = (rp_users s)[j := u2]" "same_stream u u2"
    "user_written (ur_out u2) = user_written (ur_out u) @ z" "queue_of (rp_hub s2) = queue_of h"
    using assms(8,3) by (auto simp: handed_def s1)
  show ?thesis
  proof (rule flows_at[OF assms(1-3) u2(1)])
    show "ur_relay_id u2 = ur_relay_id (rp_users s ! j)" using u2(2) u by (simp add: same_stream_def)
    show "queue_of (rp_hub s2) x = queue_of (rp_hub s) x" if "x \<noteq> ur_relay_id (rp_users s ! j)" for x
      using that q u2(4) by simp
    have "download s2 j = user_written (ur_out u) @ z @ (case ur_phase u of RpOpening pending \<Rightarrow> relay_payloads pending | _ \<Rightarrow> []) @
        relay_payloads (queue_of h (ur_relay_id u))"
      using u2 assms(3) live by (simp add: download_def same_stream_def Let_def split: relay_phase.splits)
    with held show "subseq (download s2 j) (download s j)" by simp
  qed
qed

lemma flows_take:
  assumes ok: "ids_ok s" and i: "i < length (rp_users s)" and j: "j < length (rp_users s)"
  shows "flows i s (user_take env now errs j s) []"
proof (cases "take_relay (ur_relay_id (rp_users s ! j)) (rp_hub s)")
  case (Pair mo h)
  let ?u = "rp_users s ! j"
  let ?x = "ur_relay_id ?u"
  show ?thesis
  proof (cases mo)
    case None
    with Pair show ?thesis by (simp add: user_take_def)
  next
    case (Some m)
    define h1 where "h1 = snd (consume_relay_enqueue_wait now ?x h)"
    have qh: "queue_of h1 = (queue_of (rp_hub s))(?x := tl (queue_of (rp_hub s) ?x))"
      and qx: "queue_of (rp_hub s) ?x = m # tl (queue_of (rp_hub s) ?x)"
      using queue_take[OF Pair] Some by (simp_all add: h1_def)
    note taken = flows_taken[OF ok i j, of h1, OF _ _ _ refl]
    have upd: "upd_user j f (s\<lparr>rp_hub := h1\<rparr>) = s\<lparr>rp_hub := h1, rp_users := (rp_users s)[j := f ?u]\<rparr>" for f
      by (simp add: upd_user_def)
    have same: "s\<lparr>rp_hub := h1\<rparr> = s\<lparr>rp_hub := h1, rp_users := (rp_users s)[j := ?u]\<rparr>" by simp
    have step: "flows i s (if b then s2 else user_return j s2) []" if "flows i s s2 []" for b s2
      using that flows_then_return[OF that ok i j] by simp
    show ?thesis
    proof (cases "ur_phase ?u")
      case RpClosed
      with Pair Some show ?thesis by (simp add: user_take_def)
    next
      case RpOpen
      have d: "download s j = user_written (ur_out ?u) @ relay_payload m @ relay_payloads (tl (queue_of (rp_hub s) ?x))"
        using qx RpOpen relay_payloads_simps(2)[of m "tl (queue_of (rp_hub s) ?x)"] by (simp add: download_def Let_def)
      let ?err = "case errs of [] \<Rightarrow> None | e # _ \<Rightarrow> e"
      obtain b s2 where c: "send_to_client env ?err m j (s\<lparr>rp_hub := h1\<rparr>) = (b, s2)" by fastforce
      then obtain z where z: "handed j (s\<lparr>rp_hub := h1\<rparr>) s2 z" "subseq z (relay_payload m)" by (metis handed_to_client snd_conv)
      have "flows i s s2 []"
      proof (rule taken)
        show "handed j (s\<lparr>rp_hub := h1, rp_users := (rp_users s)[j := ?u]\<rparr>) s2 z" using z(1) same by simp
        show "subseq (user_written (ur_out ?u) @ z @ (case ur_phase ?u of RpOpening pending \<Rightarrow> relay_payloads pending | _ \<Rightarrow> []) @
          relay_payloads (queue_of h1 ?x)) (download s j)"
          unfolding d using z(2) RpOpen by (simp add: qh subseq_append' list_emb_append_mono)
      qed (simp_all add: qh RpOpen)
      from step[OF this, of b] show ?thesis
        using c RpOpen Pair Some by (cases b) (simp_all add: user_take_def h1_def Let_def)
    next
      case (RpOpening pending)
      have d: "download s j = user_written (ur_out ?u) @ relay_payloads pending @ relay_payload m @ relay_payloads (tl (queue_of (rp_hub s) ?x))"
        using qx RpOpening relay_payloads_simps(2)[of m "tl (queue_of (rp_hub s) ?x)"] by (simp add: download_def Let_def)
      let ?w = "\<lambda>u. u\<lparr>ur_phase := RpOpening (pending @ [m])\<rparr>" and ?o = "\<lambda>u. u\<lparr>ur_phase := RpOpen, ur_reader := True\<rparr>"
      have w: "flows i s (upd_user j ?w (s\<lparr>rp_hub := h1\<rparr>)) []"
        unfolding upd by (rule taken[where u = "?w ?u" and z = "[]"]) (simp_all add: qh d handed_refl)
      have a: "flows i s (s\<lparr>rp_hub := h1\<rparr>) []"
        by (rule taken[where u = ?u and z = "[]"]) (simp_all add: qh d handed_refl RpOpening subseq_append' list_emb_append2)
      have fail: "flows i s (user_fail reason [WsClose 1008 t] j (s\<lparr>rp_hub := h1\<rparr>)) []" for reason t
        using ok i j by (intro flows_trans[OF a] flows_fail) (simp_all add: ids_ok_def stream_ids_def)
      obtain b s2 where c: "send_all_to_client env errs pending j (upd_user j ?o (s\<lparr>rp_hub := h1\<rparr>)) = (b, s2)" by fastforce
      then obtain z where z: "handed j (upd_user j ?o (s\<lparr>rp_hub := h1\<rparr>)) s2 z" "subseq z (relay_payloads pending)"
        using handed_all_to_client[of j "upd_user j ?o (s\<lparr>rp_hub := h1\<rparr>)" env errs pending] j by (auto simp: upd_user_def)
      have "flows i s s2 []"
      proof (rule taken)
        show "handed j (s\<lparr>rp_hub := h1, rp_users := (rp_users s)[j := ?o ?u]\<rparr>) s2 z" using z(1) unfolding upd .
        show "subseq (user_written (ur_out (?o ?u)) @ z @ (case ur_phase (?o ?u) of RpOpening pending \<Rightarrow> relay_payloads pending | _ \<Rightarrow> []) @
          relay_payloads (queue_of h1 (ur_relay_id (?o ?u)))) (download s j)"
          unfolding d using z(2) by (simp add: qh subseq_append' list_emb_append_mono list_emb_append2)
      qed (simp_all add: qh)
      from step[OF this, of b] w fail show ?thesis
        using c RpOpening Pair Some by (cases b) (simp_all add: user_take_def h1_def Let_def)
    qed
  qed
qed

section \<open>Runs\<close>

text \<open>What agents send for a stream, on whichever channel.\<close>

fun arrived1 :: "string \<Rightarrow> 'j relay_event \<Rightarrow> bytes list" where
  "arrived1 x (ReRelayInbound now p (WsText (Some m))) = (if trim (acm_relay_id m) = x then relay_payload m else [])"
| "arrived1 x (ReControlInbound now p (WsText (Some m))) = (if trim (acm_relay_id m) = x then relay_payload m else [])"
| "arrived1 x _ = []"

definition arrived :: "string \<Rightarrow> 'j relay_event list \<Rightarrow> bytes list" where
  "arrived x es = concat (map (arrived1 x) es)"

lemma arrived_simps [simp]: "arrived x [] = []" "arrived x (es @ [e]) = arrived x es @ arrived1 x e"
  by (simp_all add: arrived_def)

lemma reader_close_queue [simp]: "queue_of (snd (send_relay_close now robot x reason (sent, h))) = queue_of h"
  by (simp add: send_relay_close_def Let_def)

lemma reader_queue:
  "subseq (relay_payloads (queue_of (snd (reader_relay_message now robot m (sent, h))) x))
     (relay_payloads (queue_of h x) @ (if trim (acm_relay_id m) = x then relay_payload m else []))"
proof (cases "deliver_relay now m h")
  case (Pair res h1)
  then have "queue_of (snd (reader_relay_message now robot m (sent, h))) = queue_of h1"
    by (simp add: reader_relay_message_def split: relay_delivery_result.splits)
  with Pair queue_deliver[of now m h x] show ?thesis by simp
qed

lemma inbound_users [simp]: "rp_users (control_inbound now p m s) = rp_users s" "rp_users (relay_inbound now p m s) = rp_users s"
  by (simp_all add: control_inbound_def relay_inbound_def Let_def split: ws_in.splits option.splits prod.splits)

lemma inbound_hub:
  "rp_hub (control_inbound now p (WsText (Some m)) s) =
     (if trim (acm_type m) = ''command_response'' \<or> trim (acm_type m) = ''status_response''
      then snd (deliver_response (acm_request_id m) (acm_response m) (rp_hub s))
      else if trim (acm_type m) \<in> set relay_types
      then snd (reader_relay_message now (ac_robot_id (hb_control_store (rp_hub s) ! p)) m (rp_control_closes s p, rp_hub s))
      else rp_hub s)"
  "rp_hub (relay_inbound now p (WsText (Some m)) s) =
     (if trim (acm_type m) \<in> set relay_types
      then snd (reader_relay_message now (ac_robot_id (hb_relay_store (rp_hub s) ! p)) m (rp_relay_closes s p, rp_hub s))
      else rp_hub s)"
  by (simp_all add: control_inbound_def relay_inbound_def Let_def split: prod.splits)

lemma inbound_other:
  "rp_hub (control_inbound now p (WsText None) s) = rp_hub s" "rp_hub (control_inbound now p WsOther s) = rp_hub s"
  "rp_hub (relay_inbound now p (WsText None) s) = rp_hub s" "rp_hub (relay_inbound now p WsOther s) = rp_hub s"
  by (simp_all add: control_inbound_def relay_inbound_def Let_def)

lemma inbound_flows:
  "flows i s (control_inbound now p m s) (arrived1 (ur_relay_id (rp_users s ! i)) (ReControlInbound now p m))"
  "flows i s (relay_inbound now p m s) (arrived1 (ur_relay_id (rp_users s ! i)) (ReRelayInbound now p m))"
proof -
  consider msg where "m = WsText (Some msg)" | "m = WsText None" | "m = WsOther"
    by (cases m) (metis option.exhaust)
  then have "flows i s (control_inbound now p m s) (arrived1 (ur_relay_id (rp_users s ! i)) (ReControlInbound now p m)) \<and>
    flows i s (relay_inbound now p m s) (arrived1 (ur_relay_id (rp_users s ! i)) (ReRelayInbound now p m))"
  proof cases
    case (1 msg)
    then show ?thesis
      using reader_queue[of now _ msg _ "rp_hub s" "ur_relay_id (rp_users s ! i)"]
      by (cases "trim (acm_relay_id msg) = ur_relay_id (rp_users s ! i)"; intro conjI flows_hub) (simp_all add: inbound_hub)
  qed (auto simp: inbound_other intro!: flows_calm)
  then show "flows i s (control_inbound now p m s) (arrived1 (ur_relay_id (rp_users s ! i)) (ReControlInbound now p m))"
    "flows i s (relay_inbound now p m s) (arrived1 (ur_relay_id (rp_users s ! i)) (ReRelayInbound now p m))" by auto
qed

lemma agent_flows:
  "flows i s (snd (handle_agent_control_connect env now fresh q s)) []"
  "flows i s (snd (handle_agent_relay_connect env now fresh q s)) []"
  "flows i s (control_touch now p s) []" "flows i s (control_written err p s) []" "flows i s (control_pinged err p s) []"
  "flows i s (control_end e p s) []" "flows i s (control_report_down now p s) []"
  "flows i s (relay_written err p s) []" "flows i s (relay_pinged err p s) []" "flows i s (relay_end e p s) []"
proof -
  have c: "queue_of h = queue_of h0" if "connect_control ulow c policy h0 = (x, h)" for ulow c policy x and h h0 :: "'a hub"
    using that by (metis queue_ops(10) snd_conv)
  show "flows i s (snd (handle_agent_control_connect env now fresh q s)) []"
    by (rule flows_calm) (auto simp: handle_agent_control_connect_def Let_def dest!: c split: sum.splits prod.splits option.splits)
  have r: "queue_of h = queue_of h0" if "connect_relay c h0 = (x, h)" for c x and h h0 :: "'a hub"
    using that by (metis queue_ops(11) snd_conv)
  show "flows i s (snd (handle_agent_relay_connect env now fresh q s)) []"
    by (rule flows_calm) (auto simp: handle_agent_relay_connect_def Let_def dest!: r split: sum.splits prod.splits option.splits)
  have u: "queue_of h = queue_of h0" if "hub_unregister p h0 = (x, h)" for p x and h h0 :: "'a hub"
    using that by (metis queue_ops(8) snd_conv)
  show "flows i s (control_end e p s) []"
    by (rule flows_calm) (auto simp: control_end_def Let_def dest!: u split: prod.splits)
qed (auto simp: control_touch_def control_written_def control_pinged_def control_report_down_def relay_written_def
    relay_pinged_def relay_end_def Let_def intro!: flows_calm split: option.splits)

lemma outside_flows: "outside_event e \<Longrightarrow> flows i s (s\<lparr>rp_hub := hub_step ulow ufold (rp_hub s) e\<rparr>) []"
  by (rule flows_hub) (cases e; simp add: queue_attach send_command_def send_status_query_def)+

lemma user_flows:
  assumes "ids_ok s" and "i < length (rp_users s)" and "j < length (rp_users s)"
  shows "flows i s (user_open_timeout j s) []" "flows i s (user_done j s) []" "flows i s (user_tick err j s) []"
    "flows i s (user_inbound m j s) []"
proof -
  show "flows i s (user_open_timeout j s) []"
    using flows_fail[OF assms, of "[WsClose 1013 ''relay_open timeout'']"]
    by (auto simp: user_open_timeout_def split: relay_phase.splits)
  show "flows i s (user_done j s) []" using flows_return[OF assms] by (simp add: user_done_def)
  have "flows i s (upd_user j (set_close_reason reason) s) []" for reason
    by (rule flows_handed[OF assms], rule handed_upd) (simp_all add: same_stream_def set_close_reason_def)
  from flows_then_return[OF this assms] show "flows i s (user_tick err j s) []"
    by (auto simp: user_tick_def split: relay_phase.splits option.splits)
  let ?f = "\<lambda>reason u. (set_close_reason reason u)\<lparr>ur_reader := False\<rparr>"
  have ends: "flows i s (close_relay ''client_reader_closed'' j (upd_user j (?f reason) s1)) []"
    if "rp_users s1 = rp_users s" "queue_of (rp_hub s1) = queue_of (rp_hub s)" for reason s1
  proof -
    have s: "handed j s1 (upd_user j (?f reason) s1) []"
      by (rule handed_upd) (simp_all add: same_stream_def set_close_reason_def)
    have "handed j s1 (close_relay ''client_reader_closed'' j (upd_user j (?f reason) s1)) ([] @ [])"
      by (rule handed_trans[OF s handed_close]) (simp add: that assms)
    then have "handed j s (close_relay ''client_reader_closed'' j (upd_user j (?f reason) s1)) []"
      using that by (simp add: handed_def)
    then show ?thesis by (rule flows_handed[OF assms])
  qed
  have same: "rp_users s1 = rp_users s \<and> queue_of (rp_hub s1) = queue_of (rp_hub s)" if "send_for_user j msg s = (b, s1)" for msg b s1
    using send_for_user_same[of j msg s] that by simp
  have sent: "flows i s s1 []" "flows i s (close_relay ''client_reader_closed'' j (upd_user j (?f reason) s1)) []"
    if "send_for_user j msg s = (b, s1)" for msg b s1 reason
    using same[OF that] by (auto intro: flows_calm ends)
  show "flows i s (user_inbound m j s) []"
    using sent ends[OF refl refl]
    by (auto simp: user_inbound_def Let_def split: user_in.splits prod.splits bool.splits)
qed

lemma relay_ok_ids: "relay_ok env s \<Longrightarrow> ids_ok s"
proof -
  assume ok: "relay_ok env s"
  have "distinct (stream_ids s)"
    using ok by (simp add: stream_ids_def relay_ok_def owned_ok_def relay_view_def user_key_def comp_def)
  moreover have "trim (ur_relay_id u) = ur_relay_id u \<and> ur_relay_id u \<noteq> []" if "u \<in> set (rp_users s)" for u
    using relay_ok_key[OF ok] that by (metis in_set_conv_nth)
  ultimately show ?thesis by (auto simp: ids_ok_def list_all_iff stream_ids_def)
qed

lemma admit_flows:
  "rp_users (snd (relay_admit env now q s)) = rp_users s" "flows i s (snd (relay_admit env now q s)) []"
proof -
  have "flows i s (s\<lparr>rp_hub := set_active_session ufold now r key (rp_hub s)\<rparr>) []" for ufold r key
    using queue_attach by (intro flows_hub) auto
  then show "flows i s (snd (relay_admit env now q s)) []"
    by (simp add: relay_admit_def Let_def split: sum.splits option.splits)
  show "rp_users (snd (relay_admit env now q s)) = rp_users s"
    by (simp add: relay_admit_def Let_def split: sum.splits option.splits)
qed

lemma connect_cases:
  obtains (refused) "snd (handle_relay_ws env now fresh q s) = snd (relay_admit env now q s)"
  | (opened) u robot key m where
      "u = \<lparr>ur_user = ur_user u, ur_robot_id = robot, ur_relay_id = fresh, ur_session_key = key, ur_port = ur_port u,
        ur_phase = RpOpening [], ur_close_reason = None, ur_reader = False, ur_done = False, ur_streak = 0, ur_out = []\<rparr>"
      "let s1 = snd (relay_admit env now q s); i = length (rp_users s1);
           s3 = snd (send_for_user i m
             (s1\<lparr>rp_hub := register_relay fresh robot key 512 (rp_hub s1), rp_users := rp_users s1 @ [u]\<rparr>))
       in snd (handle_relay_ws env now fresh q s) = s3 \<or>
          snd (handle_relay_ws env now fresh q s) =
            user_fail ''relay_open_send_failed'' [WsClose 1013 ''relay_open send failed''] i s3"
proof (cases "relay_admit env now q s")
  case (Pair res s1)
  show thesis
  proof (cases "\<exists>user robot port key. res = Inr (user, robot, port, key) \<and> rq_upgraded q")
    case False
    with Pair show thesis by (intro refused) (auto simp: handle_relay_ws_def split: sum.splits)
  next
    case True
    then obtain user robot port key where res: "res = Inr (user, robot, port, key)" "rq_upgraded q" by blast
    define u :: "'a user_relay" where "u = \<lparr>ur_user = user, ur_robot_id = robot, ur_relay_id = fresh, ur_session_key = key, ur_port = port,
        ur_phase = RpOpening [], ur_close_reason = None, ur_reader = False, ur_done = False, ur_streak = 0, ur_out = []\<rparr>"
    define m :: "'a agent_control_message" where
      "m = acm_zero\<lparr>acm_type := ''relay_open'', acm_relay_id := fresh, acm_port := port, acm_session_key := key\<rparr>"
    obtain b s3 where "send_for_user (length (rp_users s1)) m
        (s1\<lparr>rp_hub := register_relay fresh robot key 512 (rp_hub s1), rp_users := rp_users s1 @ [u]\<rparr>) = (b, s3)" by fastforce
    with Pair res show thesis
      by (intro opened[of u robot key m]) (cases b; simp add: handle_relay_ws_def u_def m_def Let_def)+
  qed
qed

lemma connect_flows:
  assumes ok: "ids_ok s" and fr: "fresh_relay fresh s"
    and s': "s' = snd (handle_relay_ws env now fresh q s)"
  shows "(\<exists>more. stream_ids s' = stream_ids s @ more) \<and>
    (\<forall>i < length (rp_users s'). subseq (download s' i) (if i < length (rp_users s) then download s i else []))"
proof (cases rule: connect_cases[of env now fresh q s])
  case refused
  have "flows i s s' []" for i using admit_flows(2)[of i s env now q] unfolding s' refused .
  then show ?thesis using flows_length[of 0 s s' "[]"] by (auto simp: flows_def)
next
  case (opened u robot key m)
  define s1 where "s1 = snd (relay_admit env now q s)"
  let ?n = "length (rp_users s)"
  define s2 where "s2 = s1\<lparr>rp_hub := register_relay fresh robot key 512 (rp_hub s1), rp_users := rp_users s1 @ [u]\<rparr>"
  define s3 where "s3 = snd (send_for_user ?n m s2)"
  have users: "rp_users s1 = rp_users s" unfolding s1_def by (rule admit_flows)
  have users3: "rp_users s3 = rp_users s @ [u]" and queue3: "queue_of (rp_hub s3) = (queue_of (rp_hub s1))(fresh := [])"
    unfolding s3_def send_for_user_same using fr by (simp_all add: s2_def users queue_register fresh_relay_def)
  have u: "ur_relay_id u = fresh" "ur_out u = []" "ur_phase u = RpOpening []" by (subst opened(1), simp)+
  have ids: "stream_ids s3 = stream_ids s @ [fresh]" by (simp add: stream_ids_def users3 u)
  have ids3: "ids_ok s3" using ok fr unfolding ids_ok_def ids
    by (auto simp: fresh_relay_def stream_ids_def list_all_iff)
  have d3: "subseq (download s3 i) (if i < ?n then download s i else [])" if i: "i < length (rp_users s3)" for i
  proof (cases "i < ?n")
    case True
    then have "ur_relay_id (rp_users s ! i) \<noteq> fresh" using fr by (auto simp: fresh_relay_def list_all_length)
    then have "download s3 i = download s1 i" using True by (simp add: download_def users users3 queue3 nth_append)
    with True admit_flows(2)[of i s env now q] show ?thesis by (simp add: flows_def s1_def)
  next
    case False
    with i have "i = ?n" by (simp add: users3)
    then show ?thesis by (simp add: download_def users3 queue3 u)
  qed
  have "s' = s3 \<or> s' = user_fail ''relay_open_send_failed'' [WsClose 1013 ''relay_open send failed''] ?n s3"
    using opened(2) by (simp add: s' s3_def s2_def s1_def[symmetric] users Let_def)
  then have step: "stream_ids s' = stream_ids s3 \<and> subseq (download s' i) (download s3 i)" if "i < length (rp_users s3)" for i
    using flows_fail[OF ids3 that, of ?n "[WsClose 1013 ''relay_open send failed'']" "''relay_open_send_failed''"]
    by (auto simp: flows_def users3)
  moreover from this[of 0] have "length (rp_users s') = length (rp_users s3)"
    by (auto simp: users3 stream_ids_def dest!: arg_cong[of _ _ length])
  ultimately have "subseq (download s' i) (if i < ?n then download s i else [])" if "i < length (rp_users s')" for i
    using that by (metis d3 subseq_order.trans)
  moreover have "stream_ids s' = stream_ids s3" using step[of 0] by (simp add: users3)
  ultimately show ?thesis using ids by auto
qed

lemma other_flows:
  assumes "relay_ok env s" and "\<And>now fresh q. e \<noteq> ReUserConnect now fresh q"
  shows "i < length (rp_users s) \<Longrightarrow> flows i s (relay_step env s e) (arrived1 (ur_relay_id (rp_users s ! i)) e)"
    and "length (rp_users (relay_step env s e)) = length (rp_users s)"
proof -
  note ok = relay_ok_ids[OF assms(1)]
  have calm: "flows i s s a" for a by (rule flows_hub) simp_all
  have users: "length (rp_users (user_take env now errs j s)) = length (rp_users s)"
    "length (rp_users (user_open_timeout j s)) = length (rp_users s)"
    "length (rp_users (user_done j s)) = length (rp_users s)" "length (rp_users (user_tick err j s)) = length (rp_users s)"
    "length (rp_users (user_inbound m j s)) = length (rp_users s)" if "j < length (rp_users s)" for j now errs err m
    using flows_length[OF flows_take[OF ok that that]] flows_length[OF user_flows(1)[OF ok that that]]
      flows_length[OF user_flows(2)[OF ok that that]] flows_length[OF user_flows(3)[OF ok that that]]
      flows_length[OF user_flows(4)[OF ok that that]] by simp_all
  show "flows i s (relay_step env s e) (arrived1 (ur_relay_id (rp_users s ! i)) e)" if i: "i < length (rp_users s)"
  proof (cases e)
    case (ReUserConnect now fresh q)
    with assms(2) show ?thesis by blast
  qed (simp_all add: on_control_def on_relay_def on_user_def agent_flows inbound_flows outside_flows calm
      flows_take[OF ok i] user_flows[OF ok i])
  show "length (rp_users (relay_step env s e)) = length (rp_users s)"
  proof (cases e)
    case (ReUserConnect now fresh q)
    with assms(2) show ?thesis by blast
  qed (simp_all add: on_control_def on_relay_def on_user_def users agent_flows[THEN flows_length])
qed

lemma step_flows:
  assumes "relay_ok env s" and "s' = relay_step env s e" and "i < length (rp_users s')"
  shows "subseq (download s' i)
      (if i < length (rp_users s) then download s i @ arrived1 (ur_relay_id (rp_users s ! i)) e else [])"
    and "i < length (rp_users s) \<Longrightarrow> ur_relay_id (rp_users s' ! i) = ur_relay_id (rp_users s ! i)"
proof -
  have "(\<exists>more. stream_ids s' = stream_ids s @ more) \<and>
    subseq (download s' i) (if i < length (rp_users s) then download s i @ arrived1 (ur_relay_id (rp_users s ! i)) e else [])"
  proof (cases "\<exists>now fresh q. e = ReUserConnect now fresh q")
    case True
    then obtain now fresh q where e: "e = ReUserConnect now fresh q" by blast
    show ?thesis
    proof (cases "fresh_relay fresh s")
      case True
      then have s': "s' = snd (handle_relay_ws env now fresh q s)" using assms(2) by (simp add: e)
      note c = connect_flows[OF relay_ok_ids[OF assms(1)] True s']
      with assms(3) have "subseq (download s' i) (if i < length (rp_users s) then download s i else [])" by blast
      with c show ?thesis by (simp add: e split: if_splits)
    qed (use assms in \<open>simp add: e\<close>)
  next
    case False
    then have "length (rp_users s') = length (rp_users s)" unfolding assms(2) by (intro other_flows(2)[OF assms(1)]) blast
    with assms(3) have i: "i < length (rp_users s)" by simp
    have "flows i s s' (arrived1 (ur_relay_id (rp_users s ! i)) e)"
      unfolding assms(2) using False by (intro other_flows(1)[OF assms(1) _ i]) blast
    with i show ?thesis by (simp add: flows_def)
  qed
  then obtain more where m: "stream_ids s' = stream_ids s @ more" and
    d: "subseq (download s' i) (if i < length (rp_users s) then download s i @ arrived1 (ur_relay_id (rp_users s ! i)) e else [])"
    by blast
  from d show "subseq (download s' i)
      (if i < length (rp_users s) then download s i @ arrived1 (ur_relay_id (rp_users s ! i)) e else [])" .
  have "stream_ids s' ! i = (stream_ids s @ more) ! i" using m by simp
  then show "ur_relay_id (rp_users s' ! i) = ur_relay_id (rp_users s ! i)" if "i < length (rp_users s)"
    using that assms(3) by (simp add: stream_ids_def nth_append)
qed

lemma run_flows:
  assumes "s = run_steps (relay_step env) (relay_service_new a) es" and "i < length (rp_users s)"
  shows "subseq (download s i) (arrived (ur_relay_id (rp_users s ! i)) es)"
  using assms
proof (induction es arbitrary: s rule: rev_induct)
  case Nil
  then show ?case by (simp add: relay_service_new_def)
next
  case (snoc e es)
  let ?s = "run_steps (relay_step env) (relay_service_new a) es"
  have ok: "relay_ok env ?s" by (rule relay_svc.run_inv[OF relay_ok_new])
  have s: "s = relay_step env ?s e" using snoc.prems(1) by (simp add: run_steps_append)
  note f = step_flows[OF ok s snoc.prems(2)]
  show ?case
  proof (cases "i < length (rp_users ?s)")
    case True
    have "subseq (download ?s i @ arrived1 (ur_relay_id (rp_users ?s ! i)) e) (arrived (ur_relay_id (rp_users s ! i)) (es @ [e]))"
      using snoc.IH[OF refl True] f(2)[OF True] by (simp add: list_emb_append_mono)
    moreover from f(1) True have "subseq (download s i) (download ?s i @ arrived1 (ur_relay_id (rp_users ?s ! i)) e)" by simp
    ultimately show ?thesis by (rule subseq_order.trans[rotated])
  next
    case False
    with f(1) have "download s i = []" by simp
    then show ?thesis by simp
  qed
qed

text \<open>C20: A relay stream delivers what the agent sends for it, unchanged and in order. However the endpoints
  interleave, the binary frames written to a user's connection are a subsequence of the payloads
  that agents sent for that connection's stream: none is reordered, repeated, altered or taken
  from another stream. (Some may be missing: a full queue loses its oldest message.)\<close>

theorem relay_download_in_order:
  assumes "s = run_steps (relay_step env) (relay_service_new a) es" and "i < length (rp_users s)"
  shows "subseq (user_written (ur_out (rp_users s ! i))) (arrived (ur_relay_id (rp_users s ! i)) es)"
proof -
  have "subseq (user_written (ur_out (rp_users s ! i))) (download s i)" by (simp add: download_def Let_def)
  then show ?thesis using run_flows[OF assms] by (rule subseq_order.trans)
qed

definition demo_svc :: "nat relay_registration \<Rightarrow> nat user_relay \<Rightarrow> nat relay_service" where
  "demo_svc r u = \<lparr>rp_hub =
        \<lparr>hb_conns = Map.empty, hb_relay = [''r'' \<mapsto> 0], hb_pending = Map.empty,
           hb_active_sessions = [''r'' \<mapsto> ''k''], hb_relays = [''x'' \<mapsto> r], hb_control_store = [],
           hb_relay_store =
             [\<lparr>ac_robot_id = ''r'', ac_session_id = ''s'', ac_observed_src_ip = [], ac_connected_at = 1,
                 ac_send = [acm_zero\<lparr>acm_type := ''relay_open'', acm_relay_id := ''x'', acm_port := 22, acm_session_key := ''k''\<rparr>],
                 ac_cap = 2048, ac_done = False, ac_reason = []\<rparr>],
           hb_responses = []\<rparr>,
        rp_states = Map.empty, rp_auth = \<lparr>ta_store = None, ta_ops = ops_new [] []\<rparr>,
        rp_evidence = evidence_new, rp_leaving = [],
        rp_control_closes = \<lambda>_. Map.empty, rp_relay_closes = \<lambda>_. Map.empty, rp_users = [u]\<rparr>"

definition demo_reg :: "nat agent_control_message list \<Rightarrow> gotime list \<Rightarrow> relay_queue_stats \<Rightarrow> nat relay_registration" where
 "demo_reg q ts st = \<lparr>rl_robot_id = ''r'', rl_session_key = ''k'', rl_ch = q, rl_cap = 512, rl_enqueued_at = ts, rl_ts_cap = 512, rl_stats = st\<rparr>"

definition demo_user :: "nat relay_phase \<Rightarrow> bool \<Rightarrow> ws_out list \<Rightarrow> nat user_relay" where
 "demo_user ph running out = \<lparr>ur_user = ''ann'', ur_robot_id = ''r'', ur_relay_id = ''x'', ur_session_key = ''k'', ur_port = 22, ur_phase = ph,
              ur_close_reason = None, ur_reader = running, ur_done = False, ur_streak = 0, ur_out = out\<rparr>"

lemma demo_start: "run_steps (relay_step demo_relay_env) (relay_service_new \<lparr>ta_store = None, ta_ops = ops_new [] []\<rparr>) demo_relay_events
  = demo_svc (demo_reg [] [] new_relay_queue_stats) (demo_user (RpOpening []) False [])"
  by (simp add: demo_relay_events_def demo_relay_eval demo_relay_strings demo_svc_def demo_reg_def demo_user_def)

lemma demo_inbound:
  assumes "trim (acm_type m) \<in> set relay_types" and "trim (acm_relay_id m) = ''x''" and "length q < 512" and "length ts < 512"
  shows "\<exists>st'. relay_step demo_relay_env (demo_svc (demo_reg q ts st) u) (ReRelayInbound now 0 (WsText (Some m))) = demo_svc (demo_reg (q @ [m]) (ts @ [now]) st') u"
  using assms by (auto simp: on_relay_def relay_inbound_def reader_relay_message_def deliver_relay_def deliver_to_def rl_enqueue_def chan_offer_def demo_svc_def demo_reg_def Let_def fun_upd_idem)


lemma demo_take_ack:
  assumes "trim (acm_type m) = ''relay_open_ack''" and "acm_status m = ''ok''"
  shows "\<exists>st'. relay_step demo_relay_env (demo_svc (demo_reg (m # q) ts st) (demo_user (RpOpening []) False [])) (ReUserTake now [] 0)
    = demo_svc (demo_reg q (tl ts) st') (demo_user RpOpen True [])"
proof -
  have e: "trim ''ok'' = ''ok''" "equal_fold f ''ok'' ''ok''" for f unfolding equal_fold_def by code_simp+
  show ?thesis using assms
  by (cases ts) (auto simp: on_user_def user_take_def take_relay_def consume_relay_enqueue_wait_def pop_enqueue_timestamp_def
     demo_relay_strings e demo_svc_def demo_reg_def demo_user_def upd_user_def fun_eq_iff Let_def)
qed

lemma demo_take_data:
  assumes "trim (acm_type m) = ''relay_data''" and "trim (acm_data m) \<noteq> []" and "base64_decode (trim (acm_data m)) = (d, True)"
  shows "\<exists>st'. relay_step demo_relay_env (demo_svc (demo_reg (m # q) ts st) (demo_user RpOpen True out)) (ReUserTake now [] 0)
    = demo_svc (demo_reg q (tl ts) st') (demo_user RpOpen True (out @ [WsBinary d]))"
  using assms
  by (cases ts) (auto simp: on_user_def user_take_def take_relay_def consume_relay_enqueue_wait_def pop_enqueue_timestamp_def send_to_client_def user_writes_def
     demo_relay_strings demo_svc_def demo_reg_def demo_user_def upd_user_def fun_eq_iff Let_def)

definition demo_data :: "string \<Rightarrow> nat agent_control_message" where
  "demo_data d = acm_zero\<lparr>acm_type := ''relay_data'', acm_relay_id := ''x'', acm_data := d\<rparr>"

definition demo_ack :: "nat agent_control_message" where
  "demo_ack = acm_zero\<lparr>acm_type := ''relay_open_ack'', acm_relay_id := ''x'', acm_status := ''ok''\<rparr>"

definition demo_flow_events :: "nat relay_event list" where
  "demo_flow_events =
     [ReRelayInbound 4 0 (WsText (Some demo_ack)), ReUserTake 5 [] 0,
      ReRelayInbound 6 0 (WsText (Some (demo_data (base64_std [0x68, 0x69])))), ReUserTake 8 [] 0]"

theorem relay_download_in_order_witness:
  "let a = \<lparr>ta_store = None, ta_ops = ops_new [] []\<rparr>; es = demo_relay_events @ demo_flow_events;
       s = run_steps (relay_step demo_relay_env) (relay_service_new a) es
   in ur_out (rp_users s ! 0) = [WsBinary [0x68, 0x69]] \<and>
      subseq (user_written (ur_out (rp_users s ! 0))) (arrived (ur_relay_id (rp_users s ! 0)) es)"
proof -
  let ?a = "\<lparr>ta_store = None, ta_ops = ops_new [] []\<rparr>" and ?es = "demo_relay_events @ demo_flow_events"
  let ?s = "run_steps (relay_step demo_relay_env) (relay_service_new ?a) ?es" and ?d = "base64_std [0x68, 0x69]"
  have t: "trim ''relay_open_ack'' = ''relay_open_ack''" "trim ''relay_data'' = ''relay_data''"
    by code_simp+
  have m: "trim (acm_type demo_ack) \<in> set relay_types" "trim (acm_relay_id demo_ack) = ''x''"
    "trim (acm_type demo_ack) = ''relay_open_ack''" "acm_status demo_ack = ''ok''"
    "trim (acm_type (demo_data ?d)) \<in> set relay_types" "trim (acm_relay_id (demo_data ?d)) = ''x''"
    "trim (acm_type (demo_data ?d)) = ''relay_data''" "trim (acm_data (demo_data ?d)) \<noteq> []"
    "base64_decode (trim (acm_data (demo_data ?d))) = ([0x68, 0x69], True)"
    by (simp_all add: demo_ack_def demo_data_def t relay_types_def demo_relay_strings del: base64_std.simps)
  obtain st1 where 1: "relay_step demo_relay_env (demo_svc (demo_reg [] [] new_relay_queue_stats) (demo_user (RpOpening []) False []))
      (ReRelayInbound 4 0 (WsText (Some demo_ack))) = demo_svc (demo_reg [demo_ack] [4] st1) (demo_user (RpOpening []) False [])"
    using demo_inbound[OF m(1,2), of "[]" "[]" new_relay_queue_stats "demo_user (RpOpening []) False []" 4] by (auto simp del: relay_step.simps)
  obtain st2 where 2: "relay_step demo_relay_env (demo_svc (demo_reg [demo_ack] [4] st1) (demo_user (RpOpening []) False []))
      (ReUserTake 5 [] 0) = demo_svc (demo_reg [] [] st2) (demo_user RpOpen True [])"
    using demo_take_ack[OF m(3,4), of "[]" "[4]" st1 5] by (auto simp del: relay_step.simps)
  obtain st3 where 3: "relay_step demo_relay_env (demo_svc (demo_reg [] [] st2) (demo_user RpOpen True []))
      (ReRelayInbound 6 0 (WsText (Some (demo_data ?d)))) =
      demo_svc (demo_reg [demo_data ?d] [6] st3) (demo_user RpOpen True [])"
    using demo_inbound[OF m(5,6), of "[]" "[]" st2 "demo_user RpOpen True []" 6] by (auto simp del: relay_step.simps)
  obtain st4 where 4: "relay_step demo_relay_env (demo_svc (demo_reg [demo_data ?d] [6] st3) (demo_user RpOpen True []))
      (ReUserTake 8 [] 0) = demo_svc (demo_reg [] [] st4) (demo_user RpOpen True [WsBinary [0x68, 0x69]])"
    using demo_take_data[OF m(7,8,9), of "[]" "[6]" st3 "[]" 8] by (auto simp del: relay_step.simps)
  have "?s = demo_svc (demo_reg [] [] st4) (demo_user RpOpen True [WsBinary [0x68, 0x69]])"
    by (simp add: run_steps_append demo_start demo_flow_events_def 1 2 3 4 del: relay_step.simps base64_std.simps)
  then have "ur_out (rp_users ?s ! 0) = [WsBinary [0x68, 0x69]]" "0 < length (rp_users ?s)"
    by (simp_all add: demo_svc_def demo_user_def)
  with relay_download_in_order[of ?s demo_relay_env ?a ?es 0, OF refl] show ?thesis by (simp add: Let_def)
qed

end
