(* ===== verification/Spec2Isabelle.thy ===== *)
theory Spec2Isabelle
  imports Tunnel Authorized_Keys Config Ros Heartbeat Daemon_System Server_Laws Webrtc_Laws Connstate Relay_Trigger Signalling Turn_Service Relay_Flow
begin

text \<open>
  \<^bold>\<open>roboat: the tunnel agent, the daemon, the WebRTC client and the platform services\<close>

  roboat connects robot agents. The \<^emph>\<open>agent library\<close> (\<open>rust/crates/roboat-core\<close>) serves authenticated
  tunnel connections and talks to a platform; the \<^emph>\<open>daemon\<close> (\<open>rust/crates/roboat-daemon\<close>,
  \<open>rust/bin/roboatd\<close>) runs beside agent processes, speaks a framed JSON protocol with them over a
  local socket and carries their streams to other daemons; the \<^emph>\<open>registry client\<close>
  (\<open>rust/crates/roboat-resolver\<close>) finds daemons by agent id; the \<^emph>\<open>WebRTC client\<close>
  (\<open>rust/crates/roboat-webrtc\<close>) sets up direct or relayed peer connections. The \<^emph>\<open>platform services\<close>
  (\<open>go/\<close>) are the other end of these: they hold the agents' control channels, relay streams and
  signalling, trigger WebRTC sessions on agents and issue TURN credentials.

  \<^bold>\<open>Reading the model.\<close> A Rust struct is a \<open>record\<close>, an enum a \<open>datatype\<close>, a function a \<open>definition\<close> or
  \<open>fun\<close> of the same name (suffixed or prefixed with its type where names clash). A fallible
  function returns \<open>error + value\<close>; a panic or a wait that does not end is \<open>None\<close> or a constructor
  of its own. Functions on a connection act on \<open>reader\<close>, \<open>writer\<close> or \<open>duplex\<close> values: the bytes that
  will arrive and how the stream ends, the bytes written and when writing fails. Strings are their
  UTF-8 bytes. Machine integers are words. A task is a step function on the state it shares, and
  what may run concurrently are sequences of such steps in any order; a step that would wait
  leaves the state as it is. Code outside the repository (Ed25519, SHA-256, hexadecimal and base64
  codecs, JSON and TOML, HTTP, TCP, the WebRTC stack, the file system, the environment, Unicode
  lower case beyond ASCII) is a parameter of the definitions that call it.

  \<^bold>\<open>Theories.\<close>
  \<^item> \<open>Prelude\<close>: big-endian integers, readers and writers with the result monad in which the
    asynchronous functions are written, and the two general interfaces of the development: \<open>wire_codec\<close>
    (self-delimiting encodings, interpreted for frames, topic packets and socket messages) and
    \<open>step_system\<close> (a step with an invariant, interpreted for the accept loop, the key
    synchronisation, the multiplexer, the signalling service and the relay service).
  \<^item> \<open>Strings\<close>: UTF-8 validity and the \<open>str\<close> operations of the sources; \<open>Channels\<close>: bounded queues
    between tasks; \<open>Http\<close>: responses and their errors.
  \<^item> \<open>Protocol\<close> (\<open>protocol.rs\<close>): frames and topic packets. Writing and reading are inverse, reading
    succeeds exactly on encodings within the limit, oversized frames are refused at the header.
  \<^item> \<open>Auth\<close> (\<open>auth.rs\<close>): both sides of the handshake. Admission is sound and both sides agree.
  \<^item> \<open>Tunnel\<close> (\<open>tunnel.rs\<close>): the client handler, its frame loop (a \<open>function\<close> that ends because
    every frame consumes input), the writer task, the accept loop. Commands are answered in order
    and the client counter counts handlers.
  \<^item> \<open>Authorized_Keys\<close> (\<open>authorized_keys.rs\<close>): fetching and merging keys. Synchronisation installs
    the merge and never empties a list with configured keys.
  \<^item> \<open>Config\<close> (\<open>config.rs\<close>), \<open>Ros\<close> (\<open>ros.rs\<close>), \<open>Heartbeat\<close> (\<open>heartbeat.rs\<close>): configuration loading and
    validation; shell quoting, shown against a model of the shell's word splitting; network
    profiles and heartbeats.
  \<^item> \<open>Ipc\<close> (\<open>ipc.rs\<close>): the messages of the local socket.
  \<^item> \<open>Mux\<close> (\<open>mux.rs\<close>): one connection shared by many streams, with its write task, read task and the
    task of the first stream. Streams keep to themselves, identifiers are fresh, each class keeps
    its order, control frames overtake bulk frames, and data arrives at the other end.
  \<^item> \<open>Resolver\<close> (\<open>roboat-resolver/src/lib.rs\<close>): the cached lookup and the signed heartbeats.
  \<^item> \<open>Manager\<close>, \<open>Manager_Laws\<close>, \<open>Bridges\<close>, \<open>Daemon_System\<close> (\<open>manager.rs\<close>): the daemon's tables,
    inbound connections, dialling, the pool and the bridge tasks; what single operations do; how
    data travels through the bridges; and the daemon as one transition system (\<open>daemon_step\<close>,
    \<open>daemon_reachable\<close>) with the invariant of all its reachable states.
  \<^item> \<open>Server\<close>, \<open>Server_Laws\<close> (\<open>server.rs\<close>, \<open>main.rs\<close>): the handlers of agent messages, the loop that
    reads them (again ending because messages consume input), the forwarding and announcing tasks,
    start-up. The loop refines in-order service of the messages.
  \<^item> \<open>Webrtc\<close>, \<open>Webrtc_Client\<close>, \<open>Webrtc_Laws\<close> (\<open>types.rs\<close>, \<open>lib.rs\<close>, \<open>client.rs\<close>): URLs, switches and time
    limits, the choice of TURN URLs and ICE servers, the attempt as a machine over the events the
    stack reports, and the signalling task. The attempt ends once its timers have run out and its
    success is characterised; relay-only mode stays on the relay.
  \<^item> \<open>Go_Runtime\<close>: what the Go sources use of their standard library (time, strings, integers, channels).
  \<^item> \<open>Connstate\<close> (\<open>connstate/state.go\<close>): the liveness of robots, as a function of what happened to them.
  \<^item> \<open>Relay_Hub\<close>, \<open>Relay_Laws\<close> (\<open>relay/relay.go\<close>): the hub of control and relay connections, commands
    and their responses, attach sessions and relay queues; its invariant over all sequences of
    operations, and what clients of the hub rely on.
  \<^item> \<open>Platform_Auth\<close> (\<open>internal/opsauth/opsauth.go\<close>, \<open>internal/store/store.go\<close>,
    \<open>cmd/tunnel-svc/resolver.go\<close> and the authenticator of \<open>main.go\<close>): who robots, clients and users
    are; the interface \<open>robot_resolver\<close> that the endpoints of agents rely on.
  \<^item> \<open>Evidence\<close> (\<open>connstate/evidence.go\<close>): profiles, observations and bootstrap sessions, with their
    normalisation and how long sessions stay.
  \<^item> \<open>Base64\<close>: the encoding in which relay data and TURN passwords travel, with its round trip.
  \<^item> \<open>Relay_Endpoint\<close> (the rest of \<open>relay/relay.go\<close>): the WebSocket endpoints of agents and of relay
    users around the hub, every goroutine as steps. \<open>Relay_Endpoint_Laws\<close>: their invariant, that a
    robot's relay channel carries only what its owners send and a control channel needs the
    robot's key; \<open>Relay_Flow\<close>: users get what agents sent for their stream, in order.
  \<^item> \<open>Relay_Trigger\<close> (\<open>relay/bootstrap.go\<close>, \<open>relay/fallback_gate.go\<close>, \<open>relay/server.go\<close>): triggering a
    WebRTC session on an agent over its control channel or over TCP, with backoff, composed with
    the agent's own server of \<open>Tunnel\<close>.
  \<^item> \<open>Signalling\<close> (\<open>webrtc/session.go\<close>, \<open>webrtc/signaling.go\<close>): the signalling service with its handlers
    interleaved in any order.
  \<^item> \<open>Turn_Service\<close> (\<open>webrtc/turn.go\<close>): TURN credentials, composed with the client's choice of ICE servers.

  This theory adds what holds of the parts together: from a configuration that loads, through key
  synchronisation and the handshake, to the command channel.

  \<^bold>\<open>Bounds and fuel.\<close> No definition takes fuel. Loops over input are \<open>function\<close>s whose measure is the
  number of bytes left; loops over events recurse on the list of events. Sizes are those of the
  code: frames up to 64 MiB, socket messages up to 4 MiB, channels of 64 and 32 messages, relay
  queues of 512 and relay channels of 2048.

  \<^bold>\<open>Not modelled.\<close> The contents of diagnostics other than the log lines of the WebRTC client; the
  clock except where a timer or an expiry decides; the lag limits of the agent's broadcast channel
  beyond what its readers see; sockets and processes of the operating system; the WebRTC stack
  and the ICE library vendored with it, which only carry what \<open>client.rs\<close> decides and
  what the WebSocket library does below messages; of the platform services the wiring of routes, the
  internal HTTP API, the MCP reverse proxy, reading the environment and database migrations (glue
  around operations that are modelled); the client bindings in Python and Go, whose daemon side is
  modelled; the deployment scripts.
\<close>

section \<open>From the configuration to the command channel\<close>

lemma handle_client_commands:
  assumes "tunnel_handle_client ed elapsed nonce env shut a c = (res, c')"
    and "tc_commands c' \<noteq> tc_commands c"
  shows "\<exists>k d. server_authenticate ed elapsed nonce a \<lparr>rd = tc_rd c, wr = tc_wr c\<rparr> = (Inr k, d)"
  using assms by (auto simp: tunnel_handle_client_def split: prod.splits sum.splits)

lemma valid_key_ascii:
  assumes "is_valid_ed25519_public_key_hex k"
  shows "list_all is_ascii k" and "to_lowercase ulow (trim k) \<noteq> []"
proof -
  have hex: "\<forall>c \<in> set k. is_ascii_hexdigit c" and k: "k \<noteq> []"
    using assms by (auto simp: is_valid_ed25519_public_key_hex_def list_all_iff)
  then show ascii: "list_all is_ascii k"
    by (auto simp: list_all_iff is_ascii_hexdigit_def is_ascii_def Let_def)
  have "visible c" if "is_ascii_hexdigit c" for c
    using that by (auto simp: is_ascii_hexdigit_def visible_def Let_def)
  then have "trim k = k" using hex k by (intro trim_visible) auto
  then show "to_lowercase ulow (trim k) \<noteq> []"
    using ascii k by (simp add: to_lowercase_ascii to_ascii_lowercase_def)
qed

lemma configured_keys_closed:
  assumes "list_all is_valid_ed25519_public_key_hex keys" and "keys \<noteq> []"
  shows "static_closed ulow (sync_service_new ulow url akey secs keys)"
    and "tunnel_authorized_keys (tunnel_server_new ulow port keys) \<noteq> []"
proof -
  have ascii: "keys_ascii keys"
    using assms(1) valid_key_ascii(1) by (auto simp: keys_ascii_def list_all_iff)
  obtain k where "k \<in> set keys" "is_valid_ed25519_public_key_hex k"
    using assms by (cases keys) auto
  then have "to_lowercase ulow (trim k) \<in> set (normalize_keys ulow keys)"
    using valid_key_ascii(2)[of k] by (auto simp: set_normalize_keys)
  then have n: "normalize_keys ulow keys \<noteq> []" by auto
  then show "tunnel_authorized_keys (tunnel_server_new ulow port keys) \<noteq> []"
    by (simp add: tunnel_authorized_keys_def tunnel_server_new_def server_auth_new_def
        server_auth_keys_def normalize_keys_eq)
  have "keys_ascii (normalize_keys ulow keys)"
    using ascii
    by (auto simp: keys_ascii_def list_all_iff set_normalize_keys to_lowercase_def to_ascii_lowercase_def
        dest: set_trim[THEN subsetD])
  with n show "static_closed ulow (sync_service_new ulow url akey secs keys)"
    by (simp add: static_closed_def sync_service_new_def normalize_keys_idem[OF ascii])
qed

text \<open>C1: An agent whose configuration loads without the insecure mode executes commands only for
  listed keys: with the configured keys given to the tunnel server and to the key
  synchronisation, whatever the platform returns or fails to return and whatever a client sends,
  a command reaches the application only on a connection that opened with a signature of this
  connection's nonce under a key whose hexadecimal form is on the server's list.\<close>

theorem commands_need_listed_key:
  assumes "load_with_env ulow read_file toml vars path = Inr cfg"
    and "\<not> insecure_allow_any_client (server cfg)"
    and "ts = sync_run ulow (sync_service_new ulow url akey secs (sc_authorized_keys (server cfg)))
                fetched es (tunnel_server_new ulow port (sc_authorized_keys (server cfg)))"
    and "tunnel_handle_client ed elapsed nonce env shut (ts_authenticator ts) c = (res, c')"
    and "tc_commands c' \<noteq> tc_commands c"
  shows "\<exists>pk sig rest. rbytes (tc_rd c) = pk @ sig @ rest \<and> length pk = 32 \<and> length sig = 64 \<and>
    verify_ok ed pk nonce sig \<and> hex_encode pk \<in> set (tunnel_authorized_keys ts)"
proof -
  let ?keys = "sc_authorized_keys (server cfg)"
  have "list_all is_valid_ed25519_public_key_hex ?keys" "?keys \<noteq> []"
    using load_with_env_InrD[OF assms(1)] assms(2) by simp_all
  note closed = configured_keys_closed[OF this]
  have "closed_inv ulow (sync_service_new ulow url akey secs ?keys) ts"
    unfolding assms(3) by (rule sync_run_closed) (simp add: closed_inv_def closed(2))
  then have keys: "tunnel_authorized_keys ts \<noteq> []" using closed(1) by (simp add: closed_inv_def)
  obtain k d where "server_authenticate ed elapsed nonce (ts_authenticator ts) \<lparr>rd = tc_rd c, wr = tc_wr c\<rparr> = (Inr k, d)"
    using handle_client_commands[OF assms(4,5)] by blast
  from server_authenticate_InrD[OF this] keys show ?thesis
    by (auto simp: tunnel_authorized_keys_def)
qed

definition demo_config :: agent_config where
  "demo_config = sample_config\<lparr>server := (server sample_config)\<lparr>sc_authorized_keys := [replicate 64 CHR ''a'']\<rparr>\<rparr>"

definition demo_client :: "nat tunnel_client" where
  "demo_client =
     \<lparr>tc_rd = reader_of (replicate 32 0xaa @ replicate 64 7 @ frame_bytes (FtCommandRequest, [65])),
      tc_wr = fresh_writer, tc_commands = [], tc_trigger = None, tc_teardown = None\<rparr>"

lemma demo_config_loads:
  "load_with_env id (\<lambda>_. Inr []) (\<lambda>_. Inr sample_config) (\<lambda>_. None) ''agent.toml'' = Inr demo_config"
  "sc_authorized_keys (server demo_config) = [replicate 64 CHR ''a'']"
  "\<not> insecure_allow_any_client (server demo_config)"
proof -
  show "load_with_env id (\<lambda>_. Inr []) (\<lambda>_. Inr sample_config) (\<lambda>_. None) ''agent.toml'' = Inr demo_config"
    by (simp add: load_with_env_def config_load_def apply_env_overrides_def override_string_def
        Let_def sample_config_valid demo_config_def)
qed (simp_all add: demo_config_def sample_config_def agent_config_default_def server_config_default_def)

lemma demo_client_commands:
  assumes "server_auth_keys a = [replicate 64 CHR ''a'']"
  shows "tc_commands (snd (tunnel_handle_client echo_scheme (\<lambda>_. False) (replicate 32 7) echo_env None a
    demo_client)) \<noteq> []"
proof -
  let ?d = "(endpoint (frame_bytes (FtCommandRequest, [65])))\<lparr>wr := fresh_writer\<lparr>wbytes := replicate 32 7 @ [1]\<rparr>\<rparr>"
  have hex: "hex_encode (replicate 32 0xaa) = replicate 64 CHR ''a''" by code_simp
  have len: "length (replicate 32 0xaa :: bytes) = 32" "length (replicate 64 7 :: bytes) = 64" by simp_all
  have "verify_ok echo_scheme (replicate 32 0xaa) (replicate 32 7) (replicate 64 7)"
    "key_ok echo_scheme (replicate 32 0xaa)"
    by (simp_all add: echo_scheme_def replicate_add[symmetric])
  with server_on_answer[OF len, of echo_scheme "replicate 32 7" a "frame_bytes (FtCommandRequest, [65])"]
  have auth: "server_authenticate echo_scheme (\<lambda>_. False) (replicate 32 7) a
      \<lparr>rd = tc_rd demo_client, wr = tc_wr demo_client\<rparr> = (Inr (replicate 64 CHR ''a''), ?d)"
    using assms by (simp add: admitted_def hex demo_client_def endpoint_def)
  let ?c = "demo_client\<lparr>tc_wr := wr ?d\<rparr>"
  have ok: "list_all frame_okay [(FtCommandRequest, [65])]" by (simp add: frame_okay_def max_frame_def)
  have eof: "read_frame (reader_of []) = (Inl ConnectionClosed, reader_of [])" by (rule read_frame_eof)
  from tunnel_loop_refines[OF ok eof, of echo_env ?c] obtain r where
    "tunnel_client_loop echo_env None (?c\<lparr>tc_rd := reader_of (frame_bytes (FtCommandRequest, [65]))\<rparr>) =
      (fst (tunnel_serve echo_env [(FtCommandRequest, [65])] ?c),
       (snd (tunnel_serve echo_env [(FtCommandRequest, [65])] ?c))\<lparr>tc_rd := r\<rparr>)"
    by auto
  moreover have "tc_commands (snd (tunnel_serve echo_env [(FtCommandRequest, [65])] ?c)) \<noteq> []"
    by (simp add: tunnel_handle_frame_def echo_env_def tunnel_write_def split: prod.splits sum.splits)
  moreover have "demo_client\<lparr>tc_rd := rd ?d, tc_wr := wr ?d\<rparr> =
      ?c\<lparr>tc_rd := reader_of (frame_bytes (FtCommandRequest, [65]))\<rparr>"
    by (simp add: endpoint_def)
  ultimately show ?thesis
    by (simp only: tunnel_handle_client_def auth prod.case sum.case snd_conv tunnel_client.simps) simp
qed

theorem commands_need_listed_key_witness:
  "\<exists>pk sig rest. rbytes (tc_rd demo_client) = pk @ sig @ rest \<and> length pk = 32 \<and> length sig = 64 \<and>
     verify_ok echo_scheme pk (replicate 32 7) sig \<and> hex_encode pk \<in> {replicate 64 CHR ''a''}"
proof -
  let ?keys = "[replicate 64 CHR ''a'']"
  define ts where "ts = sync_run id (sync_service_new id ''u'' ''k'' 30 (sc_authorized_keys (server demo_config)))
    (Inl RqDecode) [] (tunnel_server_new id 11411 (sc_authorized_keys (server demo_config)))"
  have "normalize_authorized_keys id ?keys = ?keys" by code_simp
  then have keys: "server_auth_keys (ts_authenticator ts) = ?keys"
    by (simp add: ts_def sync_run_def sync_once_def demo_config_loads tunnel_server_new_def server_auth_new_def
        server_auth_keys_def)
  have cmds: "tc_commands (snd (tunnel_handle_client echo_scheme (\<lambda>_. False) (replicate 32 7) echo_env None
      (ts_authenticator ts) demo_client)) \<noteq> tc_commands demo_client"
    using demo_client_commands[OF keys] by (simp add: demo_client_def)
  from commands_need_listed_key[OF demo_config_loads(1,3) ts_def surjective_pairing cmds]
  show ?thesis by (simp only: tunnel_authorized_keys_def keys list.set)
qed

end
